(* ===== verification/Go_Base.thy ===== *)
theory Go_Base
  imports
    Complex_Main
    "HOL-Library.AList"
    "HOL-Library.Char_ord"
    "HOL-Library.List_Lexorder"
    "HOL-Library.Product_Lexorder"
    "HOL-Library.Multiset"
    "HOL-Library.Sublist"
    "HOL-Library.Word"
begin

text \<open>
  The prelude: what the components use of the Go language and its standard library.
  Strings are byte strings (\<open>string\<close>, a list of \<open>char\<close>), as Go's are; case mapping acts on
  the ASCII letters and leaves every other byte alone. An instant (\<open>time.Time\<close>) is the
  number of nanoseconds since Go's zero time, so that \<open>IsZero\<close> is \<open>t = 0\<close> and
  \<open>Truncate\<close> rounds down to a multiple counted from it, as the library documents; a
  \<open>time.Duration\<close> is a number of nanoseconds. Error values are the constructors of
  \<open>goerr\<close>: one per sentinel of the program and \<open>ErrMsg\<close> for a formatted error.
\<close>

section \<open>Proof collections\<close>

named_theorems go_str
  \<open>facts on the string functions of the standard library\<close>
named_theorems go_time
  \<open>facts on instants and durations\<close>

section \<open>Errors\<close>

datatype goerr =
    ErrNotAuthenticated
  | ErrUnknownAPIKey
  | ErrNotFound
  | ErrExportCapped
  | ErrCanceled
  | ErrDeadlineExceeded
  | ErrMsg string

fun err_text :: "goerr \<Rightarrow> string" where
  "err_text ErrNotAuthenticated = ''not authenticated''"
| "err_text ErrUnknownAPIKey = ''unknown api key''"
| "err_text ErrNotFound = ''api key not found''"
| "err_text ErrExportCapped = ''export cap reached''"
| "err_text ErrCanceled = ''context canceled''"
| "err_text ErrDeadlineExceeded = ''context deadline exceeded''"
| "err_text (ErrMsg s) = s"

type_synonym 'a result = "goerr + 'a"

text \<open>\<open>if err != nil { return err }\<close> followed by the rest of the function.\<close>

definition rbind :: "'a result \<Rightarrow> ('a \<Rightarrow> 'b result) \<Rightarrow> 'b result" where
  "rbind r k = (case r of Inl e \<Rightarrow> Inl e | Inr x \<Rightarrow> k x)"

definition rcheck :: "goerr option \<Rightarrow> 'b result \<Rightarrow> 'b result" where
  "rcheck e r = (case e of Some x \<Rightarrow> Inl x | None \<Rightarrow> r)"

lemma rbind_simps [simp]: "rbind (Inl e) k = Inl e" "rbind (Inr x) k = k x"
  by (simp_all add: rbind_def)

lemma rbind_Inr: "rbind r k = Inr y \<longleftrightarrow> (\<exists>x. r = Inr x \<and> k x = Inr y)"
  by (cases r) auto

lemma rcheck_simps [simp]: "rcheck (Some x) r = Inl x" "rcheck None r = r"
  by (simp_all add: rcheck_def)

lemma rcheck_Inr: "rcheck e r = Inr y \<longleftrightarrow> e = None \<and> r = Inr y"
  by (cases e) auto

section \<open>Time\<close>

type_synonym gotime = int
type_synonym duration = int

abbreviation millisecond :: duration where "millisecond \<equiv> 1000000"
abbreviation second :: duration where "second \<equiv> 1000000000"
abbreviation minute :: duration where "minute \<equiv> 60000000000"
abbreviation hour :: duration where "hour \<equiv> 3600000000000"

abbreviation max_int64 :: int where "max_int64 \<equiv> 9223372036854775807"
abbreviation min_int64 :: int where "min_int64 \<equiv> - 9223372036854775808"

text \<open>\<open>time.Unix(0, 0)\<close> in nanoseconds since Go's zero time.\<close>

definition unix_epoch :: gotime where
  "unix_epoch = 62135596800 * second"

definition is_zero_time :: "gotime \<Rightarrow> bool" where
  "is_zero_time t \<longleftrightarrow> t = 0"

text \<open>\<open>Time.Sub\<close> saturates at the ends of the 64-bit range.\<close>

definition time_sub :: "gotime \<Rightarrow> gotime \<Rightarrow> duration" where
  "time_sub a b = max min_int64 (min max_int64 (a - b))"

lemma time_sub_less [go_time]:
  "min_int64 < c \<Longrightarrow> c \<le> max_int64 \<Longrightarrow> time_sub a b < c \<longleftrightarrow> a - b < c"
  by (auto simp: time_sub_def min_def max_def)

lemma time_sub_greater [go_time]:
  "min_int64 \<le> c \<Longrightarrow> c < max_int64 \<Longrightarrow> c < time_sub a b \<longleftrightarrow> c < a - b"
  by (auto simp: time_sub_def min_def max_def)

lemma time_sub_le [go_time]:
  "min_int64 \<le> c \<Longrightarrow> c < max_int64 \<Longrightarrow> time_sub a b \<le> c \<longleftrightarrow> a - b \<le> c"
  by (auto simp: time_sub_def min_def max_def)

lemma time_sub_upper [go_time]: "min_int64 \<le> a - b \<Longrightarrow> time_sub a b \<le> a - b"
  by (auto simp: time_sub_def min_def max_def)

lemma time_sub_self [simp]: "time_sub a a = 0"
  by (simp add: time_sub_def)

lemma time_sub_exact [go_time]:
  "min_int64 \<le> a - b \<Longrightarrow> a - b \<le> max_int64 \<Longrightarrow> time_sub a b = a - b"
  by (auto simp: time_sub_def)

definition time_truncate :: "gotime \<Rightarrow> duration \<Rightarrow> gotime" where
  "time_truncate t d = (if d \<le> 0 then t else t - t mod d)"

lemma time_truncate_bounds [go_time]:
  assumes "0 < d"
  shows "time_truncate t d \<le> t" and "t < time_truncate t d + d"
  using assms pos_mod_bound [of d t] pos_mod_sign [of d t]
  by (auto simp: time_truncate_def)

lemma time_truncate_dvd [go_time]: "0 < d \<Longrightarrow> d dvd time_truncate t d"
  by (simp add: time_truncate_def dvd_minus_mod)

section \<open>Strings\<close>

definition lower_char :: "char \<Rightarrow> char" where
  "lower_char c = (let n = (of_char c :: nat) in
     if 65 \<le> n \<and> n \<le> 90 then char_of (n + 32) else c)"

definition to_lower :: "string \<Rightarrow> string" where
  "to_lower s = map lower_char s"

definition upper_char :: "char \<Rightarrow> char" where
  "upper_char c = (let n = (of_char c :: nat) in
     if 97 \<le> n \<and> n \<le> 122 then char_of (n - 32) else c)"

abbreviation has_prefix :: "string \<Rightarrow> string \<Rightarrow> bool" where
  "has_prefix s p \<equiv> prefix p s"

abbreviation contains :: "string \<Rightarrow> string \<Rightarrow> bool" where
  "contains s sub \<equiv> sublist sub s"

definition is_space :: "char \<Rightarrow> bool" where
  "is_space c \<longleftrightarrow> (let n = (of_char c :: nat) in (9 \<le> n \<and> n \<le> 13) \<or> n = 32)"

definition trim_space :: "string \<Rightarrow> string" where
  "trim_space s = rev (dropWhile is_space (rev (dropWhile is_space s)))"

definition trim_right :: "char \<Rightarrow> string \<Rightarrow> string" where
  "trim_right c s = rev (dropWhile ((=) c) (rev s))"

fun split_on :: "char \<Rightarrow> string \<Rightarrow> string list" where
  "split_on c [] = [[]]"
| "split_on c (x # xs) =
     (if x = c then [] # split_on c xs
      else case split_on c xs of
             [] \<Rightarrow> [[x]]
           | y # ys \<Rightarrow> (x # y) # ys)"

fun join :: "string \<Rightarrow> string list \<Rightarrow> string" where
  "join sep [] = []"
| "join sep [x] = x"
| "join sep (x # y # ys) = x @ sep @ join sep (y # ys)"

text \<open>\<open>strings.Cut\<close> and \<open>strings.SplitN(s, sep, 2)\<close> for a one-byte separator.\<close>

definition cut_at :: "char \<Rightarrow> string \<Rightarrow> (string \<times> string) option" where
  "cut_at c s = (if c \<in> set s
     then Some (takeWhile (\<lambda>x. x \<noteq> c) s, tl (dropWhile (\<lambda>x. x \<noteq> c) s)) else None)"

text \<open>The part of \<open>s\<close> from the last \<open>c\<close> on (\<open>s[strings.LastIndex(s, c):]\<close>).\<close>

definition last_index :: "char \<Rightarrow> string \<Rightarrow> nat option" where
  "last_index c s = (if c \<in> set s
     then Some (length s - Suc (length (takeWhile (\<lambda>x. x \<noteq> c) (rev s)))) else None)"

lemma to_lower_simps [simp]:
  "to_lower [] = []"
  "to_lower (c # s) = lower_char c # to_lower s"
  "to_lower (s @ t) = to_lower s @ to_lower t"
  "length (to_lower s) = length s"
  by (simp_all add: to_lower_def)

lemma lower_char_idem [simp]: "lower_char (lower_char c) = lower_char c"
proof -
  have "(of_char (char_of (n + 32 :: nat)) :: nat) = n + 32" if "n \<le> 90" for n
    using that by simp
  then show ?thesis
    by (auto simp: lower_char_def Let_def)
qed

lemma to_lower_idem [simp]: "to_lower (to_lower s) = to_lower s"
  by (induction s) simp_all

lemma cut_at_append [go_str]:
  "c \<notin> set a \<Longrightarrow> cut_at c (a @ c # b) = Some (a, b)"
  by (induction a) (auto simp: cut_at_def)

lemma cut_at_Some [go_str]:
  assumes "cut_at c s = Some (a, b)"
  shows "s = a @ c # b" and "c \<notin> set a"
proof -
  from assms have "c \<in> set s"
    by (simp add: cut_at_def split: if_splits)
  then obtain a' b' where s: "s = a' @ c # b'" "c \<notin> set a'"
    by (meson split_list_first)
  then have "cut_at c s = Some (a', b')"
    by (simp add: cut_at_append)
  with assms s show "s = a @ c # b" and "c \<notin> set a"
    by simp_all
qed

lemma split_on_not_Nil [simp]: "split_on c s \<noteq> []"
  by (induction s) (auto split: list.splits)

lemma split_on_no_sep [go_str]: "seg \<in> set (split_on c s) \<Longrightarrow> c \<notin> set seg"
proof (induction s arbitrary: seg)
  case Nil
  then show ?case by simp
next
  case (Cons x xs)
  then show ?case
    by (auto split: if_splits list.splits)
qed

lemma join_split_on [go_str]: "join [c] (split_on c s) = s"
proof (induction s)
  case Nil
  then show ?case by simp
next
  case (Cons x xs)
  show ?case
  proof (cases "split_on c xs")
    case Nil
    then show ?thesis by simp
  next
    case (Cons y ys)
    then show ?thesis
      using Cons.IH by (cases ys) auto
  qed
qed

lemma split_on_single [go_str]: "c \<notin> set s \<Longrightarrow> split_on c s = [s]"
  by (induction s) (auto split: list.splits)

lemma split_on_append [go_str]:
  "c \<notin> set s \<Longrightarrow> split_on c (s @ c # t) = s # split_on c t"
  by (induction s) auto

lemma split_on_join [go_str]:
  "xs \<noteq> [] \<Longrightarrow> (\<And>x. x \<in> set xs \<Longrightarrow> c \<notin> set x) \<Longrightarrow> split_on c (join [c] xs) = xs"
proof (induction xs)
  case Nil
  then show ?case by simp
next
  case (Cons x xs)
  then show ?case
    by (cases xs) (auto simp: split_on_single split_on_append)
qed

section \<open>Decimal numerals\<close>

definition digit_char :: "nat \<Rightarrow> char" where
  "digit_char d = char_of (48 + d)"

definition digit_val :: "char \<Rightarrow> nat option" where
  "digit_val c = (let n = (of_char c :: nat) in
     if 48 \<le> n \<and> n \<le> 57 then Some (n - 48) else None)"

fun show_nat :: "nat \<Rightarrow> string" where
  "show_nat n = (if n < 10 then [digit_char n] else show_nat (n div 10) @ [digit_char (n mod 10)])"

declare show_nat.simps [simp del]

definition show_int :: "int \<Rightarrow> string" where
  "show_int i = (if i < 0 then CHR ''-'' # show_nat (nat (- i)) else show_nat (nat i))"

fun parse_digits :: "nat \<Rightarrow> string \<Rightarrow> nat option" where
  "parse_digits acc [] = Some acc"
| "parse_digits acc (c # cs) =
     (case digit_val c of None \<Rightarrow> None | Some d \<Rightarrow> parse_digits (10 * acc + d) cs)"

text \<open>
  \<open>strconv.ParseInt(s, 10, 64)\<close>: an optional sign, at least one digit, and a value in the
  64-bit range; anything else is an error. (\<open>strconv.Atoi\<close> agrees with it.)
\<close>

definition parse_int64 :: "string \<Rightarrow> int option" where
  "parse_int64 s =
     (let neg = (case s of c # _ \<Rightarrow> c = CHR ''-'' | [] \<Rightarrow> False);
          body = (case s of c # cs \<Rightarrow> if c = CHR ''-'' \<or> c = CHR ''+'' then cs else s | [] \<Rightarrow> [])
      in if body = [] then None
         else case parse_digits 0 body of
                None \<Rightarrow> None
              | Some n \<Rightarrow>
                  (let v = (if neg then - int n else int n)
                   in if min_int64 \<le> v \<and> v \<le> max_int64 then Some v else None))"

lemma digit_val_char [simp]: "d < 10 \<Longrightarrow> digit_val (digit_char d) = Some d"
  by (simp add: digit_val_def digit_char_def)

lemma digit_char_not_special [simp]:
  assumes "d < 10"
  shows "digit_char d \<noteq> CHR ''-''" and "digit_char d \<noteq> CHR ''+''" and "digit_char d \<noteq> CHR ''$''"
proof -
  have "(of_char (digit_char d) :: nat) = 48 + d"
    using assms by (simp add: digit_char_def)
  then show "digit_char d \<noteq> CHR ''-''" "digit_char d \<noteq> CHR ''+''" "digit_char d \<noteq> CHR ''$''"
    by auto
qed

lemma parse_digits_append:
  "parse_digits acc (xs @ ys) =
     (case parse_digits acc xs of None \<Rightarrow> None | Some n \<Rightarrow> parse_digits n ys)"
  by (induction xs arbitrary: acc) (auto split: option.splits)

lemma show_nat_not_Nil [simp]: "show_nat n \<noteq> []"
  by (subst show_nat.simps) simp

lemma parse_digits_show_nat [go_str]: "parse_digits 0 (show_nat n) = Some n"
proof (induction n rule: show_nat.induct)
  case (1 n)
  show ?case
  proof (cases "n < 10")
    case True
    then show ?thesis by (subst show_nat.simps) simp
  next
    case False
    with "1.IH" have "parse_digits 0 (show_nat (n div 10)) = Some (n div 10)" by simp
    with False show ?thesis
      by (subst show_nat.simps) (simp add: parse_digits_append)
  qed
qed

lemma show_nat_digits [go_str]: "c \<in> set (show_nat n) \<Longrightarrow> \<exists>d < 10. c = digit_char d"
proof (induction n rule: show_nat.induct)
  case (1 n)
  show ?case
  proof (cases "n < 10")
    case True
    with "1.prems" show ?thesis by (auto simp: show_nat.simps [of n])
  next
    case False
    with "1.prems" consider "c \<in> set (show_nat (n div 10))" | "c = digit_char (n mod 10)"
      by (auto simp: show_nat.simps [of n])
    then show ?thesis
    proof cases
      case 1
      with False show ?thesis by (rule "1.IH")
    next
      case 2
      moreover have "n mod 10 < 10" by simp
      ultimately show ?thesis by blast
    qed
  qed
qed

lemma show_nat_hd: "\<exists>d < 10. \<exists>cs. show_nat n = digit_char d # cs"
  using show_nat_digits [of "hd (show_nat n)" n]
  by (cases "show_nat n") auto

lemma parse_int64_show_int [go_str]:
  assumes "min_int64 \<le> i" and "i \<le> max_int64"
  shows "parse_int64 (show_int i) = Some i"
proof (cases "i < 0")
  case True
  with assms show ?thesis
    by (simp add: parse_int64_def show_int_def parse_digits_show_nat Let_def)
next
  case False
  obtain d cs where d: "d < 10" "show_nat (nat i) = digit_char d # cs"
    using show_nat_hd by blast
  have "parse_digits 0 (digit_char d # cs) = Some (nat i)"
    using parse_digits_show_nat [of "nat i"] d by simp
  with False assms d show ?thesis
    by (simp add: parse_int64_def show_int_def Let_def)
qed

section \<open>Lists and association lists\<close>

lemma map_of_map_snd [simp]:
  "map_of (map (\<lambda>(k, v). (k, f k v)) xs) k = map_option (f k) (map_of xs k)"
  by (induction xs) auto

lemma map_fst_map_snd [simp]: "map fst (map (\<lambda>(k, v). (k, f k v)) xs) = map fst xs"
  by (induction xs) auto

lemma sorted_wrt_take [intro]: "sorted_wrt P xs \<Longrightarrow> sorted_wrt P (take n xs)"
  by (metis append_take_drop_id sorted_wrt_append)

text \<open>
  A list sorted by a key that is injective on its elements is the only one: the order of
  \<open>sort.Slice\<close>, which promises no stability, is then determined.
\<close>

lemma sorted_key_unique:
  assumes "mset xs = mset ys" and "sorted (map f xs)" and "sorted (map f ys)"
    and "inj_on f (set xs)"
  shows "xs = ys"
proof -
  have "mset (map f xs) = mset (map f ys)"
    using assms(1) by simp
  then have "map f xs = map f ys"
    using assms(2,3) by (metis properties_for_sort)
  moreover have "inj_on f (set xs \<union> set ys)"
    using assms(1,4) by (metis mset_eq_setD Un_absorb)
  ultimately show ?thesis
    by (metis map_inj_on)
qed

section \<open>Sorting through a projection\<close>

lemma insort_key_map_comp: "insort_key f (g x) (map g ys) = map g (insort_key (f \<circ> g) x ys)"
  by (induction ys) simp_all

lemma sort_key_map_comp: "sort_key f (map g xs) = map g (sort_key (f \<circ> g) xs)"
  by (induction xs) (simp_all add: insort_key_map_comp comp_def)

lemma find_append: "find P (xs @ ys) = (case find P xs of None \<Rightarrow> find P ys | Some x \<Rightarrow> Some x)"
  by (induction xs) simp_all

lemma update_new: "k \<notin> fst ` set m \<Longrightarrow> AList.update k v m = m @ [(k, v)]"
  by (induction m) auto

lemma append_break: "p @ d # q = w @ r \<Longrightarrow> d \<notin> set w \<Longrightarrow> \<exists>us. p = w @ us"
  by (auto simp: append_eq_append_conv2 Cons_eq_append_conv)

section \<open>64-bit arithmetic and quoting\<close>

text \<open>A result of \<open>int\<close>, \<open>int64\<close> or \<open>time.Duration\<close> arithmetic, reduced to 64 bits.\<close>

definition wrap64 :: "int \<Rightarrow> int" where
  "wrap64 i = sint (word_of_int i :: 64 word)"

lemma wrap64_id: "min_int64 \<le> i \<Longrightarrow> i \<le> max_int64 \<Longrightarrow> wrap64 i = i"
  by (simp add: wrap64_def signed_of_int signed_take_bit_int_eq_self)

lemma wrap64_range: "min_int64 \<le> wrap64 i \<and> wrap64 i \<le> max_int64"
  using sint_range_size [of "word_of_int i :: 64 word"] by (simp add: wrap64_def word_size)

text \<open>The verb \<open>%q\<close> on a string; bytes above ASCII are shown as they are.\<close>

definition hex_digit :: "nat \<Rightarrow> char" where
  "hex_digit d = (if d < 10 then char_of (48 + d) else char_of (87 + d))"

definition quote_char :: "char \<Rightarrow> string" where
  "quote_char c = (let n = (of_char c :: nat) in
     if n = 34 \<or> n = 92 then [CHR 0x5C, c]
     else if n = 7 then [CHR 0x5C, CHR ''a''] else if n = 8 then [CHR 0x5C, CHR ''b'']
     else if n = 9 then [CHR 0x5C, CHR ''t''] else if n = 10 then [CHR 0x5C, CHR ''n'']
     else if n = 11 then [CHR 0x5C, CHR ''v''] else if n = 12 then [CHR 0x5C, CHR ''f'']
     else if n = 13 then [CHR 0x5C, CHR ''r'']
     else if n < 32 \<or> n = 127 then [CHR 0x5C, CHR ''x'', hex_digit (n div 16), hex_digit (n mod 16)]
     else [c])"

definition go_quote :: "string \<Rightarrow> string" where
  "go_quote s = [CHR 0x22] @ concat (map quote_char s) @ [CHR 0x22]"

end
