(* ===== verification/Go_Value.thy ===== *)
theory Go_Value
  imports Go_Base
begin

text \<open>
  The dynamic values (\<open>any\<close>) the program moves around: decoded JSON, tool arguments and
  results, token claims. A Go map is an association list with distinct keys (\<open>wf_val\<close>); the
  order of the list stands for one iteration order and no theorem depends on it. A nil map
  inside an interface is \<open>VNilMap\<close>; a variable of map type is a \<open>gomap\<close>, with \<open>None\<close> for
  nil. A \<open>float64\<close> is a rational or one of the three non-finite values.
\<close>

section \<open>Floating-point numbers\<close>

datatype f64 = Fin rat | PosInf | NegInf | NaN

text \<open>IEEE equality: \<open>NaN\<close> differs from everything, itself included.\<close>

fun f64_eq :: "f64 \<Rightarrow> f64 \<Rightarrow> bool" where
  "f64_eq (Fin a) (Fin b) \<longleftrightarrow> a = b"
| "f64_eq PosInf PosInf \<longleftrightarrow> True"
| "f64_eq NegInf NegInf \<longleftrightarrow> True"
| "f64_eq _ _ \<longleftrightarrow> False"

fun bit_length :: "nat \<Rightarrow> nat" where
  "bit_length n = (if n = 0 then 0 else Suc (bit_length (n div 2)))"

declare bit_length.simps [simp del]

text \<open>The conversion \<open>float64(n)\<close>: round to 53 significant bits, ties to even.\<close>

definition round53 :: "nat \<Rightarrow> nat" where
  "round53 n =
     (let e = bit_length n - 53; u = 2 ^ e; q = n div u; r = n mod u
      in if e = 0 then n
         else if 2 * r > u \<or> (2 * r = u \<and> odd q) then (q + 1) * u else q * u)"

definition float_of_int :: "int \<Rightarrow> f64" where
  "float_of_int i = Fin (of_int (sgn i * int (round53 (nat \<bar>i\<bar>))))"

lemma bit_length_le: "n < 2 ^ k \<Longrightarrow> bit_length n \<le> k"
proof (induction n arbitrary: k rule: bit_length.induct)
  case (1 n)
  show ?case
  proof (cases "n = 0")
    case True
    then show ?thesis by (simp add: bit_length.simps [of 0])
  next
    case False
    with "1.prems" obtain k' where k: "k = Suc k'"
      by (cases k) auto
    with "1.prems" have "n div 2 < 2 ^ k'" by auto
    with False have "bit_length (n div 2) \<le> k'" by (rule "1.IH")
    with False k show ?thesis by (simp add: bit_length.simps [of n])
  qed
qed

lemma float_of_int_exact: "\<bar>i\<bar> < 2 ^ 53 \<Longrightarrow> float_of_int i = Fin (of_int i)"
proof -
  assume "\<bar>i\<bar> < 2 ^ 53"
  then have "nat \<bar>i\<bar> < 2 ^ 53" by (simp add: nat_less_iff)
  then have "bit_length (nat \<bar>i\<bar>) \<le> 53" by (rule bit_length_le)
  then have "round53 (nat \<bar>i\<bar>) = nat \<bar>i\<bar>" by (simp add: round53_def)
  then show ?thesis
    by (simp add: float_of_int_def sgn_if)
qed

section \<open>Values\<close>

datatype goval =
    VNil
  | VBool bool
  | VInt int
  | VFloat f64
  | VStr string
  | VBytes string
  | VSlice "goval list"
  | VMap "(string \<times> goval) list"
  | VNilMap

type_synonym gomap = "(string \<times> goval) list option"

lemma size_map_entry [termination_simp]:
  "(k, v) \<in> set m \<Longrightarrow> size v < Suc (size_list (size_prod size size) m)"
proof (induction m)
  case Nil
  then show ?case by simp
next
  case (Cons e m)
  then show ?case by (cases e) auto
qed

lemma size_map_entry' [termination_simp]:
  "(k, v) \<in> set m \<Longrightarrow> size v < Suc (size_list (\<lambda>e. Suc (size (snd e))) m)"
  by (induction m) auto

text \<open>Boxing a variable of map type into an interface.\<close>

definition box_map :: "gomap \<Rightarrow> goval" where
  "box_map m = (case m of None \<Rightarrow> VNilMap | Some es \<Rightarrow> VMap es)"

lemma box_map_simps [simp]: "box_map None = VNilMap" "box_map (Some es) = VMap es"
  by (simp_all add: box_map_def)

fun wf_val :: "goval \<Rightarrow> bool" where
  "wf_val (VMap m) \<longleftrightarrow> distinct (map fst m) \<and> (\<forall>(k, v) \<in> set m. wf_val v)"
| "wf_val (VSlice s) \<longleftrightarrow> (\<forall>v \<in> set s. wf_val v)"
| "wf_val _ \<longleftrightarrow> True"

text \<open>The string held by a value, as in \<open>s, _ := v.(string)\<close>: "" when it holds none.\<close>

fun as_string :: "goval option \<Rightarrow> string" where
  "as_string (Some (VStr s)) = s"
| "as_string _ = []"

section \<open>Positions\<close>

datatype step = Key string | Idx nat

fun walk :: "goval \<Rightarrow> step list \<Rightarrow> goval option" where
  "walk v [] = Some v"
| "walk (VMap m) (Key k # p) = (case map_of m k of None \<Rightarrow> None | Some v \<Rightarrow> walk v p)"
| "walk (VSlice s) (Idx i # p) = (if i < length s then walk (s ! i) p else None)"
| "walk _ _ = None"

lemma walk_append:
  "walk v (p @ q) = (case walk v p of None \<Rightarrow> None | Some w \<Rightarrow> walk w q)"
  by (induction v p rule: walk.induct) (auto split: option.splits)

lemma walk_empty_map [simp]: "walk (VMap []) (s # p) = None"
  by (cases s) simp_all

lemma walk_map_Key: "walk (VMap m) (Key k # p) = Option.bind (map_of m k) (\<lambda>v. walk v p)"
  by (simp split: option.splits)

end
