(* ===== verification/Go_Http.thy ===== *)
theory Go_Http
  imports Go_Value
begin

text \<open>
  The part of \<open>net/http\<close> the handlers use: header maps with their canonical keys, the
  fields of a request the code reads, and a response as the status, headers and body that
  were written.
\<close>

section \<open>Headers\<close>

type_synonym header = "(string \<times> string list) list"

definition valid_header_byte :: "char \<Rightarrow> bool" where
  "valid_header_byte c \<longleftrightarrow> (let n = (of_char c :: nat) in
     (48 \<le> n \<and> n \<le> 57) \<or> (65 \<le> n \<and> n \<le> 90) \<or> (97 \<le> n \<and> n \<le> 122) \<or>
     c \<in> set ''!#$%&*+-.^_`|~'' \<or> n = 39)"

fun canonical_bytes :: "bool \<Rightarrow> string \<Rightarrow> string" where
  "canonical_bytes up [] = []"
| "canonical_bytes up (c # cs) =
     (if up then upper_char c else lower_char c) # canonical_bytes (c = CHR ''-'') cs"

text \<open>\<open>http.CanonicalHeaderKey\<close>: a name with a byte that no header name has is left alone.\<close>

definition canonical_key :: "string \<Rightarrow> string" where
  "canonical_key s = (if list_all valid_header_byte s then canonical_bytes True s else s)"

definition header_get :: "header \<Rightarrow> string \<Rightarrow> string" where
  "header_get h k = (case map_of h (canonical_key k) of Some (v # _) \<Rightarrow> v | _ \<Rightarrow> [])"

definition header_set :: "header \<Rightarrow> string \<Rightarrow> string \<Rightarrow> header" where
  "header_set h k v = AList.update (canonical_key k) [v] h"

lemma header_get_set [simp]: "header_get (header_set h k v) k = v"
  by (simp add: header_get_def header_set_def update_conv')

lemma header_get_set_other [simp]:
  "canonical_key k \<noteq> canonical_key k' \<Longrightarrow> header_get (header_set h k v) k' = header_get h k'"
  by (simp add: header_get_def header_set_def update_conv')

section \<open>Requests and responses\<close>

record http_request =
  rq_Method :: string
  rq_Path :: string
  rq_Header :: header
  rq_Query :: "(string \<times> string list) list"
  rq_Cookies :: "(string \<times> string) list"
  rq_RemoteAddr :: string

definition query_get :: "http_request \<Rightarrow> string \<Rightarrow> string" where
  "query_get r k = (case map_of (rq_Query r) k of Some (v # _) \<Rightarrow> v | _ \<Rightarrow> [])"

datatype body =
    NoBody
  | Raw string
  | Json goval
  | JsonLines "goval list"

record http_response =
  rs_Status :: int
  rs_Header :: header
  rs_Body :: body

definition json_response :: "int \<Rightarrow> goval \<Rightarrow> http_response" where
  "json_response st b =
     \<lparr>rs_Status = st, rs_Header = [(''Content-Type'', [''application/json''])], rs_Body = Json b\<rparr>"

end
