(* ===== verification/Auth_Context.thy ===== *)
theory Auth_Context
  imports Go_Http
begin

text \<open>
  \<open>pkg/auth/identity.go\<close> and \<open>pkg/auth/context.go\<close>: the identity of a caller and the
  request-scoped values the packages stash on a \<open>context.Context\<close>. A context is the record
  of the five keys; \<open>With\<dots>\<close> sets one, \<open>Get\<dots>\<close> reads it with Go's zero value as default.
\<close>

section \<open>Identities\<close>

record identity =
  id_Subject :: string
  id_Email :: string
  id_Name :: string
  id_AuthType :: string
  id_Claims :: gomap
  id_APIKeyID :: string

definition zero_identity :: identity where
  "zero_identity = \<lparr>id_Subject = [], id_Email = [], id_Name = [], id_AuthType = [],
     id_Claims = None, id_APIKeyID = []\<rparr>"

definition Anonymous :: identity where
  "Anonymous = zero_identity\<lparr>id_Subject := ''anonymous'', id_AuthType := ''anonymous''\<rparr>"

section \<open>The context keys\<close>

record ctx =
  keyToken :: "string option"
  keyIdentity :: "identity option"
  keyHeaders :: "header option"
  keyRequestID :: "string option"
  keyRemoteAddr :: "string option"

definition background_ctx :: ctx where
  "background_ctx = \<lparr>keyToken = None, keyIdentity = None, keyHeaders = None,
     keyRequestID = None, keyRemoteAddr = None\<rparr>"

abbreviation or_empty :: "string option \<Rightarrow> string" where
  "or_empty v \<equiv> (case v of None \<Rightarrow> [] | Some s \<Rightarrow> s)"

definition WithToken :: "ctx \<Rightarrow> string \<Rightarrow> ctx" where
  "WithToken c tok = c\<lparr>keyToken := Some tok\<rparr>"

definition GetToken :: "ctx \<Rightarrow> string" where
  "GetToken c = or_empty (keyToken c)"

definition WithIdentity :: "ctx \<Rightarrow> identity option \<Rightarrow> ctx" where
  "WithIdentity c i = c\<lparr>keyIdentity := i\<rparr>"

definition GetIdentity :: "ctx \<Rightarrow> identity option" where
  "GetIdentity c = keyIdentity c"

definition WithRequestID :: "ctx \<Rightarrow> string \<Rightarrow> ctx" where
  "WithRequestID c i = c\<lparr>keyRequestID := Some i\<rparr>"

definition GetRequestID :: "ctx \<Rightarrow> string" where
  "GetRequestID c = or_empty (keyRequestID c)"

definition WithRemoteAddr :: "ctx \<Rightarrow> string \<Rightarrow> ctx" where
  "WithRemoteAddr c a = c\<lparr>keyRemoteAddr := Some a\<rparr>"

definition GetRemoteAddr :: "ctx \<Rightarrow> string" where
  "GetRemoteAddr c = or_empty (keyRemoteAddr c)"

section \<open>Headers on the context\<close>

definition sensitiveHeaders :: "string list" where
  "sensitiveHeaders =
     [''Authorization'', ''Proxy-Authorization'', ''Cookie'', ''Set-Cookie'', ''X-Api-Key'']"

abbreviation redacted :: string where
  "redacted \<equiv> ''[redacted]''"

definition RedactHeaders :: "header option \<Rightarrow> header option" where
  "RedactHeaders h = (case h of
     None \<Rightarrow> None
   | Some es \<Rightarrow> Some (map (\<lambda>(k, vs).
       (k, if List.member sensitiveHeaders (canonical_key k) then [redacted] else vs)) es))"

definition WithHeaders :: "ctx \<Rightarrow> header option \<Rightarrow> ctx" where
  "WithHeaders c h = c\<lparr>keyHeaders := RedactHeaders h\<rparr>"

definition GetHeaders :: "ctx \<Rightarrow> header option" where
  "GetHeaders c = keyHeaders c"

lemmas ctx_defs =
  WithToken_def GetToken_def WithIdentity_def GetIdentity_def WithRequestID_def
  GetRequestID_def WithRemoteAddr_def GetRemoteAddr_def WithHeaders_def GetHeaders_def

text \<open>Each key is read back and no setter disturbs another key.\<close>

lemma ctx_get_set [simp]:
  "GetToken (WithToken c t) = t"
  "GetIdentity (WithIdentity c i) = i"
  "GetRequestID (WithRequestID c r) = r"
  "GetRemoteAddr (WithRemoteAddr c a) = a"
  "GetHeaders (WithHeaders c h) = RedactHeaders h"
  by (simp_all add: ctx_defs)

lemma ctx_frame [simp]:
  "GetToken (WithIdentity c i) = GetToken c" "GetToken (WithRequestID c r) = GetToken c"
  "GetToken (WithRemoteAddr c a) = GetToken c" "GetToken (WithHeaders c h) = GetToken c"
  "GetIdentity (WithToken c t) = GetIdentity c" "GetIdentity (WithRequestID c r) = GetIdentity c"
  "GetIdentity (WithRemoteAddr c a) = GetIdentity c" "GetIdentity (WithHeaders c h) = GetIdentity c"
  "GetHeaders (WithToken c t) = GetHeaders c" "GetHeaders (WithIdentity c i) = GetHeaders c"
  "GetHeaders (WithRequestID c r) = GetHeaders c" "GetHeaders (WithRemoteAddr c a) = GetHeaders c"
  "GetRequestID (WithToken c t) = GetRequestID c" "GetRequestID (WithIdentity c i) = GetRequestID c"
  "GetRequestID (WithRemoteAddr c a) = GetRequestID c" "GetRequestID (WithHeaders c h) = GetRequestID c"
  "GetRemoteAddr (WithToken c t) = GetRemoteAddr c" "GetRemoteAddr (WithIdentity c i) = GetRemoteAddr c"
  "GetRemoteAddr (WithRequestID c r) = GetRemoteAddr c" "GetRemoteAddr (WithHeaders c h) = GetRemoteAddr c"
  by (simp_all add: ctx_defs)

section \<open>No credential reaches the context headers\<close>

lemma RedactHeaders_lookup:
  "map_of (the (RedactHeaders (Some h))) k =
     map_option (\<lambda>vs. if List.member sensitiveHeaders (canonical_key k) then [redacted] else vs)
       (map_of h k)"
  by (simp add: RedactHeaders_def)

lemma RedactHeaders_names:
  "map fst (the (RedactHeaders (Some h))) = map fst h"
  by (simp add: RedactHeaders_def split_beta)

text \<open>
  Two header maps with the same names that differ only in the values of credential-bearing
  headers, under any spelling of the name.
\<close>

definition same_but_credentials :: "header \<Rightarrow> header \<Rightarrow> bool" where
  "same_but_credentials h g \<longleftrightarrow>
     list_all2 (\<lambda>e f. fst e = fst f \<and>
       (List.member sensitiveHeaders (canonical_key (fst e)) \<or> snd e = snd f)) h g"

lemma RedactHeaders_low_eq:
  "same_but_credentials h g \<Longrightarrow> RedactHeaders (Some h) = RedactHeaders (Some g)"
  unfolding same_but_credentials_def
  by (induction rule: list_all2_induct) (auto simp: RedactHeaders_def split: prod.splits)

text \<open>C5: Credential headers never reach the context. Whatever the inbound headers are, the
  headers a tool handler or the audit row reads back from the context do not depend on the
  value of any Authorization, Proxy-Authorization, Cookie, Set-Cookie or X-Api-Key header
  (however its name is spelled): two requests that differ only there give the same context;
  and the names of all headers are kept.\<close>

theorem context_headers_hide_credentials:
  assumes "same_but_credentials h g"
  shows "WithHeaders c (Some h) = WithHeaders c (Some g) \<and>
    map fst (the (GetHeaders (WithHeaders c (Some h)))) = map fst h"
  using RedactHeaders_low_eq [OF assms] RedactHeaders_names [of h]
  by (simp_all add: WithHeaders_def GetHeaders_def)

theorem context_headers_hide_credentials_witness:
  "same_but_credentials [(''x-api-key'', [''k1'']), (''Accept'', [''a''])]
       [(''x-api-key'', [''k2'']), (''Accept'', [''a''])] \<and>
   WithHeaders background_ctx (Some [(''x-api-key'', [''k1'']), (''Accept'', [''a''])]) =
   WithHeaders background_ctx (Some [(''x-api-key'', [''k2'']), (''Accept'', [''a''])])"
proof -
  have h: "same_but_credentials [(''x-api-key'', [''k1'']), (''Accept'', [''a''])]
       [(''x-api-key'', [''k2'']), (''Accept'', [''a''])]"
    by code_simp
  show ?thesis
    using h context_headers_hide_credentials [OF h] by blast
qed

end
