(* ===== verification/Audit_Event.thy ===== *)
theory Audit_Event
  imports Auth_Context
begin

text \<open>
  \<open>pkg/audit/event.go\<close>: the audit event, its payload and notifications, the builder methods
  that fill an event, and the redaction of parameters. A pointer that may be nil is an
  option; \<open>NewEvent\<close> takes the clock reading as an argument.
\<close>

section \<open>Events and payloads\<close>

record notification =
  nt_Timestamp :: gotime
  nt_Method :: string
  nt_Params :: gomap

record payload =
  pl_JSONRPCMethod :: string
  pl_RequestParams :: gomap
  pl_RequestSizeBytes :: int
  pl_RequestTruncated :: bool
  pl_RequestHeaders :: "header option"
  pl_RequestRemoteAddr :: string
  pl_ResponseResult :: gomap
  pl_ResponseError :: gomap
  pl_ResponseSizeBytes :: int
  pl_ResponseTruncated :: bool
  pl_Notifications :: "notification list"
  pl_NotificationsTruncated :: bool
  pl_ReplayedFrom :: string

definition zero_payload :: payload where
  "zero_payload = \<lparr>pl_JSONRPCMethod = [], pl_RequestParams = None, pl_RequestSizeBytes = 0,
     pl_RequestTruncated = False, pl_RequestHeaders = None, pl_RequestRemoteAddr = [],
     pl_ResponseResult = None, pl_ResponseError = None, pl_ResponseSizeBytes = 0,
     pl_ResponseTruncated = False, pl_Notifications = [], pl_NotificationsTruncated = False,
     pl_ReplayedFrom = []\<rparr>"

record event =
  ev_ID :: string
  ev_Timestamp :: gotime
  ev_DurationMS :: int
  ev_RequestID :: string
  ev_SessionID :: string
  ev_UserSubject :: string
  ev_UserEmail :: string
  ev_AuthType :: string
  ev_APIKeyName :: string
  ev_ToolName :: string
  ev_ToolGroup :: string
  ev_Parameters :: gomap
  ev_Success :: bool
  ev_ErrorMessage :: string
  ev_ErrorCategory :: string
  ev_RequestChars :: int
  ev_ResponseChars :: int
  ev_ContentBlocks :: int
  ev_Transport :: string
  ev_Source :: string
  ev_RemoteAddr :: string
  ev_UserAgent :: string
  ev_Payload :: "payload option"

definition zero_event :: event where
  "zero_event = \<lparr>ev_ID = [], ev_Timestamp = 0, ev_DurationMS = 0, ev_RequestID = [],
     ev_SessionID = [], ev_UserSubject = [], ev_UserEmail = [], ev_AuthType = [],
     ev_APIKeyName = [], ev_ToolName = [], ev_ToolGroup = [], ev_Parameters = None,
     ev_Success = False, ev_ErrorMessage = [], ev_ErrorCategory = [], ev_RequestChars = 0,
     ev_ResponseChars = 0, ev_ContentBlocks = 0, ev_Transport = [], ev_Source = [],
     ev_RemoteAddr = [], ev_UserAgent = [], ev_Payload = None\<rparr>"

section \<open>Builders\<close>

definition NewEvent :: "gotime \<Rightarrow> string \<Rightarrow> event" where
  "NewEvent now toolName = zero_event\<lparr>ev_Timestamp := now, ev_ToolName := toolName,
     ev_Transport := ''http'', ev_Source := ''mcp''\<rparr>"

definition WithUser :: "identity option \<Rightarrow> event \<Rightarrow> event" where
  "WithUser i e = (case i of
     None \<Rightarrow> e
   | Some i \<Rightarrow>
       (let e = e\<lparr>ev_UserSubject := id_Subject i, ev_UserEmail := id_Email i,
                  ev_AuthType := id_AuthType i\<rparr>
        in if id_AuthType i = ''apikey'' then e\<lparr>ev_APIKeyName := id_APIKeyID i\<rparr> else e))"

definition EvRequestID :: "string \<Rightarrow> event \<Rightarrow> event" where
  "EvRequestID i e = e\<lparr>ev_RequestID := i\<rparr>"

definition WithSessionID :: "string \<Rightarrow> event \<Rightarrow> event" where
  "WithSessionID i e = e\<lparr>ev_SessionID := i\<rparr>"

definition WithToolGroup :: "string \<Rightarrow> event \<Rightarrow> event" where
  "WithToolGroup g e = e\<lparr>ev_ToolGroup := g\<rparr>"

definition WithSource :: "string \<Rightarrow> event \<Rightarrow> event" where
  "WithSource s e = e\<lparr>ev_Source := s\<rparr>"

definition WithTransport :: "string \<Rightarrow> event \<Rightarrow> event" where
  "WithTransport t e = e\<lparr>ev_Transport := t\<rparr>"

definition EvRemoteAddr :: "string \<Rightarrow> event \<Rightarrow> event" where
  "EvRemoteAddr s e = e\<lparr>ev_RemoteAddr := s\<rparr>"

definition WithUserAgent :: "string \<Rightarrow> event \<Rightarrow> event" where
  "WithUserAgent s e = e\<lparr>ev_UserAgent := s\<rparr>"

definition WithParameters :: "gomap \<Rightarrow> event \<Rightarrow> event" where
  "WithParameters p e = e\<lparr>ev_Parameters := p\<rparr>"

definition WithRequestSize :: "int \<Rightarrow> event \<Rightarrow> event" where
  "WithRequestSize n e = e\<lparr>ev_RequestChars := n\<rparr>"

definition WithResponseSize :: "int \<Rightarrow> int \<Rightarrow> event \<Rightarrow> event" where
  "WithResponseSize chars blocks e = e\<lparr>ev_ResponseChars := chars, ev_ContentBlocks := blocks\<rparr>"

definition WithResult :: "bool \<Rightarrow> string \<Rightarrow> int \<Rightarrow> event \<Rightarrow> event" where
  "WithResult success errMsg durMS e =
     e\<lparr>ev_Success := success, ev_ErrorMessage := errMsg, ev_DurationMS := durMS\<rparr>"

definition WithPayload :: "payload option \<Rightarrow> event \<Rightarrow> event" where
  "WithPayload p e = e\<lparr>ev_Payload := p\<rparr>"

lemmas event_builder_defs =
  EvRequestID_def WithSessionID_def WithToolGroup_def WithSource_def
  WithTransport_def EvRemoteAddr_def WithUserAgent_def WithParameters_def WithRequestSize_def
  WithResponseSize_def WithResult_def WithPayload_def

section \<open>Redaction of parameters\<close>

definition matchesRedactKey :: "string \<Rightarrow> string list \<Rightarrow> bool" where
  "matchesRedactKey key redactKeys \<longleftrightarrow>
     (let lk = to_lower key in list_ex (\<lambda>rk. rk \<noteq> [] \<and> contains lk (to_lower rk)) redactKeys)"

text \<open>
  The type switch both loops run on a value: a nested map is sanitised in turn (a nil one
  becomes an empty map, since \<open>SanitizeParameters\<close> is entered with a non-empty key list), a
  slice element by element, anything else is kept.
\<close>

fun sanitizeVal :: "string list \<Rightarrow> goval \<Rightarrow> goval" where
  "sanitizeVal ks (VMap m) =
     VMap (map (\<lambda>(k, v). (k, if matchesRedactKey k ks then VStr redacted else sanitizeVal ks v)) m)"
| "sanitizeVal ks VNilMap = VMap []"
| "sanitizeVal ks (VSlice s) = VSlice (map (sanitizeVal ks) s)"
| "sanitizeVal ks v = v"

definition sanitizeSlice :: "goval list \<Rightarrow> string list \<Rightarrow> goval list" where
  "sanitizeSlice s redactKeys = map (sanitizeVal redactKeys) s"

definition SanitizeParameters :: "goval \<Rightarrow> string list \<Rightarrow> gomap" where
  "SanitizeParameters v redactKeys = (case v of
     VNil \<Rightarrow> None
   | VMap m \<Rightarrow>
       if redactKeys = [] then Some m
       else Some (map (\<lambda>(k, x). (k, if matchesRedactKey k redactKeys then VStr redacted
                                     else sanitizeVal redactKeys x)) m)
   | VNilMap \<Rightarrow> if redactKeys = [] then None else Some []
   | _ \<Rightarrow> Some [(''_value'', v)])"

subsection \<open>Basic facts\<close>

lemma matchesRedactKey_Nil [simp]: "\<not> matchesRedactKey k []"
  by (simp add: matchesRedactKey_def)

lemma matchesRedactKey_case [simp]: "matchesRedactKey (to_lower k) ks = matchesRedactKey k ks"
  by (simp add: matchesRedactKey_def)

lemma SanitizeParameters_map:
  "ks \<noteq> [] \<Longrightarrow> box_map (SanitizeParameters (VMap m) ks) = sanitizeVal ks (VMap m)"
  by (simp add: SanitizeParameters_def)

lemma SanitizeParameters_gomap:
  "ks \<noteq> [] \<Longrightarrow> box_map (SanitizeParameters (box_map m) ks) = sanitizeVal ks (box_map m)"
  by (cases m) (simp_all add: SanitizeParameters_def)

lemma SanitizeParameters_fast_path: "SanitizeParameters (box_map m) [] = m"
  by (cases m) (simp_all add: SanitizeParameters_def)

lemma sanitizeVal_idem: "sanitizeVal ks (sanitizeVal ks v) = sanitizeVal ks v"
  by (induction ks v rule: sanitizeVal.induct) auto

lemma sanitizeVal_wf: "wf_val v \<Longrightarrow> wf_val (sanitizeVal ks v)"
  by (induction ks v rule: sanitizeVal.induct) (auto simp: split_beta comp_def)

subsection \<open>What a reader of the sanitised value sees\<close>

definition visible :: "string list \<Rightarrow> step list \<Rightarrow> bool" where
  "visible ks p \<longleftrightarrow> list_all (\<lambda>s. case s of Key k \<Rightarrow> \<not> matchesRedactKey k ks | Idx _ \<Rightarrow> True) p"

lemma visible_simps [simp]:
  "visible ks []" "visible ks (Idx i # p) = visible ks p"
  "visible ks (Key k # p) \<longleftrightarrow> \<not> matchesRedactKey k ks \<and> visible ks p"
  by (simp_all add: visible_def)

lemma walk_sanitizeVal:
  "visible ks p \<Longrightarrow> walk (sanitizeVal ks v) p = map_option (sanitizeVal ks) (walk v p)"
proof (induction v p rule: walk.induct)
  case (2 m k p)
  then show ?case by (auto split: option.splits)
qed auto

lemma walk_sanitizeVal_redacted:
  assumes "visible ks p" and "matchesRedactKey k ks"
  shows "walk (sanitizeVal ks v) (p @ Key k # q) =
    (if walk v (p @ [Key k]) = None \<or> q \<noteq> [] then None else Some (VStr redacted))"
proof (cases "walk v p")
  case None
  with assms show ?thesis by (simp add: walk_append walk_sanitizeVal)
next
  case (Some w)
  show ?thesis
  proof (cases "\<exists>m. w = VMap m")
    case True
    then obtain m where "w = VMap m" by blast
    with assms Some show ?thesis
      by (cases q) (auto simp: walk_append walk_sanitizeVal split: option.splits)
  next
    case False
    with assms Some show ?thesis
      by (cases w) (auto simp: walk_append walk_sanitizeVal)
  qed
qed

subsection \<open>Non-interference\<close>

text \<open>Two values that differ only below keys the redaction list matches.\<close>

inductive low_eq :: "string list \<Rightarrow> goval \<Rightarrow> goval \<Rightarrow> bool" for ks where
  same: "low_eq ks v v"
| maps: "list_all2 (\<lambda>e f. fst e = fst f \<and>
     (matchesRedactKey (fst e) ks \<or> low_eq ks (snd e) (snd f))) m n \<Longrightarrow>
   low_eq ks (VMap m) (VMap n)"
| slices: "list_all2 (low_eq ks) s t \<Longrightarrow> low_eq ks (VSlice s) (VSlice t)"

lemma low_eq_sanitizeVal: "low_eq ks v w \<Longrightarrow> sanitizeVal ks v = sanitizeVal ks w"
proof (induction rule: low_eq.induct)
  case (same v)
  show ?case ..
next
  case (maps m n)
  then have "map (\<lambda>(k, v). (k, if matchesRedactKey k ks then VStr redacted else sanitizeVal ks v)) m =
     map (\<lambda>(k, v). (k, if matchesRedactKey k ks then VStr redacted else sanitizeVal ks v)) n"
    by (induction rule: list_all2_induct) (auto split: prod.splits)
  then show ?case by simp
next
  case (slices s t)
  then have "map (sanitizeVal ks) s = map (sanitizeVal ks) t"
    by (induction rule: list_all2_induct) auto
  then show ?case by simp
qed

text \<open>C1: Parameter redaction leaks nothing. If two argument maps differ only in values
  stored below keys that the redaction list matches (case-insensitive substring, at any
  depth, inside arrays too), the sanitised parameters written to the audit log are the same:
  no byte of a redacted value can influence them.\<close>

theorem sanitize_noninterference:
  assumes "low_eq redactKeys (VMap m) (VMap n)" and "redactKeys \<noteq> []"
  shows "SanitizeParameters (VMap m) redactKeys = SanitizeParameters (VMap n) redactKeys"
  using low_eq_sanitizeVal [OF assms(1)] assms(2)
  by (simp add: SanitizeParameters_def)

theorem sanitize_noninterference_witness:
  "SanitizeParameters (VMap [(''user'', VMap [(''API_Token'', VStr ''s3cret'')]), (''n'', VInt 1)]) [''token'']
   = SanitizeParameters (VMap [(''user'', VMap [(''API_Token'', VInt 42)]), (''n'', VInt 1)]) [''token'']
   \<and> SanitizeParameters (VMap [(''user'', VMap [(''API_Token'', VInt 42)]), (''n'', VInt 1)]) [''token'']
   = Some [(''user'', VMap [(''API_Token'', VStr redacted)]), (''n'', VInt 1)]"
proof -
  have k: "matchesRedactKey ''API_Token'' [''token'']"
    by code_simp
  have "low_eq [''token''] (VMap [(''API_Token'', VStr ''s3cret'')]) (VMap [(''API_Token'', VInt 42)])"
    using k by (intro low_eq.maps) simp
  then have l: "low_eq [''token'']
      (VMap [(''user'', VMap [(''API_Token'', VStr ''s3cret'')]), (''n'', VInt 1)])
      (VMap [(''user'', VMap [(''API_Token'', VInt 42)]), (''n'', VInt 1)])"
    by (intro low_eq.maps) (simp add: low_eq.same)
  have "SanitizeParameters (VMap [(''user'', VMap [(''API_Token'', VInt 42)]), (''n'', VInt 1)]) [''token'']
   = Some [(''user'', VMap [(''API_Token'', VStr redacted)]), (''n'', VInt 1)]"
    by code_simp
  with sanitize_noninterference [OF l] show ?thesis by simp
qed

text \<open>C2: What redaction keeps and what it replaces. Reading the sanitised parameters at a
  position none of whose keys matches the redaction list gives the sanitised original value
  there (absent iff absent), and reading it at the first matching key gives the placeholder
  exactly when the original had that key, and nothing below it.\<close>

theorem sanitize_positions:
  assumes "redactKeys \<noteq> []" and "visible redactKeys p" and "matchesRedactKey k redactKeys"
  shows "walk (box_map (SanitizeParameters (VMap m) redactKeys)) p =
      map_option (sanitizeVal redactKeys) (walk (VMap m) p) \<and>
    walk (box_map (SanitizeParameters (VMap m) redactKeys)) (p @ Key k # q) =
      (if walk (VMap m) (p @ [Key k]) = None \<or> q \<noteq> [] then None else Some (VStr redacted))"
  using walk_sanitizeVal [OF assms(2)] walk_sanitizeVal_redacted [OF assms(2,3)]
    SanitizeParameters_map [OF assms(1), of m]
  by (simp del: sanitizeVal.simps)

theorem sanitize_positions_witness:
  "walk (box_map (SanitizeParameters
      (VMap [(''a'', VSlice [VMap [(''PassWord'', VStr ''x'')]])]) [''password'']))
      ([Key ''a'', Idx 0] @ Key ''PassWord'' # []) = Some (VStr redacted)"
proof -
  have v: "visible [''password''] [Key ''a'', Idx 0]" and k: "matchesRedactKey ''PassWord'' [''password'']"
    by code_simp+
  have "walk (VMap [(''a'', VSlice [VMap [(''PassWord'', VStr ''x'')]])])
     ([Key ''a'', Idx 0] @ [Key ''PassWord'']) \<noteq> None"
    by simp
  with sanitize_positions [OF _ v k, of "[(''a'', VSlice [VMap [(''PassWord'', VStr ''x'')]])]" "[]"]
  show ?thesis by simp
qed

end
