(* ===== verification/Audit_Filter.thy ===== *)
theory Audit_Filter
  imports Audit_Event
begin

text \<open>
  The filter types of \<open>pkg/audit/logger.go\<close> and the JSON path filters of
  \<open>pkg/audit/jsonfilter.go\<close>. \<open>strconv.ParseFloat\<close> is the parameter \<open>pf\<close> and
  \<open>json.Marshal\<close> the parameter \<open>marshal\<close> (\<open>None\<close> when it returns an error).
\<close>

section \<open>Filter types\<close>

abbreviation MaxQueryLimit :: int where "MaxQueryLimit \<equiv> 1000"

record json_path_filter =
  jf_Source :: string
  jf_Path :: "string list"
  jf_Value :: string

record query_filter =
  qf_From :: gotime
  qf_To :: gotime
  qf_ToolName :: string
  qf_UserID :: string
  qf_SessionID :: string
  qf_EventID :: string
  qf_Success :: "bool option"
  qf_Search :: string
  qf_Limit :: int
  qf_Offset :: int
  qf_OrderDesc :: bool
  qf_JSONFilters :: "json_path_filter list"
  qf_HasKeys :: "string list"

definition zero_filter :: query_filter where
  "zero_filter = \<lparr>qf_From = 0, qf_To = 0, qf_ToolName = [], qf_UserID = [], qf_SessionID = [],
     qf_EventID = [], qf_Success = None, qf_Search = [], qf_Limit = 0, qf_Offset = 0,
     qf_OrderDesc = False, qf_JSONFilters = [], qf_HasKeys = []\<rparr>"

type_synonym float_parser = "string \<Rightarrow> f64 option"
type_synonym marshaler = "goval \<Rightarrow> string option"

section \<open>Allowlists\<close>

definition AllowedHasKeys :: "string list" where
  "AllowedHasKeys = [''request_params'', ''request_headers'', ''response_result'',
     ''response_error'', ''notifications'', ''replayed_from'']"

definition AllowedJSONSources :: "string list" where
  "AllowedJSONSources = [''param'', ''response'', ''header'']"

definition AllowedHasKeysList :: "string list" where
  "AllowedHasKeysList = [] @ AllowedHasKeys"

definition AllowedJSONSourcesList :: "string list" where
  "AllowedJSONSourcesList = [] @ AllowedJSONSources"

definition IsAllowedHasKey :: "string \<Rightarrow> bool" where
  "IsAllowedHasKey key \<longleftrightarrow>
     key = ''request_params'' \<or> key = ''request_headers'' \<or> key = ''response_result'' \<or>
     key = ''response_error'' \<or> key = ''notifications'' \<or> key = ''replayed_from''"

definition IsAllowedJSONSource :: "string \<Rightarrow> bool" where
  "IsAllowedJSONSource src \<longleftrightarrow> src = ''param'' \<or> src = ''response'' \<or> src = ''header''"

definition SplitJSONPath :: "string \<Rightarrow> string list" where
  "SplitJSONPath s = (if s = [] then [] else split_on CHR ''.'' s)"

section \<open>Type detection of filter values\<close>

definition ParseJSONFilterValue :: "float_parser \<Rightarrow> string \<Rightarrow> goval" where
  "ParseJSONFilterValue pf s =
     (if s = ''true'' then VBool True
      else if s = ''false'' then VBool False
      else if length s \<ge> 2 \<and> s ! 0 = CHR 0x22 \<and> s ! (length s - 1) = CHR 0x22
        then VStr (take (length s - 2) (drop 1 s))
      else case parse_int64 s of
             Some i \<Rightarrow> VInt i
           | None \<Rightarrow> (case pf s of Some f \<Rightarrow> VFloat f | None \<Rightarrow> VStr s))"

section \<open>Containment documents and path matching\<close>

definition JSONFilterToContainment :: "string list \<Rightarrow> goval \<Rightarrow> goval" where
  "JSONFilterToContainment path value = foldr (\<lambda>seg cur. VMap [(seg, cur)]) path value"

definition numericEq :: "f64 \<Rightarrow> goval \<Rightarrow> bool" where
  "numericEq a b = (case b of
     VFloat bv \<Rightarrow> f64_eq a bv
   | VInt bv \<Rightarrow> f64_eq a (float_of_int bv)
   | _ \<Rightarrow> False)"

definition jsonEqual :: "marshaler \<Rightarrow> goval \<Rightarrow> goval \<Rightarrow> bool" where
  "jsonEqual marshal a b =
     (if a = VNil \<or> b = VNil then a = b
      else case a of
        VBool av \<Rightarrow> (case b of VBool bv \<Rightarrow> av = bv | _ \<Rightarrow> False)
      | VStr av \<Rightarrow> (case b of VStr bv \<Rightarrow> av = bv | _ \<Rightarrow> False)
      | VFloat av \<Rightarrow> numericEq av b
      | VInt av \<Rightarrow> numericEq (float_of_int av) b
      | _ \<Rightarrow> or_empty (marshal a) = or_empty (marshal b))"

text \<open>The loop of \<open>MatchJSONPath\<close>: \<open>None\<close> is an early \<open>return false\<close>.\<close>

fun match_walk :: "goval \<Rightarrow> string list \<Rightarrow> goval option" where
  "match_walk cur [] = Some cur"
| "match_walk cur (seg # path) = (case cur of
     VMap nxt \<Rightarrow> (case map_of nxt seg of None \<Rightarrow> None | Some v \<Rightarrow> match_walk v path)
   | _ \<Rightarrow> None)"

definition MatchJSONPath :: "marshaler \<Rightarrow> gomap \<Rightarrow> string list \<Rightarrow> goval \<Rightarrow> bool" where
  "MatchJSONPath marshal m path want =
     (if path = [] then jsonEqual marshal (box_map m) want
      else case match_walk (box_map m) path of
             None \<Rightarrow> False
           | Some v \<Rightarrow> jsonEqual marshal v want)"

section \<open>Facts\<close>

lemma match_walk_eq_walk: "match_walk v path = walk v (map Key path)"
  by (induction v path rule: match_walk.induct) (auto split: goval.splits option.splits)

lemma walk_containment [simp]:
  "walk (JSONFilterToContainment path v) (map Key path) = Some v"
  by (induction path) (simp_all add: JSONFilterToContainment_def)

lemma containment_Nil [simp]: "JSONFilterToContainment [] v = v"
  by (simp add: JSONFilterToContainment_def)

lemma containment_Cons [simp]:
  "JSONFilterToContainment (seg # path) v = VMap [(seg, JSONFilterToContainment path v)]"
  by (simp add: JSONFilterToContainment_def)

text \<open>The scalars a filter value can be, and the numbers both backends read alike.\<close>

fun filter_scalar :: "goval \<Rightarrow> bool" where
  "filter_scalar (VBool _) = True"
| "filter_scalar (VInt i) = (\<bar>i\<bar> < 2 ^ 53)"
| "filter_scalar (VFloat (Fin _)) = True"
| "filter_scalar (VStr _) = True"
| "filter_scalar _ = False"

lemma jsonEqual_refl: "filter_scalar v \<Longrightarrow> jsonEqual marshal v v"
  by (cases v rule: filter_scalar.cases) (auto simp: jsonEqual_def numericEq_def float_of_int_exact)

lemma IsAllowedHasKey_list: "IsAllowedHasKey k \<longleftrightarrow> k \<in> set AllowedHasKeysList"
  by (auto simp: IsAllowedHasKey_def AllowedHasKeysList_def AllowedHasKeys_def)

lemma IsAllowedJSONSource_list: "IsAllowedJSONSource s \<longleftrightarrow> s \<in> set AllowedJSONSourcesList"
  by (auto simp: IsAllowedJSONSource_def AllowedJSONSourcesList_def AllowedJSONSources_def)

lemma SplitJSONPath_join: "join ''.'' (SplitJSONPath s) = s"
  by (simp add: SplitJSONPath_def join_split_on)

lemma SplitJSONPath_of_join:
  assumes "path \<noteq> []" and "\<And>seg. seg \<in> set path \<Longrightarrow> seg \<noteq> [] \<and> CHR ''.'' \<notin> set seg"
  shows "SplitJSONPath (join ''.'' path) = path"
proof -
  have "join ''.'' path \<noteq> []"
    using assms by (cases "(''.'', path)" rule: join.cases) auto
  then show ?thesis
    using assms by (simp add: SplitJSONPath_def split_on_join)
qed

text \<open>A string that starts with a digit or a sign is none of the keywords or quoted forms.\<close>

lemma show_int_no_quote: "show_int i ! 0 \<noteq> CHR 0x22"
proof (cases "i < 0")
  case True
  then show ?thesis by (simp add: show_int_def)
next
  case False
  obtain d cs where d: "d < 10" "show_nat (nat i) = digit_char d # cs"
    using show_nat_hd by blast
  then have "(of_char (digit_char d) :: nat) = 48 + d" by (simp add: digit_char_def)
  then have "digit_char d \<noteq> CHR 0x22" by auto
  with False d show ?thesis by (simp add: show_int_def)
qed

lemma show_int_not_bool:
  "show_int i \<noteq> ''true''" "show_int i \<noteq> ''false''"
proof -
  have f: "digit_val CHR ''t'' = None" "digit_val CHR ''f'' = None" by code_simp+
  have "show_nat n \<noteq> CHR ''t'' # cs" "show_nat n \<noteq> CHR ''f'' # cs" for n cs
    using parse_digits_show_nat [of n] f by auto
  then show "show_int i \<noteq> ''true''" "show_int i \<noteq> ''false''"
    by (auto simp: show_int_def)
qed

text \<open>Type detection of filter values. The decimal form of every 64-bit integer is read
  back as that integer, a value in double quotes is always the quoted string (also when it
  reads like a number or a boolean), and \<open>true\<close> and \<open>false\<close> are the booleans, whatever the
  float parser accepts.\<close>

theorem filter_value_detection:
  assumes "min_int64 \<le> i" and "i \<le> max_int64"
  shows "ParseJSONFilterValue pf (show_int i) = VInt i \<and>
    ParseJSONFilterValue pf (CHR 0x22 # s @ [CHR 0x22]) = VStr s \<and>
    ParseJSONFilterValue pf ''true'' = VBool True \<and>
    ParseJSONFilterValue pf ''false'' = VBool False"
  using parse_int64_show_int [OF assms] show_int_not_bool [of i] show_int_no_quote [of i]
  by (simp add: ParseJSONFilterValue_def nth_append)

theorem filter_value_detection_witness:
  "ParseJSONFilterValue (\<lambda>_. None) (show_int (-200)) = VInt (-200) \<and>
   ParseJSONFilterValue (\<lambda>_. None) (CHR 0x22 # ''200'' @ [CHR 0x22]) = VStr ''200''"
  using filter_value_detection [of "-200" "\<lambda>_. None" "''200''"] by simp

text \<open>Path filters and containment documents agree. The document built for a path and a
  value has that value at that path, so it satisfies the very filter it was built from; and
  a document satisfies a filter exactly when the value found by following the path through
  nested maps is JSON-equal to the wanted one.\<close>

theorem containment_roundtrip:
  assumes "filter_scalar want" and "path \<noteq> []"
    and "JSONFilterToContainment path want = VMap doc"
  shows "MatchJSONPath marshal (Some doc) path want \<and>
    (MatchJSONPath marshal m path want \<longleftrightarrow>
       (\<exists>v. walk (box_map m) (map Key path) = Some v \<and> jsonEqual marshal v want))"
proof -
  have "walk (VMap doc) (map Key path) = Some want"
    using walk_containment [of path want] assms(3) by simp
  with assms show ?thesis
    by (auto simp: MatchJSONPath_def match_walk_eq_walk jsonEqual_refl split: option.splits)
qed

theorem containment_roundtrip_witness:
  "MatchJSONPath (\<lambda>_. None) (Some [(''user'', VMap [(''id'', VStr ''alice'')])])
     [''user'', ''id''] (VStr ''alice'')"
  using containment_roundtrip [of "VStr ''alice''" "[''user'', ''id'']"
      "[(''user'', VMap [(''id'', VStr ''alice'')])]" "\<lambda>_. None" None]
  by simp

end
