(* ===== verification/Audit_Subscribe.thy ===== *)
theory Audit_Subscribe
  imports Audit_Filter
begin

text \<open>
  Live-tail subscribers. \<open>pkg/audit/async.go\<close> and \<open>pkg/audit/memory.go\<close> each have a
  subscriber type with the same two methods and a registry of pointers to them. A subscriber
  is a buffered channel and a closed flag; the registry and the subscribers it points to are
  a \<open>hub\<close>: addresses, a heap, and the next free address. Sending on or closing a closed
  channel panics in Go; an operation that would do so returns \<open>None\<close>. The contract both
  method pairs satisfy is the locale \<open>subscriber_ops\<close>, interpreted on each of them.
\<close>

section \<open>Channels\<close>

record chan =
  ch_buf :: "event list"
  ch_cap :: nat
  ch_closed :: bool

text \<open>The send case of a \<open>select\<close> with a \<open>default\<close>: never blocks, panics when closed.\<close>

definition chan_try_send :: "chan \<Rightarrow> event \<Rightarrow> chan option" where
  "chan_try_send ch ev =
     (if ch_closed ch then None
      else if length (ch_buf ch) < ch_cap ch then Some (ch\<lparr>ch_buf := ch_buf ch @ [ev]\<rparr>)
      else Some ch)"

definition chan_close :: "chan \<Rightarrow> chan option" where
  "chan_close ch = (if ch_closed ch then None else Some (ch\<lparr>ch_closed := True\<rparr>))"

section \<open>Subscribers\<close>

record subscriber =
  sb_ch :: chan
  sb_closed :: bool

definition subscriber_send :: "subscriber \<Rightarrow> event \<Rightarrow> subscriber option" where
  "subscriber_send s ev =
     (if sb_closed s then Some s
      else map_option (\<lambda>ch. s\<lparr>sb_ch := ch\<rparr>) (chan_try_send (sb_ch s) ev))"

definition subscriber_closeOnce :: "subscriber \<Rightarrow> subscriber option" where
  "subscriber_closeOnce s =
     (if sb_closed s then Some s
      else map_option (\<lambda>ch. s\<lparr>sb_closed := True, sb_ch := ch\<rparr>) (chan_close (sb_ch s)))"

definition memSubscriber_send :: "subscriber \<Rightarrow> event \<Rightarrow> subscriber option" where
  "memSubscriber_send s ev =
     (if sb_closed s then Some s
      else map_option (\<lambda>ch. s\<lparr>sb_ch := ch\<rparr>) (chan_try_send (sb_ch s) ev))"

definition memSubscriber_closeOnce :: "subscriber \<Rightarrow> subscriber option" where
  "memSubscriber_closeOnce s =
     (if sb_closed s then Some s
      else map_option (\<lambda>ch. s\<lparr>sb_closed := True, sb_ch := ch\<rparr>) (chan_close (sb_ch s)))"

section \<open>The registry\<close>

record hub =
  hb_subs :: "nat list"
  hb_mem :: "nat \<rightharpoonup> subscriber"
  hb_next :: nat

definition empty_hub :: hub where
  "empty_hub = \<lparr>hb_subs = [], hb_mem = Map.empty, hb_next = 0\<rparr>"

text \<open>\<open>Subscribe\<close>: allocate a subscriber with a buffer of \<open>buf\<close> (64 when not positive) and
  register it; the address stands for the returned channel and the cancel function.\<close>

definition hub_subscribe :: "int \<Rightarrow> hub \<Rightarrow> nat \<times> hub" where
  "hub_subscribe buf h =
     (let cap = (if buf \<le> 0 then 64 else nat buf);
          s = \<lparr>sb_ch = \<lparr>ch_buf = [], ch_cap = cap, ch_closed = False\<rparr>, sb_closed = False\<rparr>;
          a = hb_next h
      in (a, h\<lparr>hb_subs := hb_subs h @ [a], hb_mem := (hb_mem h)(a \<mapsto> s), hb_next := Suc a\<rparr>))"

text \<open>The two halves of \<open>cancel\<close>: drop the registry entry, then close the channel once.\<close>

definition hub_unregister :: "nat \<Rightarrow> hub \<Rightarrow> hub" where
  "hub_unregister a h = h\<lparr>hb_subs := remove1 a (hb_subs h)\<rparr>"

definition hub_update :: "(subscriber \<Rightarrow> subscriber option) \<Rightarrow> nat \<Rightarrow> hub \<Rightarrow> hub option" where
  "hub_update f a h = (case hb_mem h a of
     None \<Rightarrow> None
   | Some s \<Rightarrow> map_option (\<lambda>s'. h\<lparr>hb_mem := (hb_mem h)(a \<mapsto> s')\<rparr>) (f s))"

definition hub_cancel :: "(subscriber \<Rightarrow> subscriber option) \<Rightarrow> nat \<Rightarrow> hub \<Rightarrow> hub option" where
  "hub_cancel closeOnce a h = hub_update closeOnce a (hub_unregister a h)"

fun send_all ::
  "(subscriber \<Rightarrow> event \<Rightarrow> subscriber option) \<Rightarrow> nat list \<Rightarrow> event \<Rightarrow> hub \<Rightarrow> hub option" where
  "send_all send [] ev h = Some h"
| "send_all send (a # as) ev h =
     (case hub_update (\<lambda>s. send s ev) a h of
        None \<Rightarrow> None
      | Some h' \<Rightarrow> send_all send as ev h')"

definition hub_broadcast ::
  "(subscriber \<Rightarrow> event \<Rightarrow> subscriber option) \<Rightarrow> event \<Rightarrow> hub \<Rightarrow> hub option" where
  "hub_broadcast send ev h = send_all send (hb_subs h) ev h"

section \<open>The contract\<close>

definition sub_ok :: "subscriber \<Rightarrow> bool" where
  "sub_ok s \<longleftrightarrow> sb_closed s = ch_closed (sb_ch s) \<and> length (ch_buf (sb_ch s)) \<le> ch_cap (sb_ch s)"

definition hub_ok :: "hub \<Rightarrow> bool" where
  "hub_ok h \<longleftrightarrow> distinct (hb_subs h) \<and> set (hb_subs h) \<subseteq> dom (hb_mem h) \<and>
     (\<forall>a s. hb_mem h a = Some s \<longrightarrow> a < hb_next h \<and> sub_ok s \<and> (a \<in> set (hb_subs h) \<longrightarrow> \<not> sb_closed s))"

lemma hub_okD:
  "hub_ok h \<Longrightarrow> hb_mem h a = Some s \<Longrightarrow> sub_ok s"
  "hub_ok h \<Longrightarrow> a \<in> set (hb_subs h) \<Longrightarrow> \<exists>s. hb_mem h a = Some s \<and> \<not> sb_closed s"
  by (auto simp: hub_ok_def)

lemma empty_hub_ok: "hub_ok empty_hub"
  by (simp add: hub_ok_def empty_hub_def)

lemma hub_subscribe_ok: "hub_ok h \<Longrightarrow> hub_ok (snd (hub_subscribe buf h))"
  by (fastforce simp: hub_ok_def hub_subscribe_def Let_def sub_ok_def)

lemma hub_unregister_ok: "hub_ok h \<Longrightarrow> hub_ok (hub_unregister a h)"
  unfolding hub_ok_def hub_unregister_def using set_remove1_subset [of a "hb_subs h"] by auto

locale subscriber_ops =
  fixes send :: "subscriber \<Rightarrow> event \<Rightarrow> subscriber option"
    and closeOnce :: "subscriber \<Rightarrow> subscriber option"
  assumes send_closed: "sb_closed s \<Longrightarrow> send s ev = Some s"
    and send_open: "sub_ok s \<Longrightarrow> \<not> sb_closed s \<Longrightarrow>
      send s ev = Some (if length (ch_buf (sb_ch s)) < ch_cap (sb_ch s)
        then s\<lparr>sb_ch := (sb_ch s)\<lparr>ch_buf := ch_buf (sb_ch s) @ [ev]\<rparr>\<rparr> else s)"
    and close_closed: "sb_closed s \<Longrightarrow> closeOnce s = Some s"
    and close_open: "sub_ok s \<Longrightarrow> \<not> sb_closed s \<Longrightarrow>
      closeOnce s = Some (s\<lparr>sb_closed := True, sb_ch := (sb_ch s)\<lparr>ch_closed := True\<rparr>\<rparr>)"
begin

text \<open>Neither method panics on a consistent subscriber, and both keep it consistent.\<close>

lemma send_total:
  assumes "sub_ok s"
  obtains s' where "send s ev = Some s'" and "sub_ok s'" and "sb_closed s' = sb_closed s"
    and "ch_buf (sb_ch s') = ch_buf (sb_ch s) \<or> ch_buf (sb_ch s') = ch_buf (sb_ch s) @ [ev]"
proof (cases "sb_closed s \<or> length (ch_buf (sb_ch s)) \<ge> ch_cap (sb_ch s)")
  case True
  with assms have "send s ev = Some s"
    by (cases "sb_closed s") (simp_all add: send_closed send_open)
  with assms show thesis by (intro that [of s]) simp_all
next
  case False
  let ?s = "s\<lparr>sb_ch := (sb_ch s)\<lparr>ch_buf := ch_buf (sb_ch s) @ [ev]\<rparr>\<rparr>"
  from False assms have "send s ev = Some ?s" by (simp add: send_open)
  with False assms show thesis by (intro that [of ?s]) (simp_all add: sub_ok_def)
qed

lemma close_total:
  assumes "sub_ok s"
  obtains s' where "closeOnce s = Some s'" and "sub_ok s'" and "sb_closed s'"
    and "ch_buf (sb_ch s') = ch_buf (sb_ch s)"
proof (cases "sb_closed s")
  case True
  with assms show thesis by (intro that [of s]) (simp_all add: close_closed)
next
  case False
  let ?s = "s\<lparr>sb_closed := True, sb_ch := (sb_ch s)\<lparr>ch_closed := True\<rparr>\<rparr>"
  from False assms have "closeOnce s = Some ?s" by (simp add: close_open)
  with False assms show thesis by (intro that [of ?s]) (simp_all add: sub_ok_def)
qed

lemma close_idem: "sub_ok s \<Longrightarrow> Option.bind (closeOnce s) closeOnce = closeOnce s"
  by (cases "sb_closed s") (auto simp: close_closed close_open)

lemma hub_send_ok:
  assumes "hub_ok h" and "a \<in> dom (hb_mem h)"
  obtains h' where "hub_update (\<lambda>s. send s ev) a h = Some h'" and "hub_ok h'"
    and "hb_subs h' = hb_subs h" and "dom (hb_mem h') = dom (hb_mem h)"
proof -
  from assms(2) obtain s where s: "hb_mem h a = Some s" by blast
  with assms(1) have "sub_ok s" by (auto dest: hub_okD)
  then obtain s' where "send s ev = Some s'" "sub_ok s'" "sb_closed s' = sb_closed s"
    by (rule send_total)
  with s assms show thesis
    by (intro that [of "h\<lparr>hb_mem := (hb_mem h)(a \<mapsto> s')\<rparr>"])
       (auto simp: hub_update_def hub_ok_def)
qed

lemma send_all_ok:
  assumes "hub_ok h" and "set as \<subseteq> dom (hb_mem h)"
  shows "\<exists>h'. send_all send as ev h = Some h' \<and> hub_ok h' \<and> hb_subs h' = hb_subs h"
  using assms
proof (induction as arbitrary: h)
  case Nil
  then show ?case by simp
next
  case (Cons a as)
  then obtain h1 where "hub_update (\<lambda>s. send s ev) a h = Some h1" "hub_ok h1"
    "hb_subs h1 = hb_subs h" "dom (hb_mem h1) = dom (hb_mem h)"
    using hub_send_ok [of h a ev] by auto
  with Cons.IH [of h1] Cons.prems show ?case by auto
qed

text \<open>A broadcast to every registered subscriber never panics.\<close>

lemma broadcast_ok:
  "hub_ok h \<Longrightarrow> \<exists>h'. hub_broadcast send ev h = Some h' \<and> hub_ok h' \<and> hb_subs h' = hb_subs h"
  unfolding hub_broadcast_def by (rule send_all_ok) (auto simp: hub_ok_def)

text \<open>Nor does a cancel, at any time and any number of times.\<close>

lemma cancel_ok:
  assumes "hub_ok h" and "hb_mem h a \<noteq> None"
  shows "\<exists>h' s'. hub_cancel closeOnce a h = Some h' \<and> hub_ok h' \<and> a \<notin> set (hb_subs h') \<and>
    hb_mem h' a = Some s' \<and> sb_closed s'"
proof -
  from assms(2) obtain s where s: "hb_mem h a = Some s" by auto
  with assms(1) have "sub_ok s" by (auto dest: hub_okD)
  then obtain s' where s': "closeOnce s = Some s'" "sub_ok s'" "sb_closed s'"
    by (rule close_total)
  have "a \<notin> set (remove1 a (hb_subs h))"
    using assms(1) by (simp add: hub_ok_def)
  moreover have "set (remove1 a (hb_subs h)) \<subseteq> set (hb_subs h)"
    by (rule set_remove1_subset)
  moreover have "distinct (remove1 a (hb_subs h))"
    using assms(1) by (simp add: hub_ok_def)
  ultimately show ?thesis
    using s s' assms(1)
    by (auto simp: hub_cancel_def hub_update_def hub_unregister_def hub_ok_def)
qed

end

section \<open>Both backends satisfy it\<close>

lemmas subscriber_op_defs =
  subscriber_send_def subscriber_closeOnce_def memSubscriber_send_def memSubscriber_closeOnce_def
  chan_try_send_def chan_close_def sub_ok_def

interpretation asub: subscriber_ops subscriber_send subscriber_closeOnce
  by unfold_locales (auto simp: subscriber_op_defs)

interpretation msub: subscriber_ops memSubscriber_send memSubscriber_closeOnce
  by unfold_locales (auto simp: subscriber_op_defs)

end
