(* ===== verification/Audit_Logger.thy ===== *)
theory Audit_Logger
  imports Audit_Subscribe
begin

text \<open>
  The \<open>Logger\<close> and \<open>StreamingLogger\<close> interfaces of \<open>pkg/audit/logger.go\<close> as a locale, and
  the result types of the aggregate queries. The canonical order of a result set is
  timestamp descending, then id ascending: \<open>evkey\<close> is that order as a \<open>linorder\<close> instance.
  What the portal relies on (pages are prefixes of the stream, the count is its length, a
  lookup by id finds the event) is proved once from the contract.
\<close>

section \<open>The canonical order\<close>

datatype evkey = EvKey gotime string

instantiation evkey :: linorder
begin

fun less_eq_evkey :: "evkey \<Rightarrow> evkey \<Rightarrow> bool" where
  "less_eq_evkey (EvKey t i) (EvKey t' i') = (if t \<noteq> t' then t > t' else i \<le> i')"

definition less_evkey :: "evkey \<Rightarrow> evkey \<Rightarrow> bool" where
  "less_evkey x y \<longleftrightarrow> x \<le> y \<and> \<not> y \<le> x"

instance
proof
  fix x y z :: evkey
  show "x < y \<longleftrightarrow> x \<le> y \<and> \<not> y \<le> x" by (rule less_evkey_def)
  show "x \<le> x" by (cases x) simp
  show "x \<le> y \<Longrightarrow> y \<le> z \<Longrightarrow> x \<le> z"
    by (cases x; cases y; cases z) (auto split: if_splits)
  show "x \<le> y \<Longrightarrow> y \<le> x \<Longrightarrow> x = y"
    by (cases x; cases y) (auto split: if_splits)
  show "x \<le> y \<or> y \<le> x" by (cases x; cases y) auto
qed

end

definition event_key :: "event \<Rightarrow> evkey" where
  "event_key e = EvKey (ev_Timestamp e) (ev_ID e)"

text \<open>The limit clamp shared by the backends: unset means 100, and 1000 is the most.\<close>

definition clamp_limit :: "int \<Rightarrow> int" where
  "clamp_limit limit =
     (let limit = (if limit \<le> 0 then 100 else limit)
      in if limit > MaxQueryLimit then MaxQueryLimit else limit)"

lemma clamp_limit_bounds: "0 < clamp_limit l" "clamp_limit l \<le> MaxQueryLimit"
  by (simp_all add: clamp_limit_def Let_def)

section \<open>Aggregate results\<close>

record time_point =
  tp_Time :: gotime
  tp_Count :: int
  tp_Errors :: int
  tp_AvgDurMS :: rat

record breakdown_point =
  bp_Key :: string
  bp_Count :: int
  bp_Errors :: int

record stats =
  st_Total :: int
  st_Errors :: int
  st_ErrorRate :: rat
  st_AvgDurationMS :: rat
  st_P50DurationMS :: int
  st_P95DurationMS :: int
  st_UniqueSubjects :: int
  st_UniqueTools :: int

section \<open>Visiting a result set\<close>

text \<open>
  A \<open>Stream\<close> callback updates the caller's state and returns an error to stop. \<open>ctxErr n\<close>
  is what the \<open>n\<close>-th look at \<open>ctx.Err()\<close> finds.
\<close>

fun visit ::
  "(nat \<Rightarrow> goerr option) \<Rightarrow> nat \<Rightarrow> (event \<Rightarrow> 'a \<Rightarrow> goerr option \<times> 'a) \<Rightarrow> event list \<Rightarrow> 'a
    \<Rightarrow> goerr option \<times> 'a" where
  "visit ctxErr n fn [] acc = (None, acc)"
| "visit ctxErr n fn (ev # evs) acc =
     (case ctxErr n of
        Some e \<Rightarrow> (Some e, acc)
      | None \<Rightarrow>
          (case fn ev acc of
             (Some e, acc') \<Rightarrow> (Some e, acc')
           | (None, acc') \<Rightarrow> visit ctxErr (Suc n) fn evs acc'))"

lemma visit_all:
  assumes "\<And>n. ctxErr n = None" and "\<And>ev acc. ev \<in> set evs \<Longrightarrow> fst (fn ev acc) = None"
  shows "visit ctxErr n fn evs acc = (None, fold (\<lambda>ev a. snd (fn ev a)) evs acc)"
  using assms(2)
proof (induction evs arbitrary: n acc)
  case Nil
  then show ?case by simp
next
  case (Cons ev evs)
  from Cons.prems have "fst (fn ev acc) = None" by simp
  with Cons show ?case by (cases "fn ev acc") (simp add: assms(1))
qed

section \<open>The contract of a queryable backend\<close>

locale audit_backend =
  fixes query :: "'s \<Rightarrow> query_filter \<Rightarrow> event list"
    and count :: "'s \<Rightarrow> query_filter \<Rightarrow> int"
    and events :: "'s \<Rightarrow> event list"
    and matches :: "'s \<Rightarrow> query_filter \<Rightarrow> event \<Rightarrow> bool"
  assumes query_page: "qf_Offset f = 0 \<Longrightarrow>
      query s f = take (nat (clamp_limit (qf_Limit f)))
        (sort_key event_key (filter (matches s f) (events s)))"
    and count_all: "count s f = int (length (filter (matches s f) (events s)))"
    and matches_event_id: "matches s f e \<Longrightarrow> qf_EventID f \<noteq> [] \<Longrightarrow> ev_ID e = qf_EventID f"
    and matches_only_id: "matches s (zero_filter\<lparr>qf_EventID := ev_ID e, qf_Limit := 1\<rparr>) e"
begin

lemma query_sorted: "qf_Offset f = 0 \<Longrightarrow> sorted (map event_key (query s f))"
  by (simp add: query_page take_map [symmetric] sorted_wrt_take)

lemma query_sound: "qf_Offset f = 0 \<Longrightarrow> e \<in> set (query s f) \<Longrightarrow> e \<in> set (events s) \<and> matches s f e"
  by (auto simp: query_page dest: in_set_takeD)

lemma query_length:
  "qf_Offset f = 0 \<Longrightarrow> int (length (query s f)) = min (clamp_limit (qf_Limit f)) (count s f)"
  using clamp_limit_bounds [of "qf_Limit f"] by (simp add: query_page count_all min_def) linarith

text \<open>Nothing left off the page comes before something on it.\<close>

lemma query_first:
  assumes "qf_Offset f = 0" and "e \<in> set (query s f)"
    and "d \<in># mset (filter (matches s f) (events s)) - mset (query s f)"
  shows "event_key e \<le> event_key d"
proof -
  let ?n = "nat (clamp_limit (qf_Limit f))"
  let ?l = "sort_key event_key (filter (matches s f) (events s))"
  have l: "take ?n ?l @ drop ?n ?l = ?l" by simp
  then have "mset (take ?n ?l) + mset (drop ?n ?l) = mset (filter (matches s f) (events s))"
    by (metis mset_append mset_sort)
  with assms(1,3) have d: "d \<in> set (drop ?n ?l)"
    by (metis add_diff_cancel_left' query_page set_mset_mset)
  have "sorted (map event_key (take ?n ?l) @ map event_key (drop ?n ?l))"
    by (metis l map_append sorted_sort_key)
  with d assms(1,2) show ?thesis
    by (auto simp: sorted_append query_page)
qed

text \<open>The lookup the portal makes: one event by id.\<close>

lemma lookup_by_id:
  assumes "e \<in> set (events s)" and "ev_ID e \<noteq> []"
    and "\<And>d. d \<in> set (events s) \<Longrightarrow> ev_ID d = ev_ID e \<Longrightarrow> d = e"
  shows "query s (zero_filter\<lparr>qf_EventID := ev_ID e, qf_Limit := 1\<rparr>) = [e]"
proof -
  let ?f = "zero_filter\<lparr>qf_EventID := ev_ID e, qf_Limit := 1\<rparr>"
  let ?l = "sort_key event_key (filter (matches s ?f) (events s))"
  have "e \<in> set ?l" using assms(1) matches_only_id by simp
  moreover have "d = e" if "d \<in> set ?l" for d
    using that assms(2,3) matches_event_id [of s ?f d] by (auto simp: zero_filter_def)
  ultimately obtain xs where "?l = e # xs"
    by (metis list.set_cases list.set_intros(1) empty_iff list.set(1) neq_Nil_conv)
  moreover have "clamp_limit 1 = 1" by (simp add: clamp_limit_def)
  ultimately show ?thesis
    using query_page [of ?f s] by (simp add: zero_filter_def)
qed

lemma lookup_missing:
  assumes "i \<noteq> []" and "\<And>d. d \<in> set (events s) \<Longrightarrow> ev_ID d \<noteq> i"
  shows "query s (zero_filter\<lparr>qf_EventID := i, qf_Limit := 1\<rparr>) = []"
proof -
  let ?f = "zero_filter\<lparr>qf_EventID := i, qf_Limit := 1\<rparr>"
  have "filter (matches s ?f) (events s) = []"
    using assms matches_event_id [of s ?f] by (auto simp: filter_empty_conv zero_filter_def)
  then show ?thesis using query_page [of ?f s] by (simp add: zero_filter_def)
qed

end

end
