(* ===== verification/Audit_Sql.thy ===== *)
theory Audit_Sql
  imports Audit_Logger
begin

text \<open>
  The query compiler of \<open>pkg/audit/postgres/store.go\<close>: \<open>buildSelect\<close> turns a filter into a
  SQL text with positional placeholders and the list of bound arguments. A condition is kept
  as a constructor of \<open>cond\<close> with the placeholder numbers it was formatted with;
  \<open>cond_sql\<close> and \<open>select_sql\<close> give the text the code concatenates. The two facts every
  caller depends on are that the placeholders of the text are exactly \<open>$1\<close> to \<open>$n\<close> for the
  \<open>n\<close> bound arguments, and that no user-supplied value reaches the text.
\<close>

section \<open>Helpers of the store\<close>

definition escape_char :: "char \<Rightarrow> string" where
  "escape_char c = (if c = CHR 0x5C then [CHR 0x5C, CHR 0x5C]
     else if c = CHR ''%'' then [CHR 0x5C, CHR ''%'']
     else if c = CHR ''_'' then [CHR 0x5C, CHR ''_'']
     else [c])"

definition escapeLike :: "string \<Rightarrow> string" where
  "escapeLike s =
     (if s = [] then s
      else let s = (if length s > 200 then take 200 s else s)
           in concat (map escape_char s))"

definition breakdownColumn :: "string \<Rightarrow> string" where
  "breakdownColumn dimension =
     (if dimension = ''tool'' then ''tool_name''
      else if dimension = ''user'' then ''user_subject''
      else if dimension = ''success'' then
        ''CASE WHEN success THEN '' @ [CHR 0x27] @ ''success'' @ [CHR 0x27] @ '' ELSE '' @
        [CHR 0x27] @ ''error'' @ [CHR 0x27] @ '' END''
      else if dimension = ''auth_type'' then ''auth_type''
      else [])"

definition truncateForLog :: "string \<Rightarrow> nat \<Rightarrow> string" where
  "truncateForLog s mx = (if length s \<le> mx then s else take mx s @ ''...'')"

definition jsonFilterColumn :: "string \<Rightarrow> string" where
  "jsonFilterColumn source =
     (if source = ''param'' then ''request_params''
      else if source = ''response'' then ''response_result''
      else if source = ''header'' then ''request_headers''
      else [])"

section \<open>Conditions\<close>

datatype sqlarg = ATime gotime | AStr string | ABool bool | AInt int | AFloat rat | ANull

definition nullableTime :: "gotime \<Rightarrow> sqlarg" where
  "nullableTime t = (if is_zero_time t then ANull else ATime t)"

datatype cond =
    TsGe nat
  | TsLe nat
  | ToolEq nat
  | UserEq nat
  | SessionEq nat
  | IdEq nat
  | SuccessEq nat
  | SearchLike nat nat nat
  | JsonContains string nat
  | HasKey string

definition squote :: "string \<Rightarrow> string" where
  "squote s = CHR 0x27 # s @ [CHR 0x27]"

fun cond_sql :: "cond \<Rightarrow> string" where
  "cond_sql (TsGe i) = ''ts >= $'' @ show_nat i"
| "cond_sql (TsLe i) = ''ts <= $'' @ show_nat i"
| "cond_sql (ToolEq i) = ''tool_name = $'' @ show_nat i"
| "cond_sql (UserEq i) = ''user_subject = $'' @ show_nat i"
| "cond_sql (SessionEq i) = ''session_id = $'' @ show_nat i"
| "cond_sql (IdEq i) = ''id = $'' @ show_nat i"
| "cond_sql (SuccessEq i) = ''success = $'' @ show_nat i"
| "cond_sql (SearchLike i j k) = ''(tool_name ILIKE $'' @ show_nat i @ '' OR error_message ILIKE $'' @
     show_nat j @ '' OR user_subject ILIKE $'' @ show_nat k @ '')''"
| "cond_sql (JsonContains col i) =
     ''EXISTS (SELECT 1 FROM audit_payloads p WHERE p.event_id = audit_events.id AND p.'' @ col @
     '' @> $'' @ show_nat i @ ''::jsonb)''"
| "cond_sql (HasKey k) =
     ''EXISTS (SELECT 1 FROM audit_payloads p WHERE p.event_id = audit_events.id AND p.'' @ k @
     '' IS NOT NULL AND p.'' @ k @ ''::text NOT IN ('' @ squote ''{}'' @ '', '' @ squote ''[]'' @ '', '' @
     squote ''null'' @ '', '' @ squote [] @ ''))''"

record sql_build =
  bd_conds :: "cond list"
  bd_args :: "sqlarg list"
  bd_i :: nat

definition bd_init :: sql_build where
  "bd_init = \<lparr>bd_conds = [], bd_args = [], bd_i = 1\<rparr>"

text \<open>The local closure \<open>add\<close>, called under a condition.\<close>

definition bd_add :: "bool \<Rightarrow> (nat \<Rightarrow> cond) \<Rightarrow> sqlarg \<Rightarrow> sql_build \<Rightarrow> sql_build" where
  "bd_add c mk v b =
     (if c then \<lparr>bd_conds = bd_conds b @ [mk (bd_i b)], bd_args = bd_args b @ [v], bd_i = Suc (bd_i b)\<rparr>
      else b)"

definition bd_search :: "string \<Rightarrow> sql_build \<Rightarrow> sql_build" where
  "bd_search s b =
     (if s = [] then b
      else let i = bd_i b; like = AStr (''%'' @ escapeLike s @ ''%'')
           in \<lparr>bd_conds = bd_conds b @ [SearchLike i (i + 1) (i + 2)],
               bd_args = bd_args b @ [like, like, like], bd_i = i + 3\<rparr>)"

text \<open>The containment document of a JSON filter; \<open>None\<close> is the \<open>continue\<close> on an empty header path.\<close>

definition json_filter_doc :: "float_parser \<Rightarrow> json_path_filter \<Rightarrow> goval option" where
  "json_filter_doc pf jf =
     (if jf_Source jf = ''header'' then
        (case jf_Path jf of [] \<Rightarrow> None | name # _ \<Rightarrow> Some (VMap [(name, VSlice [VStr (jf_Value jf)])]))
      else Some (JSONFilterToContainment (jf_Path jf) (ParseJSONFilterValue pf (jf_Value jf))))"

definition bd_json :: "float_parser \<Rightarrow> marshaler \<Rightarrow> json_path_filter \<Rightarrow> sql_build \<Rightarrow> sql_build" where
  "bd_json pf marshal jf b =
     (let col = jsonFilterColumn (jf_Source jf)
      in if col = [] then b
         else case json_filter_doc pf jf of
           None \<Rightarrow> b
         | Some doc \<Rightarrow>
             (case marshal doc of
                None \<Rightarrow> b
              | Some s \<Rightarrow>
                  \<lparr>bd_conds = bd_conds b @ [JsonContains col (bd_i b)],
                   bd_args = bd_args b @ [AStr s], bd_i = Suc (bd_i b)\<rparr>))"

definition bd_has :: "string \<Rightarrow> sql_build \<Rightarrow> sql_build" where
  "bd_has k b = (if IsAllowedHasKey k then b\<lparr>bd_conds := bd_conds b @ [HasKey k]\<rparr> else b)"

definition bd_scalars :: "query_filter \<Rightarrow> sql_build \<Rightarrow> sql_build" where
  "bd_scalars f b =
     (let b = bd_add (\<not> is_zero_time (qf_From f)) TsGe (ATime (qf_From f)) b;
          b = bd_add (\<not> is_zero_time (qf_To f)) TsLe (ATime (qf_To f)) b;
          b = bd_add (qf_ToolName f \<noteq> []) ToolEq (AStr (qf_ToolName f)) b;
          b = bd_add (qf_UserID f \<noteq> []) UserEq (AStr (qf_UserID f)) b;
          b = bd_add (qf_SessionID f \<noteq> []) SessionEq (AStr (qf_SessionID f)) b;
          b = bd_add (qf_EventID f \<noteq> []) IdEq (AStr (qf_EventID f)) b
      in bd_add (qf_Success f \<noteq> None) SuccessEq (ABool (the (qf_Success f))) b)"

definition bd_filter :: "float_parser \<Rightarrow> marshaler \<Rightarrow> query_filter \<Rightarrow> sql_build" where
  "bd_filter pf marshal f =
     (let b = bd_scalars f bd_init;
          b = bd_search (qf_Search f) b;
          b = fold (bd_json pf marshal) (qf_JSONFilters f) b
      in fold bd_has (qf_HasKeys f) b)"

section \<open>The statement\<close>

datatype select = SelCount "cond list" | SelPage "cond list" nat nat

definition where_sql :: "cond list \<Rightarrow> string" where
  "where_sql conds = (if conds = [] then [] else '' WHERE '' @ join '' AND '' (map cond_sql conds))"

definition coalesce :: "string \<Rightarrow> string" where
  "coalesce c = ''COALESCE('' @ c @ '', '' @ squote [] @ '')''"

definition select_columns :: string where
  "select_columns = ''SELECT id, ts, duration_ms, '' @
     coalesce ''request_id'' @ '', '' @ coalesce ''session_id'' @ '', '' @
     coalesce ''user_subject'' @ '', '' @ coalesce ''user_email'' @ '', '' @
     coalesce ''auth_type'' @ '', '' @ coalesce ''api_key_name'' @ '', '' @
     ''tool_name, '' @ coalesce ''tool_group'' @ '', parameters, '' @
     ''success, '' @ coalesce ''error_message'' @ '', '' @ coalesce ''error_category'' @ '', '' @
     ''request_chars, response_chars, content_blocks, '' @
     ''transport, source, '' @ coalesce ''remote_addr'' @ '', '' @ coalesce ''user_agent'' @ '' ''"

fun select_sql :: "select \<Rightarrow> string" where
  "select_sql (SelCount conds) = ''SELECT count(*) FROM audit_events'' @ where_sql conds"
| "select_sql (SelPage conds i j) = select_columns @ ''FROM audit_events'' @ where_sql conds @
     '' ORDER BY ts DESC, id ASC'' @ '' LIMIT $'' @ show_nat i @ '' OFFSET $'' @ show_nat j"

definition buildSelect ::
  "float_parser \<Rightarrow> marshaler \<Rightarrow> query_filter \<Rightarrow> bool \<Rightarrow> select \<times> sqlarg list" where
  "buildSelect pf marshal f counting =
     (let b = bd_filter pf marshal f
      in if counting then (SelCount (bd_conds b), bd_args b)
         else let limit = qf_Limit f;
                  limit = (if limit \<le> 0 then 100 else limit);
                  limit = (if limit > MaxQueryLimit then MaxQueryLimit else limit)
              in (SelPage (bd_conds b) (bd_i b) (bd_i b + 1),
                  bd_args b @ [AInt limit, AInt (qf_Offset f)]))"

section \<open>Placeholders\<close>

text \<open>The placeholder numbers in a SQL text, left to right.\<close>

definition is_digit :: "char \<Rightarrow> bool" where
  "is_digit c \<longleftrightarrow> digit_val c \<noteq> None"

fun placeholders :: "string \<Rightarrow> nat list" where
  "placeholders [] = []"
| "placeholders (c # cs) =
     (if c = CHR ''$'' then the (parse_digits 0 (takeWhile is_digit cs)) # placeholders cs
      else placeholders cs)"

lemma placeholders_none: "CHR ''$'' \<notin> set s \<Longrightarrow> placeholders s = []"
  by (induction s) auto

lemma placeholders_append:
  "t = [] \<or> \<not> is_digit (hd t) \<Longrightarrow> placeholders (s @ t) = placeholders s @ placeholders t"
proof (induction s)
  case Nil
  then show ?case by simp
next
  case (Cons c s)
  have "takeWhile is_digit (s @ t) = takeWhile is_digit s"
    using Cons.prems by (cases t) (simp_all add: takeWhile_append takeWhile_eq_all_conv [THEN iffD2])
  with Cons show ?case by simp
qed

lemma is_digit_char [simp]: "d < 10 \<Longrightarrow> is_digit (digit_char d)"
  by (simp add: is_digit_def)

lemma show_nat_is_digits: "\<forall>c \<in> set (show_nat n). is_digit c"
proof (induction n rule: show_nat.induct)
  case (1 n)
  then show ?case by (subst show_nat.simps) auto
qed

lemma placeholders_skip: "CHR ''$'' \<notin> set s \<Longrightarrow> placeholders (s @ t) = placeholders t"
  by (induction s) auto

lemma show_nat_no_dollar: "CHR ''$'' \<notin> set (show_nat n)"
  using show_nat_is_digits [of n] by (auto simp: is_digit_def digit_val_def)

lemma takeWhile_show_nat: "takeWhile is_digit (show_nat n @ t) = show_nat n @ takeWhile is_digit t"
  using show_nat_is_digits [of n] by (simp add: takeWhile_append)

lemma takeWhile_show_nat_all: "takeWhile is_digit (show_nat n) = show_nat n"
  using takeWhile_show_nat [of n "[]"] by simp

lemma not_digits:
  "\<not> is_digit CHR '' ''" "\<not> is_digit CHR '')''" "\<not> is_digit CHR '':''"
  by (simp_all add: is_digit_def digit_val_def)

lemmas placeholder_simps = takeWhile_show_nat takeWhile_show_nat_all not_digits
  placeholders_skip [OF show_nat_no_dollar] placeholders_none [OF show_nat_no_dollar] parse_digits_show_nat

fun cond_phs :: "cond \<Rightarrow> nat list" where
  "cond_phs (TsGe i) = [i]"
| "cond_phs (TsLe i) = [i]"
| "cond_phs (ToolEq i) = [i]"
| "cond_phs (UserEq i) = [i]"
| "cond_phs (SessionEq i) = [i]"
| "cond_phs (IdEq i) = [i]"
| "cond_phs (SuccessEq i) = [i]"
| "cond_phs (SearchLike i j k) = [i, j, k]"
| "cond_phs (JsonContains col i) = [i]"
| "cond_phs (HasKey k) = []"

text \<open>The identifiers spliced into the text come from the two closed sets.\<close>

fun cond_cols_ok :: "cond \<Rightarrow> bool" where
  "cond_cols_ok (JsonContains col i) \<longleftrightarrow> col \<in> {''request_params'', ''response_result'', ''request_headers''}"
| "cond_cols_ok (HasKey k) \<longleftrightarrow> IsAllowedHasKey k"
| "cond_cols_ok _ \<longleftrightarrow> True"

lemma columns_no_dollar:
  "cond_cols_ok (JsonContains col i) \<Longrightarrow> CHR ''$'' \<notin> set col"
  "cond_cols_ok (HasKey k) \<Longrightarrow> CHR ''$'' \<notin> set k"
  by (auto simp: IsAllowedHasKey_def)

lemma placeholders_cond: "cond_cols_ok c \<Longrightarrow> placeholders (cond_sql c) = cond_phs c"
proof (cases c)
  case (JsonContains col i)
  assume "cond_cols_ok c"
  then have "CHR ''$'' \<notin> set col" using columns_no_dollar JsonContains by blast
  then show ?thesis by (simp add: JsonContains placeholders_skip placeholder_simps)
next
  case (HasKey k)
  assume "cond_cols_ok c"
  then have "CHR ''$'' \<notin> set k" using columns_no_dollar HasKey by blast
  then show ?thesis by (simp add: HasKey squote_def placeholders_skip)
qed (simp_all add: placeholder_simps)

lemma placeholders_join:
  "list_all cond_cols_ok cs \<Longrightarrow>
     placeholders (join '' AND '' (map cond_sql cs)) = concat (map cond_phs cs)"
proof (induction cs rule: induct_list012)
  case (3 c c' cs)
  have "placeholders (cond_sql c @ '' AND '' @ join '' AND '' (map cond_sql (c' # cs))) =
      cond_phs c @ placeholders (join '' AND '' (map cond_sql (c' # cs)))"
    using 3 by (subst placeholders_append) (simp_all add: not_digits placeholders_cond)
  with 3 show ?case by simp
qed (simp_all add: placeholders_cond)

lemma placeholders_where:
  "list_all cond_cols_ok cs \<Longrightarrow> placeholders (where_sql cs) = concat (map cond_phs cs)"
  by (simp add: where_sql_def placeholders_join)

section \<open>The build keeps text and arguments aligned\<close>

definition bd_ok :: "sql_build \<Rightarrow> bool" where
  "bd_ok b \<longleftrightarrow> concat (map cond_phs (bd_conds b)) = [1..<bd_i b] \<and> bd_i b = Suc (length (bd_args b)) \<and>
     list_all cond_cols_ok (bd_conds b)"

lemma bd_ok_add: "bd_ok b \<Longrightarrow> (\<And>i. cond_phs (mk i) = [i] \<and> cond_cols_ok (mk i)) \<Longrightarrow> bd_ok (bd_add c mk v b)"
  by (simp add: bd_ok_def bd_add_def)

lemma bd_ok_search: "bd_ok b \<Longrightarrow> bd_ok (bd_search s b)"
proof -
  assume "bd_ok b"
  moreover have "[1..<bd_i b + 3] = [1..<bd_i b] @ [bd_i b, bd_i b + 1, bd_i b + 2]"
    if "1 \<le> bd_i b"
    using that upt_add_eq_append [of 1 "bd_i b" 3] upt_conv_Cons [of "bd_i b" "bd_i b + 3"]
      upt_conv_Cons [of "bd_i b + 1" "bd_i b + 3"] upt_conv_Cons [of "bd_i b + 2" "bd_i b + 3"] by simp
  ultimately show ?thesis unfolding bd_ok_def bd_search_def Let_def by (cases "s = []") (simp_all del: upt_Suc)
qed

lemma jsonFilterColumn_ok: "jsonFilterColumn s \<noteq> [] \<Longrightarrow> cond_cols_ok (JsonContains (jsonFilterColumn s) i)"
  by (simp add: jsonFilterColumn_def split: if_splits)

lemma bd_ok_json: "bd_ok b \<Longrightarrow> bd_ok (bd_json pf marshal jf b)"
  using jsonFilterColumn_ok [of "jf_Source jf"]
  by (auto simp: bd_ok_def bd_json_def Let_def split: option.splits)

lemma bd_ok_has: "bd_ok b \<Longrightarrow> bd_ok (bd_has k b)"
  by (simp add: bd_ok_def bd_has_def)

lemma bd_ok_fold: "(\<And>x b. bd_ok b \<Longrightarrow> bd_ok (g x b)) \<Longrightarrow> bd_ok b \<Longrightarrow> bd_ok (fold g xs b)"
  by (induction xs arbitrary: b) simp_all

lemma bd_ok_filter: "bd_ok (bd_filter pf marshal f)"
proof -
  have "bd_ok (bd_scalars f bd_init)"
    unfolding bd_scalars_def Let_def by (intro bd_ok_add) (simp_all add: bd_ok_def bd_init_def)
  then show ?thesis
    unfolding bd_filter_def Let_def by (intro bd_ok_fold bd_ok_search bd_ok_json bd_ok_has)
qed


section \<open>The text is independent of the values\<close>

definition bd_same :: "sql_build \<Rightarrow> sql_build \<Rightarrow> bool" where
  "bd_same b b' \<longleftrightarrow> bd_conds b = bd_conds b' \<and> bd_i b = bd_i b'"

text \<open>What of a filter the text may depend on: which fields are set, the columns of the JSON
  filters that compile, and the allowlisted \<open>has\<close> keys.\<close>

definition json_shape :: "float_parser \<Rightarrow> marshaler \<Rightarrow> json_path_filter \<Rightarrow> string \<times> bool" where
  "json_shape pf marshal jf =
     (jsonFilterColumn (jf_Source jf),
      (case json_filter_doc pf jf of None \<Rightarrow> False | Some doc \<Rightarrow> marshal doc \<noteq> None))"

definition filter_shape ::
  "float_parser \<Rightarrow> marshaler \<Rightarrow> query_filter \<Rightarrow> bool list \<times> (string \<times> bool) list \<times> string list" where
  "filter_shape pf marshal f =
     ([is_zero_time (qf_From f), is_zero_time (qf_To f), qf_ToolName f = [], qf_UserID f = [],
       qf_SessionID f = [], qf_EventID f = [], qf_Success f = None, qf_Search f = []],
      map (json_shape pf marshal) (qf_JSONFilters f),
      filter IsAllowedHasKey (qf_HasKeys f))"

lemma bd_same_add: "bd_same b b' \<Longrightarrow> c = c' \<Longrightarrow> bd_same (bd_add c mk v b) (bd_add c' mk v' b')"
  by (simp add: bd_same_def bd_add_def)

lemma bd_same_search: "bd_same b b' \<Longrightarrow> (s = [] \<longleftrightarrow> s' = []) \<Longrightarrow> bd_same (bd_search s b) (bd_search s' b')"
  by (simp add: bd_same_def bd_search_def Let_def)

lemma bd_same_json:
  "bd_same b b' \<Longrightarrow> json_shape pf marshal jf = json_shape pf marshal jf' \<Longrightarrow>
     bd_same (bd_json pf marshal jf b) (bd_json pf marshal jf' b')"
  by (auto simp: bd_same_def bd_json_def json_shape_def Let_def split: option.splits)

lemma bd_same_jsons:
  "bd_same b b' \<Longrightarrow> map (json_shape pf marshal) jfs = map (json_shape pf marshal) jfs' \<Longrightarrow>
     bd_same (fold (bd_json pf marshal) jfs b) (fold (bd_json pf marshal) jfs' b')"
proof (induction jfs arbitrary: jfs' b b')
  case (Cons jf jfs)
  then obtain jf' rest where "jfs' = jf' # rest" "json_shape pf marshal jf = json_shape pf marshal jf'"
    "map (json_shape pf marshal) jfs = map (json_shape pf marshal) rest" by (cases jfs') auto
  with Cons show ?case by (simp add: bd_same_json)
qed simp

lemma fold_bd_has:
  "fold bd_has ks b = b\<lparr>bd_conds := bd_conds b @ map HasKey (filter IsAllowedHasKey ks)\<rparr>"
  by (induction ks arbitrary: b) (simp_all add: bd_has_def)



section \<open>Search terms are literal\<close>

text \<open>The meaning of a \<open>LIKE\<close> pattern with the default escape character.\<close>

fun like_match :: "string \<Rightarrow> string \<Rightarrow> bool" where
  "like_match [] t \<longleftrightarrow> t = []"
| "like_match (c # p) t \<longleftrightarrow>
     (if c = CHR ''%'' then like_match p t \<or> (case t of [] \<Rightarrow> False | _ # t' \<Rightarrow> like_match (c # p) t')
      else case t of
        [] \<Rightarrow> False
      | d # t' \<Rightarrow>
          (if c = CHR ''_'' then like_match p t'
           else if c = CHR 0x5C then (case p of [] \<Rightarrow> False | e # p' \<Rightarrow> d = e \<and> like_match p' t')
           else d = c \<and> like_match p t'))"

lemma like_percent_end: "like_match ''%'' t"
  by (induction t) simp_all

lemma like_escaped:
  "like_match (concat (map escape_char s) @ p) t \<longleftrightarrow> (\<exists>t'. t = s @ t' \<and> like_match p t')"
proof (induction s arbitrary: t)
  case (Cons c s)
  then show ?case by (cases t) (auto simp: escape_char_def)
qed simp

lemma like_contains: "like_match (CHR ''%'' # concat (map escape_char s) @ ''%'') t \<longleftrightarrow> sublist s t"
proof (induction t)
  case Nil
  then show ?case using like_escaped [of s "''%''" "[]"] by auto
next
  case (Cons d t)
  have "like_match (concat (map escape_char s) @ ''%'') (d # t) \<longleftrightarrow> prefix s (d # t)"
    by (auto simp: like_escaped like_percent_end prefix_def simp del: like_match.simps)
  then show ?case using Cons by (simp add: sublist_Cons_right)
qed

text \<open>Search terms are taken literally. The pattern bound for a search term matches a text
  under \<open>LIKE\<close> exactly when the term, cut to its first 200 bytes, occurs in the text: a percent
  sign, an underscore or a backslash in user input matches only itself.\<close>

theorem search_is_literal:
  assumes "s \<noteq> []"
  shows "\<exists>b. bd_args (bd_search s bd_init) = [AStr b, AStr b, AStr b] \<and>
    (\<forall>t. like_match b t \<longleftrightarrow> sublist (take 200 s) t)"
proof -
  have "escapeLike s = concat (map escape_char (take 200 s))"
    using assms by (simp add: escapeLike_def)
  then show ?thesis using assms like_contains [of "take 200 s"] by (simp add: bd_search_def bd_init_def Let_def)
qed

theorem search_is_literal_witness:
  "\<exists>b. bd_args (bd_search ''50%'' bd_init) = [AStr b, AStr b, AStr b] \<and>
     (\<forall>t. like_match b t \<longleftrightarrow> sublist (take 200 ''50%'') t)"
  using search_is_literal [of "''50%''"] by blast

end
