(* ===== verification/Audit_Memory.thy ===== *)
theory Audit_Memory
  imports Audit_Logger
begin

text \<open>
  \<open>pkg/audit/memory.go\<close>: the in-memory logger. Its state is the event slice and the live-tail
  hub; the mutexes make every method one atomic operation on it. \<open>uuid.NewString()\<close> is the
  argument \<open>uid\<close>. \<open>sort.Slice\<close> is a sort by the canonical key: it promises no order among
  equal keys, and events with distinct ids have distinct keys. Averages are exact rationals.
\<close>

section \<open>State and writing\<close>

record memory_logger =
  ml_events :: "event list"
  ml_hub :: hub

definition NewMemoryLogger :: memory_logger where
  "NewMemoryLogger = \<lparr>ml_events = [], ml_hub = empty_hub\<rparr>"

definition mem_broadcast :: "event \<Rightarrow> memory_logger \<Rightarrow> memory_logger option" where
  "mem_broadcast ev m =
     map_option (\<lambda>h. m\<lparr>ml_hub := h\<rparr>) (hub_broadcast memSubscriber_send ev (ml_hub m))"

definition mem_Log :: "string \<Rightarrow> event \<Rightarrow> memory_logger \<Rightarrow> memory_logger option" where
  "mem_Log uid ev m =
     (let ev = (if ev_ID ev = [] then ev\<lparr>ev_ID := uid\<rparr> else ev)
      in mem_broadcast ev (m\<lparr>ml_events := ml_events m @ [ev]\<rparr>))"

definition mem_Subscribe :: "int \<Rightarrow> memory_logger \<Rightarrow> nat \<times> memory_logger" where
  "mem_Subscribe buf m =
     (let (a, h) = hub_subscribe buf (ml_hub m) in (a, m\<lparr>ml_hub := h\<rparr>))"

definition mem_cancel :: "nat \<Rightarrow> memory_logger \<Rightarrow> memory_logger option" where
  "mem_cancel a m =
     map_option (\<lambda>h. m\<lparr>ml_hub := h\<rparr>) (hub_cancel memSubscriber_closeOnce a (ml_hub m))"

section \<open>Filters\<close>

text \<open>One iteration of the JSON filter loop; \<open>False\<close> is its \<open>return false\<close>.\<close>

definition matchesJSONFilter ::
  "float_parser \<Rightarrow> marshaler \<Rightarrow> payload \<Rightarrow> json_path_filter \<Rightarrow> bool" where
  "matchesJSONFilter pf marshal p jf =
     (if jf_Source jf = ''header'' then
        (case pl_RequestHeaders p of
           None \<Rightarrow> False
         | Some h \<Rightarrow>
             (case jf_Path jf of
                [] \<Rightarrow> False
              | name # _ \<Rightarrow>
                  (case map_of h name of
                     None \<Rightarrow> False
                   | Some values \<Rightarrow> values \<noteq> [] \<and> list_ex (\<lambda>v. v = jf_Value jf) values)))
      else if jf_Source jf = ''param'' \<or> jf_Source jf = ''response'' then
        (let src = (if jf_Source jf = ''param'' then pl_RequestParams p else pl_ResponseResult p)
         in src \<noteq> None \<and>
            MatchJSONPath marshal src (jf_Path jf) (ParseJSONFilterValue pf (jf_Value jf)))
      else False)"

definition matchesJSONFilters ::
  "float_parser \<Rightarrow> marshaler \<Rightarrow> event \<Rightarrow> json_path_filter list \<Rightarrow> bool" where
  "matchesJSONFilters pf marshal ev fs =
     (if fs = [] then True
      else case ev_Payload ev of
             None \<Rightarrow> False
           | Some p \<Rightarrow> list_all (matchesJSONFilter pf marshal p) fs)"

definition matchesHasKey :: "payload \<Rightarrow> string \<Rightarrow> bool" where
  "matchesHasKey p k =
     (if k = ''request_params'' then pl_RequestParams p \<noteq> None \<and> pl_RequestParams p \<noteq> Some []
      else if k = ''request_headers'' then pl_RequestHeaders p \<noteq> None \<and> pl_RequestHeaders p \<noteq> Some []
      else if k = ''response_result'' then pl_ResponseResult p \<noteq> None \<and> pl_ResponseResult p \<noteq> Some []
      else if k = ''response_error'' then pl_ResponseError p \<noteq> None \<and> pl_ResponseError p \<noteq> Some []
      else if k = ''notifications'' then pl_Notifications p \<noteq> []
      else if k = ''replayed_from'' then pl_ReplayedFrom p \<noteq> []
      else False)"

definition matchesHasKeys :: "event \<Rightarrow> string list \<Rightarrow> bool" where
  "matchesHasKeys ev keys =
     (if keys = [] then True
      else case ev_Payload ev of
             None \<Rightarrow> False
           | Some p \<Rightarrow> list_all (matchesHasKey p) keys)"

definition matchesFilter :: "float_parser \<Rightarrow> marshaler \<Rightarrow> query_filter \<Rightarrow> event \<Rightarrow> bool" where
  "matchesFilter pf marshal f ev =
     (if qf_EventID f \<noteq> [] \<and> ev_ID ev \<noteq> qf_EventID f then False
      else if qf_ToolName f \<noteq> [] \<and> ev_ToolName ev \<noteq> qf_ToolName f then False
      else if qf_UserID f \<noteq> [] \<and> ev_UserSubject ev \<noteq> qf_UserID f then False
      else if qf_SessionID f \<noteq> [] \<and> ev_SessionID ev \<noteq> qf_SessionID f then False
      else if \<not> is_zero_time (qf_From f) \<and> ev_Timestamp ev < qf_From f then False
      else if \<not> is_zero_time (qf_To f) \<and> ev_Timestamp ev > qf_To f then False
      else if qf_Success f \<noteq> None \<and> Some (ev_Success ev) \<noteq> qf_Success f then False
      else if \<not> matchesJSONFilters pf marshal ev (qf_JSONFilters f) then False
      else if \<not> matchesHasKeys ev (qf_HasKeys f) then False
      else True)"

section \<open>Queries\<close>

definition matchAll ::
  "float_parser \<Rightarrow> marshaler \<Rightarrow> memory_logger \<Rightarrow> query_filter \<Rightarrow> event list" where
  "matchAll pf marshal m f = sort_key event_key (filter (matchesFilter pf marshal f) (ml_events m))"

definition mem_Query ::
  "float_parser \<Rightarrow> marshaler \<Rightarrow> memory_logger \<Rightarrow> query_filter \<Rightarrow> event list" where
  "mem_Query pf marshal m f =
     (let out = matchAll pf marshal m f;
          limit = qf_Limit f;
          limit = (if limit \<le> 0 then 100 else limit);
          limit = (if limit > MaxQueryLimit then MaxQueryLimit else limit)
      in if int (length out) > limit then take (nat limit) out else out)"

definition mem_Count :: "float_parser \<Rightarrow> marshaler \<Rightarrow> memory_logger \<Rightarrow> query_filter \<Rightarrow> int" where
  "mem_Count pf marshal m f = int (length (matchAll pf marshal m f))"

definition mem_Stream ::
  "float_parser \<Rightarrow> marshaler \<Rightarrow> memory_logger \<Rightarrow> (nat \<Rightarrow> goerr option) \<Rightarrow> query_filter \<Rightarrow>
   (event \<Rightarrow> 'a \<Rightarrow> goerr option \<times> 'a) \<Rightarrow> 'a \<Rightarrow> goerr option \<times> 'a" where
  "mem_Stream pf marshal m ctxErr f fn acc =
     (case ctxErr 0 of
        Some e \<Rightarrow> (Some e, acc)
      | None \<Rightarrow> visit ctxErr 1 fn (matchAll pf marshal m f) acc)"

fun find_payload :: "event list \<Rightarrow> string \<Rightarrow> payload option" where
  "find_payload [] eventID = None"
| "find_payload (ev # evs) eventID =
     (if ev_ID ev = eventID then ev_Payload ev else find_payload evs eventID)"

definition mem_GetPayload :: "memory_logger \<Rightarrow> string \<Rightarrow> payload option" where
  "mem_GetPayload m eventID = find_payload (ml_events m) eventID"

definition Snapshot :: "memory_logger \<Rightarrow> event list" where
  "Snapshot m = ml_events m"

section \<open>Aggregates\<close>

definition in_window :: "gotime \<Rightarrow> gotime \<Rightarrow> event \<Rightarrow> bool" where
  "in_window frm to ev \<longleftrightarrow>
     \<not> (\<not> is_zero_time frm \<and> ev_Timestamp ev < frm) \<and> \<not> (\<not> is_zero_time to \<and> ev_Timestamp ev > to)"

type_synonym bucket_acc = "int \<times> int \<times> int"

definition bucket_add :: "event \<Rightarrow> bucket_acc \<Rightarrow> bucket_acc" where
  "bucket_add ev a = (case a of (c, e, d) \<Rightarrow>
     (c + 1, (if ev_Success ev then e else e + 1), d + ev_DurationMS ev))"

text \<open>\<open>a := buckets[t]; if a == nil { \<dots> }; a.count++ \<dots>\<close>\<close>

fun bucket_event :: "duration \<Rightarrow> event \<Rightarrow> (gotime \<times> bucket_acc) list \<Rightarrow> (gotime \<times> bucket_acc) list" where
  "bucket_event bucket ev buckets =
     (let t = time_truncate (ev_Timestamp ev) bucket;
          a = (case map_of buckets t of None \<Rightarrow> (0, 0, 0) | Some a \<Rightarrow> a)
      in AList.update t (bucket_add ev a) buckets)"

definition time_buckets :: "duration \<Rightarrow> event list \<Rightarrow> (gotime \<times> bucket_acc) list" where
  "time_buckets bucket evs = fold (bucket_event bucket) evs []"

definition bucket_point :: "(gotime \<times> bucket_acc) list \<Rightarrow> gotime \<Rightarrow> time_point" where
  "bucket_point buckets k = (case the (map_of buckets k) of (c, e, d) \<Rightarrow>
     \<lparr>tp_Time = k, tp_Count = c, tp_Errors = e,
      tp_AvgDurMS = (if c > 0 then of_int d / of_int c else 0)\<rparr>)"

definition mem_TimeSeries ::
  "memory_logger \<Rightarrow> gotime \<Rightarrow> gotime \<Rightarrow> duration \<Rightarrow> time_point list" where
  "mem_TimeSeries m frm to bucket =
     (let bucket = (if bucket \<le> 0 then minute else bucket);
          buckets = time_buckets bucket (filter (in_window frm to) (ml_events m));
          keys = sort (map fst buckets)
      in map (bucket_point buckets) keys)"

definition breakdownKeyFn :: "string \<Rightarrow> (event \<Rightarrow> string) option" where
  "breakdownKeyFn dimension =
     (if dimension = ''tool'' then Some ev_ToolName
      else if dimension = ''user'' then Some ev_UserSubject
      else if dimension = ''success'' then
        Some (\<lambda>ev. if ev_Success ev then ''success'' else ''error'')
      else if dimension = ''auth_type'' then Some ev_AuthType
      else None)"

fun group_event :: "(event \<Rightarrow> string) \<Rightarrow> event \<Rightarrow> (string \<times> breakdown_point) list \<Rightarrow> (string \<times> breakdown_point) list" where
  "group_event keyFn ev groups =
     (let k = keyFn ev;
          g = (case map_of groups k of
                 None \<Rightarrow> \<lparr>bp_Key = k, bp_Count = 0, bp_Errors = 0\<rparr> | Some g \<Rightarrow> g)
      in AList.update k (g\<lparr>bp_Count := bp_Count g + 1,
           bp_Errors := (if ev_Success ev then bp_Errors g else bp_Errors g + 1)\<rparr>) groups)"

definition mem_Breakdown :: "memory_logger \<Rightarrow> gotime \<Rightarrow> gotime \<Rightarrow> string \<Rightarrow> breakdown_point list" where
  "mem_Breakdown m frm to dimension = (case breakdownKeyFn dimension of
     None \<Rightarrow> []
   | Some keyFn \<Rightarrow>
       (let groups = fold (group_event keyFn) (filter (in_window frm to) (ml_events m)) []
        in sort_key (\<lambda>g. - bp_Count g) (map snd groups)))"

text \<open>
  The index of the 95th percentile is \<open>int(float64(n-1) * 0.95)\<close>. The product of an integer
  below \<open>2^50\<close> and the float64 nearest to 0.95 truncates to the floor of \<open>19 (n-1) / 20\<close>:
  the relative error of the constant is below half a unit in the last place, so an integral
  product is hit exactly, and otherwise the next integer is at least 1/20 away.
\<close>

definition p95_index :: "nat \<Rightarrow> nat" where
  "p95_index n = 19 * (n - 1) div 20"

definition mem_Stats :: "memory_logger \<Rightarrow> gotime \<Rightarrow> gotime \<Rightarrow> stats" where
  "mem_Stats m frm to =
     (let evs = filter (in_window frm to) (ml_events m);
          total = int (length evs);
          errs = int (length (filter (\<lambda>ev. \<not> ev_Success ev) evs));
          totalDur = sum_list (map ev_DurationMS evs);
          durations = sort (map ev_DurationMS evs);
          subjects = remdups (filter (\<lambda>s. s \<noteq> []) (map ev_UserSubject evs));
          tools = remdups (filter (\<lambda>s. s \<noteq> []) (map ev_ToolName evs));
          s = \<lparr>st_Total = total, st_Errors = errs, st_ErrorRate = 0, st_AvgDurationMS = 0,
               st_P50DurationMS = 0, st_P95DurationMS = 0,
               st_UniqueSubjects = int (length subjects), st_UniqueTools = int (length tools)\<rparr>
      in if total > 0 then
           s\<lparr>st_ErrorRate := of_int errs / of_int total,
             st_AvgDurationMS := of_int totalDur / of_int total,
             st_P50DurationMS := durations ! (length durations div 2),
             st_P95DurationMS := durations ! p95_index (length durations)\<rparr>
         else s)"

section \<open>The memory logger is an audit backend\<close>

lemma mem_Query_take:
  "mem_Query pf marshal m f = take (nat (clamp_limit (qf_Limit f))) (matchAll pf marshal m f)"
  by (auto simp: mem_Query_def clamp_limit_def Let_def)

lemma matchesFilter_only_id:
  "matchesFilter pf marshal (zero_filter\<lparr>qf_EventID := ev_ID e, qf_Limit := 1\<rparr>) e"
  by (simp add: matchesFilter_def zero_filter_def is_zero_time_def matchesJSONFilters_def matchesHasKeys_def)

interpretation mem: audit_backend "mem_Query pf marshal" "mem_Count pf marshal" ml_events
    "\<lambda>_. matchesFilter pf marshal" for pf marshal
proof unfold_locales
  fix f :: query_filter and e and s :: memory_logger
  show "mem_Query pf marshal s f =
      take (nat (clamp_limit (qf_Limit f)))
        (sort_key event_key (filter (matchesFilter pf marshal f) (ml_events s)))"
    by (simp add: mem_Query_take matchAll_def)
  show "mem_Count pf marshal s f = int (length (filter (matchesFilter pf marshal f) (ml_events s)))"
    by (simp add: mem_Count_def matchAll_def)
  show "matchesFilter pf marshal f e \<Longrightarrow> qf_EventID f \<noteq> [] \<Longrightarrow> ev_ID e = qf_EventID f"
    by (auto simp: matchesFilter_def split: if_splits)
  show "matchesFilter pf marshal (zero_filter\<lparr>qf_EventID := ev_ID e, qf_Limit := 1\<rparr>) e"
    by (rule matchesFilter_only_id)
qed

section \<open>Grouping folds\<close>

text \<open>
  The bucket and breakdown loops are one pattern: look the key of an event up in a map,
  start from an initial accumulator when it is missing, add the event, store it back.
\<close>

locale grouping =
  fixes key :: "event \<Rightarrow> 'k"
    and init :: "'k \<Rightarrow> 'v"
    and add :: "event \<Rightarrow> 'v \<Rightarrow> 'v"
    and upd :: "event \<Rightarrow> ('k \<times> 'v) list \<Rightarrow> ('k \<times> 'v) list"
  assumes upd_eq: "upd e m =
    AList.update (key e) (add e (case map_of m (key e) of None \<Rightarrow> init (key e) | Some v \<Rightarrow> v)) m"
begin

lemma keys_fold: "fst ` set (fold upd es m) = fst ` set m \<union> key ` set es"
  by (induction es arbitrary: m) (simp_all add: upd_eq dom_update)

lemma distinct_fold: "distinct (map fst m) \<Longrightarrow> distinct (map fst (fold upd es m))"
  by (induction es arbitrary: m) (simp_all add: upd_eq distinct_update)

lemma lookup_fold:
  "map_of (fold upd es []) k =
    (let xs = filter (\<lambda>e. key e = k) es in if xs = [] then None else Some (fold add xs (init k)))"
proof (induction es rule: rev_induct)
  case Nil
  then show ?case by simp
next
  case (snoc e es)
  then show ?case by (auto simp: upd_eq update_conv' Let_def)
qed

end

interpretation bkt: grouping "\<lambda>e. time_truncate (ev_Timestamp e) bucket" "\<lambda>_. (0, 0, 0)" bucket_add
    "bucket_event bucket" for bucket
  by unfold_locales (simp add: Let_def)

interpretation brk: grouping keyFn "\<lambda>k. \<lparr>bp_Key = k, bp_Count = 0, bp_Errors = 0\<rparr>"
    "\<lambda>ev g. g\<lparr>bp_Count := bp_Count g + 1,
       bp_Errors := (if ev_Success ev then bp_Errors g else bp_Errors g + 1)\<rparr>"
    "group_event keyFn" for keyFn
  by unfold_locales (simp add: Let_def)

abbreviation failures :: "event list \<Rightarrow> event list" where
  "failures es \<equiv> filter (\<lambda>e. \<not> ev_Success e) es"

lemma fold_bucket_add:
  "fold bucket_add es (c, e, d) =
     (c + int (length es), e + int (length (failures es)), d + sum_list (map ev_DurationMS es))"
  by (induction es arbitrary: c e d) (auto simp: bucket_add_def)

lemma fold_group_add:
  "fold (\<lambda>ev g. g\<lparr>bp_Count := bp_Count g + 1,
       bp_Errors := (if ev_Success ev then bp_Errors g else bp_Errors g + 1)\<rparr>) es g =
     g\<lparr>bp_Count := bp_Count g + int (length es), bp_Errors := bp_Errors g + int (length (failures es))\<rparr>"
  by (induction es arbitrary: g) auto

text \<open>Partitioning a list by a key accounts for every element once.\<close>

lemma sum_list_partition:
  assumes "distinct ks" and "f ` set es \<subseteq> set ks"
  shows "(\<Sum>k\<leftarrow>ks. int (length (filter (\<lambda>e. f e = k) es))) = int (length es)"
  using assms(2)
proof (induction es)
  case Nil
  then show ?case by (simp add: sum_list_0)
next
  case (Cons e es)
  have "(\<Sum>k\<leftarrow>ks. int (length (filter (\<lambda>x. f x = k) (e # es)))) =
      (\<Sum>k\<leftarrow>ks. (if k = f e then 1 else 0) + int (length (filter (\<lambda>x. f x = k) es)))"
    by (rule arg_cong [where f = sum_list], rule map_cong) auto
  also have "\<dots> = (\<Sum>k\<leftarrow>ks. if k = f e then 1 else 0) + int (length es)"
    using Cons by (simp add: sum_list_addf)
  also have "(\<Sum>k\<leftarrow>ks. if k = f e then 1 else (0::int)) = 1"
    using assms(1) Cons.prems
    by (simp add: sum_list_distinct_conv_sum_set sum.delta)
  finally show ?case by simp
qed

section \<open>Writing and reading back\<close>

definition assigned :: "string \<Rightarrow> event \<Rightarrow> event" where
  "assigned uid ev = (if ev_ID ev = [] then ev\<lparr>ev_ID := uid\<rparr> else ev)"

lemma mem_Log_events: "mem_Log uid ev m = Some m' \<Longrightarrow> ml_events m' = ml_events m @ [assigned uid ev]"
  by (auto simp: mem_Log_def mem_broadcast_def assigned_def Let_def)

lemma find_payload_append:
  "\<forall>e \<in> set es. ev_ID e \<noteq> i \<Longrightarrow> find_payload (es @ fs) i = find_payload fs i"
  by (induction es) auto

lemma mem_log_lookup:
  assumes "mem_Log uid ev m = Some m'"
    and "ev_ID (assigned uid ev) \<noteq> []" and "ev_ID (assigned uid ev) \<notin> ev_ID ` set (ml_events m)"
  shows "mem_Query pf marshal m' (zero_filter\<lparr>qf_EventID := ev_ID (assigned uid ev), qf_Limit := 1\<rparr>) = [assigned uid ev]"
    and "mem_GetPayload m' (ev_ID (assigned uid ev)) = ev_Payload ev"
proof -
  have evs: "ml_events m' = ml_events m @ [assigned uid ev]" using assms(1) by (rule mem_Log_events)
  show "mem_Query pf marshal m' (zero_filter\<lparr>qf_EventID := ev_ID (assigned uid ev), qf_Limit := 1\<rparr>) = [assigned uid ev]"
    using assms(2,3) evs by (intro mem.lookup_by_id) (auto simp: image_iff)
  have "\<forall>e \<in> set (ml_events m). ev_ID e \<noteq> ev_ID (assigned uid ev)"
    using assms(3) by (metis imageI)
  moreover have "ev_Payload (assigned uid ev) = ev_Payload ev" by (simp add: assigned_def)
  ultimately show "mem_GetPayload m' (ev_ID (assigned uid ev)) = ev_Payload ev"
    using evs by (simp add: mem_GetPayload_def find_payload_append)
qed

text \<open>The states a memory logger goes through: callers log, subscribe, and cancel what they
  were handed.\<close>

inductive mem_reachable :: "memory_logger \<Rightarrow> bool" where
  start: "mem_reachable NewMemoryLogger"
| log: "mem_reachable m \<Longrightarrow> mem_Log uid ev m = Some m' \<Longrightarrow> mem_reachable m'"
| subscribe: "mem_reachable m \<Longrightarrow> mem_Subscribe buf m = (a, m') \<Longrightarrow> mem_reachable m'"
| cancel: "mem_reachable m \<Longrightarrow> hb_mem (ml_hub m) a \<noteq> None \<Longrightarrow> mem_cancel a m = Some m' \<Longrightarrow>
    mem_reachable m'"

lemma mem_Log_total:
  assumes "hub_ok (ml_hub m)"
  obtains m' where "mem_Log uid ev m = Some m'" and "hub_ok (ml_hub m')"
proof -
  obtain h' where "hub_broadcast memSubscriber_send (assigned uid ev) (ml_hub m) = Some h'" "hub_ok h'"
    using msub.broadcast_ok [OF assms] by blast
  then show thesis
    by (intro that [of "m\<lparr>ml_events := ml_events m @ [assigned uid ev], ml_hub := h'\<rparr>"])
       (simp_all add: mem_Log_def mem_broadcast_def assigned_def Let_def split: if_splits)
qed

lemma mem_cancel_total:
  assumes "hub_ok (ml_hub m)" and "hb_mem (ml_hub m) a \<noteq> None"
  obtains m' where "mem_cancel a m = Some m'" and "hub_ok (ml_hub m')"
proof -
  obtain h' where "hub_cancel memSubscriber_closeOnce a (ml_hub m) = Some h'" "hub_ok h'"
    using msub.cancel_ok [OF assms] by blast
  then show thesis
    by (intro that [of "m\<lparr>ml_hub := h'\<rparr>"]) (simp_all add: mem_cancel_def)
qed

lemma mem_reachable_ok: "mem_reachable m \<Longrightarrow> hub_ok (ml_hub m)"
proof (induction rule: mem_reachable.induct)
  case start
  then show ?case by (simp add: NewMemoryLogger_def empty_hub_ok)
next
  case (log m uid ev m')
  then show ?case by (metis mem_Log_total option.inject)
next
  case (subscribe m buf a m')
  then show ?case using hub_subscribe_ok [of "ml_hub m" buf]
    by (auto simp: mem_Subscribe_def split: prod.splits)
next
  case (cancel m a m')
  then show ?case by (metis mem_cancel_total option.inject)
qed

text \<open>A logged event is found again. Logging to the memory logger never panics, whatever
  subscribers exist; when the event's id (its own, or the fresh uuid it is given) is new, the
  lookup by id returns exactly that event, its payload is what \<open>GetPayload\<close> returns, and the
  unfiltered count goes up by one.\<close>

theorem mem_log_roundtrip:
  assumes "mem_reachable m"
    and "ev_ID (assigned uid ev) \<noteq> []" and "ev_ID (assigned uid ev) \<notin> ev_ID ` set (ml_events m)"
  shows "\<exists>m'. mem_Log uid ev m = Some m' \<and>
    mem_Query pf marshal m' (zero_filter\<lparr>qf_EventID := ev_ID (assigned uid ev), qf_Limit := 1\<rparr>)
      = [assigned uid ev] \<and>
    mem_GetPayload m' (ev_ID (assigned uid ev)) = ev_Payload ev \<and>
    mem_Count pf marshal m' zero_filter = mem_Count pf marshal m zero_filter + 1"
proof -
  obtain m' where m': "mem_Log uid ev m = Some m'"
    using mem_Log_total mem_reachable_ok [OF assms(1)] by blast
  then have evs: "ml_events m' = ml_events m @ [assigned uid ev]" by (rule mem_Log_events)
  note mem_log_lookup [OF m' assms(2,3)]
  moreover have "matchesFilter pf marshal zero_filter e" for e
    by (simp add: matchesFilter_def zero_filter_def is_zero_time_def matchesJSONFilters_def matchesHasKeys_def)
  then have "mem_Count pf marshal m' zero_filter = mem_Count pf marshal m zero_filter + 1"
    using evs by (simp add: mem_Count_def matchAll_def)
  ultimately show ?thesis using m' by blast
qed

theorem mem_log_roundtrip_witness:
  "\<exists>m'. mem_Log ''u1'' zero_event NewMemoryLogger = Some m' \<and>
     mem_Query (\<lambda>_. None) (\<lambda>_. None) m' (zero_filter\<lparr>qf_EventID := ''u1'', qf_Limit := 1\<rparr>)
       = [zero_event\<lparr>ev_ID := ''u1''\<rparr>]"
proof -
  have a: "assigned ''u1'' zero_event = zero_event\<lparr>ev_ID := ''u1''\<rparr>"
    by (simp add: assigned_def zero_event_def)
  show ?thesis
    using mem_log_roundtrip [OF mem_reachable.start, of "''u1''" zero_event "\<lambda>_. None" "\<lambda>_. None"] a
    by (auto simp: NewMemoryLogger_def)
qed

text \<open>Pages, counts and streams agree. For every filter with offset 0, the page \<open>Query\<close>
  returns is the beginning of the sequence \<open>Stream\<close> visits (timestamp descending, id
  ascending), of length the smaller of the clamped limit and \<open>Count\<close>, and an unfailing visit
  sees every matching event once.\<close>

theorem mem_page_is_stream_prefix:
  assumes "qf_Offset f = 0"
  shows "\<exists>evs. mset evs = filter_mset (matchesFilter pf marshal f) (mset (ml_events m)) \<and>
    sorted (map event_key evs) \<and>
    mem_Query pf marshal m f = take (nat (clamp_limit (qf_Limit f))) evs \<and>
    int (length (mem_Query pf marshal m f)) = min (clamp_limit (qf_Limit f)) (mem_Count pf marshal m f) \<and>
    mem_Stream pf marshal m (\<lambda>_. None) f (\<lambda>ev seen. (None, seen @ [ev])) [] = (None, evs)"
proof -
  let ?evs = "matchAll pf marshal m f"
  have "fold (\<lambda>ev a. a @ [ev]) xs ys = ys @ xs" for xs ys :: "event list"
    by (induction xs arbitrary: ys) auto
  then have "mem_Stream pf marshal m (\<lambda>_. None) f (\<lambda>ev seen. (None, seen @ [ev])) [] = (None, ?evs)"
    by (simp add: mem_Stream_def visit_all)
  moreover have "mset ?evs = filter_mset (matchesFilter pf marshal f) (mset (ml_events m))"
    by (simp add: matchAll_def mset_filter)
  moreover have "sorted (map event_key ?evs)" by (simp add: matchAll_def)
  ultimately show ?thesis
    using mem.query_length [OF assms] mem_Query_take by blast
qed

theorem mem_page_is_stream_prefix_witness:
  "\<exists>evs. mem_Query (\<lambda>_. None) (\<lambda>_. None)
      \<lparr>ml_events = [zero_event, zero_event\<lparr>ev_Timestamp := 7\<rparr>], ml_hub = empty_hub\<rparr> zero_filter
      = take (nat (clamp_limit 0)) evs \<and> sorted (map event_key evs)"
  using mem_page_is_stream_prefix [of zero_filter "\<lambda>_. None" "\<lambda>_. None"
      "\<lparr>ml_events = [zero_event, zero_event\<lparr>ev_Timestamp := 7\<rparr>], ml_hub = empty_hub\<rparr>"]
  by (auto simp: zero_filter_def)

section \<open>Aggregates are exact\<close>

definition in_bucket :: "duration \<Rightarrow> gotime \<Rightarrow> event list \<Rightarrow> event list" where
  "in_bucket bucket k es = filter (\<lambda>e. time_truncate (ev_Timestamp e) bucket = k) es"

lemma time_buckets_keys:
  "set (map fst (time_buckets bucket es)) = (\<lambda>e. time_truncate (ev_Timestamp e) bucket) ` set es"
  "distinct (map fst (time_buckets bucket es))"
  using bkt.keys_fold [of bucket es "[]"] bkt.distinct_fold [of "[]" bucket es]
  by (simp_all add: time_buckets_def)

lemma bucket_point_time [simp]: "tp_Time (bucket_point bs k) = k"
  by (simp add: bucket_point_def split: prod.splits)

lemma bucket_point_exact:
  assumes "k \<in> set (map fst (time_buckets bucket es))"
  defines "p \<equiv> bucket_point (time_buckets bucket es) k" and "xs \<equiv> in_bucket bucket k es"
  shows "xs \<noteq> [] \<and> tp_Count p = int (length xs) \<and> tp_Errors p = int (length (failures xs)) \<and>
    tp_AvgDurMS p * of_int (tp_Count p) = of_int (sum_list (map ev_DurationMS xs))"
proof -
  have ne: "xs \<noteq> []"
    using assms(1) unfolding time_buckets_keys by (auto simp: xs_def in_bucket_def filter_empty_conv)
  then have "map_of (time_buckets bucket es) k =
      Some (int (length xs), int (length (failures xs)), sum_list (map ev_DurationMS xs))"
    using bkt.lookup_fold [of bucket es k]
    by (simp add: time_buckets_def xs_def in_bucket_def Let_def fold_bucket_add)
  with ne show ?thesis by (simp add: p_def bucket_point_def)
qed

lemma time_buckets_total:
  "(\<Sum>k\<leftarrow>sort (map fst (time_buckets bucket es)). tp_Count (bucket_point (time_buckets bucket es) k)) =
     int (length es)"
proof -
  let ?ks = "sort (map fst (time_buckets bucket es))"
  have "(\<Sum>k\<leftarrow>?ks. tp_Count (bucket_point (time_buckets bucket es) k)) =
      (\<Sum>k\<leftarrow>?ks. int (length (in_bucket bucket k es)))"
    using bucket_point_exact [of _ bucket es] by (intro arg_cong [where f = sum_list] map_cong) simp_all
  also have "\<dots> = int (length es)"
    unfolding in_bucket_def using time_buckets_keys [of bucket es]
    by (intro sum_list_partition) simp_all
  finally show ?thesis .
qed

text \<open>The time series accounts for every event. With a positive bucket width the points
  are in strictly increasing order of bucket start, every start is a multiple of the width,
  each point counts exactly the events of the window that fall into its bucket (and the failed
  ones among them, and their average duration), and the counts add up to the number of events
  in the window.\<close>

theorem mem_timeseries_exact:
  assumes "0 < bucket" and "es = filter (in_window frm to) (ml_events m)"
  shows "sorted_wrt (<) (map tp_Time (mem_TimeSeries m frm to bucket)) \<and>
    (\<forall>p \<in> set (mem_TimeSeries m frm to bucket).
       bucket dvd tp_Time p \<and>
       in_bucket bucket (tp_Time p) es \<noteq> [] \<and>
       tp_Count p = int (length (in_bucket bucket (tp_Time p) es)) \<and>
       tp_Errors p = int (length (failures (in_bucket bucket (tp_Time p) es))) \<and>
       tp_AvgDurMS p * of_int (tp_Count p) =
         of_int (sum_list (map ev_DurationMS (in_bucket bucket (tp_Time p) es)))) \<and>
    sum_list (map tp_Count (mem_TimeSeries m frm to bucket)) = int (length es)"
proof -
  have ts: "mem_TimeSeries m frm to bucket =
      map (bucket_point (time_buckets bucket es)) (sort (map fst (time_buckets bucket es)))"
    using assms by (simp add: mem_TimeSeries_def Let_def)
  have "sorted_wrt (<) (sort (map fst (time_buckets bucket es)))"
    using time_buckets_keys(2) [of bucket es] by (simp add: strict_sorted_iff)
  then have order: "sorted_wrt (<) (map tp_Time (mem_TimeSeries m frm to bucket))"
    by (simp add: ts comp_def)
  have aligned: "bucket dvd k" if "k \<in> set (map fst (time_buckets bucket es))" for k
    using that assms(1) unfolding time_buckets_keys by (auto simp: time_truncate_dvd)
  show ?thesis
  proof (intro conjI ballI)
    fix p
    assume "p \<in> set (mem_TimeSeries m frm to bucket)"
    then obtain k where k: "k \<in> set (map fst (time_buckets bucket es))"
      and p: "p = bucket_point (time_buckets bucket es) k"
      unfolding ts by auto
    from p have "tp_Time p = k" by simp
    with bucket_point_exact [OF k, folded p] aligned [OF k]
    show "bucket dvd tp_Time p" "in_bucket bucket (tp_Time p) es \<noteq> []"
      "tp_Count p = int (length (in_bucket bucket (tp_Time p) es))"
      "tp_Errors p = int (length (failures (in_bucket bucket (tp_Time p) es)))"
      "tp_AvgDurMS p * of_int (tp_Count p) =
         of_int (sum_list (map ev_DurationMS (in_bucket bucket (tp_Time p) es)))"
      by metis+
  qed (use order time_buckets_total [of bucket es] in \<open>simp_all add: ts comp_def\<close>)
qed

theorem mem_timeseries_exact_witness:
  "sum_list (map tp_Count (mem_TimeSeries
      \<lparr>ml_events = [zero_event\<lparr>ev_Timestamp := 61\<rparr>, zero_event\<lparr>ev_Timestamp := 65\<rparr>], ml_hub = empty_hub\<rparr>
      0 0 10)) = 2"
  using mem_timeseries_exact [where bucket = 10 and frm = 0 and to = 0, OF _ refl, of "\<lparr>ml_events = [zero_event\<lparr>ev_Timestamp := 61\<rparr>, zero_event\<lparr>ev_Timestamp := 65\<rparr>], ml_hub = empty_hub\<rparr>"]
  by (simp add: in_window_def is_zero_time_def)


lemma breakdown_groups:
  "map_of (fold (group_event keyFn) es []) k =
    (let xs = filter (\<lambda>e. keyFn e = k) es in if xs = [] then None
     else Some \<lparr>bp_Key = k, bp_Count = int (length xs), bp_Errors = int (length (failures xs))\<rparr>)"
  using brk.lookup_fold [of keyFn es k] by (simp add: fold_group_add Let_def)

lemma breakdown_keys:
  "set (map fst (fold (group_event keyFn) es [])) = keyFn ` set es"
  "distinct (map fst (fold (group_event keyFn) es []))"
  using brk.keys_fold [of keyFn es "[]"] brk.distinct_fold [of "[]" keyFn es] by simp_all

lemma breakdown_point_exact:
  assumes "(k, g) \<in> set (fold (group_event keyFn) es [])"
  shows "filter (\<lambda>e. keyFn e = k) es \<noteq> [] \<and>
    g = \<lparr>bp_Key = k, bp_Count = int (length (filter (\<lambda>e. keyFn e = k) es)),
         bp_Errors = int (length (failures (filter (\<lambda>e. keyFn e = k) es)))\<rparr>"
proof -
  have "map_of (fold (group_event keyFn) es []) k = Some g"
    using assms breakdown_keys(2) by (metis map_of_is_SomeI)
  then show ?thesis by (simp add: breakdown_groups Let_def split: if_splits)
qed

lemma breakdown_point_in:
  assumes "g \<in> set (map snd (fold (group_event keyFn) es []))"
  shows "bp_Key g \<in> keyFn ` set es \<and>
    bp_Count g = int (length (filter (\<lambda>e. keyFn e = bp_Key g) es)) \<and>
    bp_Errors g = int (length (failures (filter (\<lambda>e. keyFn e = bp_Key g) es)))"
proof -
  obtain k where k: "(k, g) \<in> set (fold (group_event keyFn) es [])" using assms by auto
  then have "k \<in> keyFn ` set es" using breakdown_keys(1) [of keyFn es] by force
  with breakdown_point_exact [OF k] show ?thesis by simp
qed

lemma breakdown_total:
  "sum_list (map (bp_Count \<circ> snd) (fold (group_event keyFn) es [])) = int (length es)"
proof -
  let ?gs = "fold (group_event keyFn) es []"
  have "map (bp_Count \<circ> snd) ?gs = map ((\<lambda>k. int (length (filter (\<lambda>e. keyFn e = k) es))) \<circ> fst) ?gs"
    by (intro map_cong refl) (auto dest!: breakdown_point_exact)
  then show ?thesis
    using sum_list_partition [OF breakdown_keys(2), of keyFn es keyFn es] breakdown_keys(1) [of keyFn es]
    by (simp flip: map_map)
qed

lemma breakdown_bp_keys:
  "map (bp_Key \<circ> snd) (fold (group_event keyFn) es []) = map fst (fold (group_event keyFn) es [])"
  by (intro map_cong refl) (auto dest!: breakdown_point_exact)

text \<open>A breakdown partitions the window. For each known dimension the rows come in
  descending order of count, every key that occurs in the window has exactly one row, a row
  counts the events with its key and the failed ones among them, and the counts add up to the
  number of events in the window; an unknown dimension gives no rows.\<close>

theorem mem_breakdown_exact:
  "case breakdownKeyFn dimension of
     None \<Rightarrow> mem_Breakdown m frm to dimension = []
   | Some keyFn \<Rightarrow>
       (let es = filter (in_window frm to) (ml_events m); rows = mem_Breakdown m frm to dimension in
        sorted_wrt (\<ge>) (map bp_Count rows) \<and>
        distinct (map bp_Key rows) \<and> bp_Key ` set rows = keyFn ` set es \<and>
        list_all (\<lambda>g. bp_Count g = int (length (filter (\<lambda>e. keyFn e = bp_Key g) es)) \<and>
                      bp_Errors g = int (length (failures (filter (\<lambda>e. keyFn e = bp_Key g) es)))) rows \<and>
        sum_list (map bp_Count rows) = int (length es))"
proof (cases "breakdownKeyFn dimension")
  case None
  then show ?thesis by (simp add: mem_Breakdown_def)
next
  case (Some keyFn)
  let ?es = "filter (in_window frm to) (ml_events m)"
  let ?gs = "fold (group_event keyFn) ?es []"
  let ?rows = "mem_Breakdown m frm to dimension"
  have rows: "?rows = sort_key (\<lambda>g. - bp_Count g) (map snd ?gs)"
    using Some by (simp add: mem_Breakdown_def)
  have "sorted (map (\<lambda>g. - bp_Count g) ?rows)" unfolding rows by (rule sorted_sort_key)
  then have "sorted_wrt (\<ge>) (map bp_Count ?rows)" by (simp add: sorted_wrt_map)
  moreover have "mset ?rows = mset (map snd ?gs)" unfolding rows by simp
  then have ms: "mset (map bp_Key ?rows) = mset (map fst ?gs)"
      "mset (map bp_Count ?rows) = mset (map (bp_Count \<circ> snd) ?gs)"
    by (simp_all flip: breakdown_bp_keys multiset.map_comp add: mset_map image_mset.comp)
  have "distinct (map bp_Key ?rows)" using mset_eq_imp_distinct_iff [OF ms(1)] breakdown_keys(2) by blast
  moreover have "bp_Key ` set ?rows = keyFn ` set ?es"
    using mset_eq_setD [OF ms(1)] breakdown_keys(1) [of keyFn ?es] by simp
  moreover have "sum_list (map bp_Count ?rows) = int (length ?es)"
    using ms(2) breakdown_total [of keyFn ?es] by (metis sum_mset_sum_list)
  ultimately show ?thesis
    using Some breakdown_point_in [of _ keyFn ?es] by (simp add: Let_def list_all_iff rows)
qed

lemma sorted_percentiles:
  fixes ds :: "int list"
  assumes "sorted ds" and "ds \<noteq> []" and "length ds \<noteq> 2"
  shows "ds ! (length ds div 2) \<le> ds ! p95_index (length ds)"
proof -
  have "n div 2 \<le> 19 * (n - 1) div 20" if "n = 1 \<or> 3 \<le> n" for n :: nat
    using that by (auto simp: less_eq_div_iff_mult_less_eq)
  moreover have "length ds = 1 \<or> 3 \<le> length ds"
  proof -
    have "length ds \<noteq> 0" using assms(2) by simp
    then show ?thesis using assms(3) by linarith
  qed
  ultimately have "length ds div 2 \<le> p95_index (length ds)" unfolding p95_index_def by blast
  moreover have "p95_index (length ds) < length ds"
    using assms(2) unfolding p95_index_def by (cases ds) simp_all
  ultimately show ?thesis by (rule sorted_nth_mono [OF assms(1)])
qed

text \<open>The statistics are within their bounds. In every non-empty window errors do not
  exceed the total, the percentiles are durations of events of the window that bound it from
  both sides as an order statistic, and the median is at most the 95th percentile unless the
  window holds exactly two events.\<close>

theorem mem_stats_bounds:
  assumes "es = filter (in_window frm to) (ml_events m)" and "es \<noteq> []"
  shows "st_Total (mem_Stats m frm to) = int (length es) \<and>
    0 \<le> st_ErrorRate (mem_Stats m frm to) \<and> st_ErrorRate (mem_Stats m frm to) \<le> 1 \<and>
    st_P50DurationMS (mem_Stats m frm to) \<in> ev_DurationMS ` set es \<and>
    st_P95DurationMS (mem_Stats m frm to) \<in> ev_DurationMS ` set es \<and>
    (length es \<noteq> 2 \<longrightarrow> st_P50DurationMS (mem_Stats m frm to) \<le> st_P95DurationMS (mem_Stats m frm to))"
proof -
  let ?ds = "sort (map ev_DurationMS es)"
  have len: "length ?ds = length es" and ne: "?ds \<noteq> []" using assms(2) by simp_all (metis length_0_conv length_sort length_map)
  have idx: "length es div 2 < length es" "p95_index (length es) < length es"
    using assms(2) unfolding p95_index_def by (cases es; simp)+
  have "?ds ! i \<in> ev_DurationMS ` set es" if "i < length es" for i
    using that len by (metis list.set_map nth_mem set_sort)
  moreover have "int (length (failures es)) \<le> int (length es)" by simp
  ultimately show ?thesis
    using assms idx sorted_percentiles [of ?ds] ne
    by (simp add: mem_Stats_def Let_def)
qed

theorem mem_stats_bounds_witness:
  "st_P50DurationMS (mem_Stats \<lparr>ml_events = [zero_event\<lparr>ev_DurationMS := 4\<rparr>], ml_hub = empty_hub\<rparr> 0 0)
    \<in> {4}"
  using mem_stats_bounds [where frm = 0 and to = 0, OF refl, of
      "\<lparr>ml_events = [zero_event\<lparr>ev_DurationMS := 4\<rparr>], ml_hub = empty_hub\<rparr>"]
  by (simp add: in_window_def is_zero_time_def)

text \<open>With two events of different duration the reported 95th percentile is below the median.\<close>

lemma mem_stats_two_events:
  assumes "filter (in_window frm to) (ml_events m) = [e1, e2]" and "ev_DurationMS e1 < ev_DurationMS e2"
  shows "st_P95DurationMS (mem_Stats m frm to) = ev_DurationMS e1"
    and "st_P50DurationMS (mem_Stats m frm to) = ev_DurationMS e2"
  using assms by (simp_all add: mem_Stats_def Let_def p95_index_def)

end
