(* ===== verification/Audit_Postgres.thy ===== *)
theory Audit_Postgres
  imports Audit_Sql Audit_Memory
begin

text \<open>
  \<open>pkg/audit/postgres/store.go\<close>: the Postgres logger on top of the query compiler. The two
  tables of the migrations are lists of rows; the SQL statements the code sends are given
  their meaning on them (\<open>cond_holds\<close>, \<open>run_select\<close>, the inserts with their key and
  foreign-key constraints, the aggregates). A JSONB column holds the text it was given.
  \<open>json.Marshal\<close>, \<open>json.Unmarshal\<close>, the JSON value of a JSONB text and the time format are the
  fields of \<open>codec\<close>; connection failures are the argument \<open>io\<close> (what the n-th database call
  of an operation returns as error). \<open>timestamptz\<close> keeps microseconds.
\<close>

section \<open>Codec and tables\<close>

record codec =
  cd_marshal :: marshaler
  cd_unmarshal :: "string \<Rightarrow> goval option"
  cd_jsonb :: "string \<Rightarrow> goval option"
  cd_showtime :: "gotime \<Rightarrow> string"
  cd_parsetime :: "string \<Rightarrow> gotime option"

record event_row =
  er_event :: event
  er_params :: "string option"

record payload_row =
  pr_event_id :: string
  pr_jsonrpc_method :: string
  pr_request_params :: "string option"
  pr_request_size_bytes :: int
  pr_request_truncated :: bool
  pr_request_headers :: "string option"
  pr_request_remote_addr :: string
  pr_response_result :: "string option"
  pr_response_error :: "string option"
  pr_response_size_bytes :: int
  pr_response_truncated :: bool
  pr_notifications :: "string option"
  pr_notifications_truncated :: bool
  pr_replayed_from :: "string option"

record pg_db =
  db_events :: "event_row list"
  db_payloads :: "payload_row list"

definition pg_ts :: "gotime \<Rightarrow> gotime" where
  "pg_ts t = t - t mod 1000"

section \<open>JSON columns\<close>

definition isEmptyValue :: "goval \<Rightarrow> bool" where
  "isEmptyValue v = (case v of
     VMap m \<Rightarrow> m = [] | VNilMap \<Rightarrow> True | VSlice s \<Rightarrow> s = [] | VStr s \<Rightarrow> s = [] | VBytes b \<Rightarrow> b = []
   | _ \<Rightarrow> False)"

definition marshalJSONB :: "marshaler \<Rightarrow> goval \<Rightarrow> string option result" where
  "marshalJSONB marshal v =
     (if v = VNil then Inr None
      else if isEmptyValue v then Inr None
      else case marshal v of None \<Rightarrow> Inl (ErrMsg ''json'') | Some b \<Rightarrow> Inr (Some b))"

definition headers_val :: "header option \<Rightarrow> goval" where
  "headers_val h = (case h of None \<Rightarrow> VNilMap | Some h \<Rightarrow> VMap (map (\<lambda>(k, vs). (k, VSlice (map VStr vs))) h))"

definition notification_val :: "codec \<Rightarrow> notification \<Rightarrow> goval" where
  "notification_val cd n = VMap
     ([(''ts'', VStr (cd_showtime cd (nt_Timestamp n))), (''method'', VStr (nt_Method n))] @
      (case nt_Params n of None \<Rightarrow> [] | Some [] \<Rightarrow> [] | Some m \<Rightarrow> [(''params'', VMap m)]))"

definition notifications_val :: "codec \<Rightarrow> notification list \<Rightarrow> goval" where
  "notifications_val cd ns = VSlice (map (notification_val cd) ns)"

definition wrap_err :: "string \<Rightarrow> 'a result \<Rightarrow> 'a result" where
  "wrap_err msg r = (case r of Inl e \<Rightarrow> Inl (ErrMsg (msg @ '': '' @ err_text e)) | Inr x \<Rightarrow> Inr x)"

section \<open>Writing\<close>

definition has_event :: "pg_db \<Rightarrow> string \<Rightarrow> bool" where
  "has_event db i \<longleftrightarrow> i \<in> (ev_ID \<circ> er_event) ` set (db_events db)"

text \<open>\<open>INSERT INTO audit_events\<close>: the id is the primary key.\<close>

definition insert_event :: "event \<Rightarrow> string option \<Rightarrow> pg_db \<Rightarrow> pg_db result" where
  "insert_event ev params db =
     (if has_event db (ev_ID ev) then Inl (ErrMsg ''duplicate key'')
      else Inr (db\<lparr>db_events := db_events db @
        [\<lparr>er_event = ev\<lparr>ev_Timestamp := pg_ts (ev_Timestamp ev), ev_Parameters := None, ev_Payload := None\<rparr>,
          er_params = params\<rparr>]\<rparr>))"

text \<open>\<open>INSERT INTO audit_payloads\<close>: event id primary key and foreign key, \<open>replayed_from\<close> foreign key.\<close>

definition insert_payload_row :: "payload_row \<Rightarrow> pg_db \<Rightarrow> pg_db result" where
  "insert_payload_row r db =
     (if pr_event_id r \<in> pr_event_id ` set (db_payloads db) then Inl (ErrMsg ''duplicate key'')
      else if \<not> has_event db (pr_event_id r) then Inl (ErrMsg ''foreign key'')
      else if (case pr_replayed_from r of None \<Rightarrow> False | Some i \<Rightarrow> \<not> has_event db i) then Inl (ErrMsg ''foreign key'')
      else Inr (db\<lparr>db_payloads := db_payloads db @ [r]\<rparr>))"

definition mk_payload_row ::
  "string \<Rightarrow> payload \<Rightarrow> string option \<Rightarrow> string option \<Rightarrow> string option \<Rightarrow> string option \<Rightarrow> string option
    \<Rightarrow> payload_row" where
  "mk_payload_row eventID p requestParams requestHeaders responseResult responseError notifications =
     \<lparr>pr_event_id = eventID, pr_jsonrpc_method = pl_JSONRPCMethod p,
      pr_request_params = requestParams, pr_request_size_bytes = pl_RequestSizeBytes p,
      pr_request_truncated = pl_RequestTruncated p, pr_request_headers = requestHeaders,
      pr_request_remote_addr = pl_RequestRemoteAddr p, pr_response_result = responseResult,
      pr_response_error = responseError, pr_response_size_bytes = pl_ResponseSizeBytes p,
      pr_response_truncated = pl_ResponseTruncated p, pr_notifications = notifications,
      pr_notifications_truncated = pl_NotificationsTruncated p,
      pr_replayed_from = (if pl_ReplayedFrom p \<noteq> [] then Some (pl_ReplayedFrom p) else None)\<rparr>"

definition insertPayload ::
  "codec \<Rightarrow> goerr option \<Rightarrow> string \<Rightarrow> payload \<Rightarrow> pg_db \<Rightarrow> pg_db result" where
  "insertPayload cd io eventID p db =
     rbind (wrap_err ''marshal request_params'' (marshalJSONB (cd_marshal cd) (box_map (pl_RequestParams p)))) (\<lambda>requestParams.
     rbind (wrap_err ''marshal request_headers'' (marshalJSONB (cd_marshal cd) (headers_val (pl_RequestHeaders p)))) (\<lambda>requestHeaders.
     rbind (wrap_err ''marshal response_result'' (marshalJSONB (cd_marshal cd) (box_map (pl_ResponseResult p)))) (\<lambda>responseResult.
     rbind (wrap_err ''marshal response_error'' (marshalJSONB (cd_marshal cd) (box_map (pl_ResponseError p)))) (\<lambda>responseError.
     rbind (wrap_err ''marshal notifications'' (marshalJSONB (cd_marshal cd) (notifications_val cd (pl_Notifications p)))) (\<lambda>notifications.
     wrap_err ''insert audit payload'' (rcheck io (insert_payload_row
       (mk_payload_row eventID p requestParams requestHeaders responseResult responseError notifications) db)))))))"

text \<open>The statements of one \<open>Log\<close> run in a transaction on a copy; only the commit publishes it.\<close>

definition pg_tx :: "codec \<Rightarrow> (nat \<Rightarrow> goerr option) \<Rightarrow> event \<Rightarrow> pg_db \<Rightarrow> pg_db result" where
  "pg_tx cd io ev db =
     rbind (case ev_Parameters ev of
              None \<Rightarrow> Inr None
            | Some m \<Rightarrow> (case cd_marshal cd (VMap m) of
                None \<Rightarrow> Inl (ErrMsg ''marshal parameters: json'') | Some b \<Rightarrow> Inr (Some b))) (\<lambda>paramsJSON.
     rbind (wrap_err ''begin tx'' (rcheck (io 0) (Inr db))) (\<lambda>tx.
     rbind (wrap_err ''insert audit event'' (rcheck (io 1) (insert_event ev paramsJSON tx))) (\<lambda>tx.
     rbind (case ev_Payload ev of None \<Rightarrow> Inr tx | Some p \<Rightarrow> insertPayload cd (io 2) (ev_ID ev) p tx) (\<lambda>tx.
     wrap_err ''commit audit event'' (rcheck (io 3) (Inr tx))))))"

definition pg_Log ::
  "codec \<Rightarrow> (nat \<Rightarrow> goerr option) \<Rightarrow> string \<Rightarrow> event \<Rightarrow> pg_db \<Rightarrow> goerr option \<times> pg_db" where
  "pg_Log cd io uid ev db =
     (let ev = (if ev_ID ev = [] then ev\<lparr>ev_ID := uid\<rparr> else ev)
      in case pg_tx cd io ev db of Inl e \<Rightarrow> (Some e, db) | Inr db' \<Rightarrow> (None, db'))"

section \<open>Reading rows\<close>

definition scanEvent :: "codec \<Rightarrow> event_row \<Rightarrow> event" where
  "scanEvent cd r = (case er_params r of
     None \<Rightarrow> er_event r
   | Some b \<Rightarrow>
       if b = [] then er_event r
       else (case cd_unmarshal cd b of
               Some (VMap m) \<Rightarrow> (er_event r)\<lparr>ev_Parameters := Some m\<rparr>
             | _ \<Rightarrow> er_event r))"

text \<open>\<open>unmarshalCol\<close> per destination type; a column that does not decode leaves the field empty.\<close>

definition unmarshal_map_col :: "codec \<Rightarrow> string option \<Rightarrow> gomap" where
  "unmarshal_map_col cd b = (case b of
     None \<Rightarrow> None
   | Some b \<Rightarrow> (case cd_unmarshal cd b of Some (VMap m) \<Rightarrow> Some m | _ \<Rightarrow> None))"

definition as_strings :: "goval \<Rightarrow> string list option" where
  "as_strings v = (case v of
     VSlice xs \<Rightarrow> (if list_all (\<lambda>x. case x of VStr _ \<Rightarrow> True | _ \<Rightarrow> False) xs
       then Some (map (\<lambda>x. as_string (Some x)) xs) else None)
   | _ \<Rightarrow> None)"

definition unmarshal_headers_col :: "codec \<Rightarrow> string option \<Rightarrow> header option" where
  "unmarshal_headers_col cd b = (case b of
     None \<Rightarrow> None
   | Some b \<Rightarrow> (case cd_unmarshal cd b of
       Some (VMap m) \<Rightarrow> (if list_all (\<lambda>(k, v). as_strings v \<noteq> None) m
         then Some (map (\<lambda>(k, v). (k, the (as_strings v))) m) else None)
     | _ \<Rightarrow> None))"

definition as_notification :: "codec \<Rightarrow> goval \<Rightarrow> notification option" where
  "as_notification cd v = (case v of
     VMap m \<Rightarrow>
       (case cd_parsetime cd (as_string (map_of m ''ts'')) of
          None \<Rightarrow> None
        | Some t \<Rightarrow> Some \<lparr>nt_Timestamp = t, nt_Method = as_string (map_of m ''method''),
            nt_Params = (case map_of m ''params'' of Some (VMap p) \<Rightarrow> Some p | _ \<Rightarrow> None)\<rparr>)
   | _ \<Rightarrow> None)"

definition unmarshal_notifications_col :: "codec \<Rightarrow> string option \<Rightarrow> notification list" where
  "unmarshal_notifications_col cd b = (case b of
     None \<Rightarrow> []
   | Some b \<Rightarrow> (case cd_unmarshal cd b of
       Some (VSlice xs) \<Rightarrow> (if list_all (\<lambda>x. as_notification cd x \<noteq> None) xs
         then map (\<lambda>x. the (as_notification cd x)) xs else [])
     | _ \<Rightarrow> []))"

definition payload_of_row :: "codec \<Rightarrow> payload_row \<Rightarrow> payload" where
  "payload_of_row cd r =
     \<lparr>pl_JSONRPCMethod = pr_jsonrpc_method r,
      pl_RequestParams = unmarshal_map_col cd (pr_request_params r),
      pl_RequestSizeBytes = pr_request_size_bytes r, pl_RequestTruncated = pr_request_truncated r,
      pl_RequestHeaders = unmarshal_headers_col cd (pr_request_headers r),
      pl_RequestRemoteAddr = pr_request_remote_addr r,
      pl_ResponseResult = unmarshal_map_col cd (pr_response_result r),
      pl_ResponseError = unmarshal_map_col cd (pr_response_error r),
      pl_ResponseSizeBytes = pr_response_size_bytes r, pl_ResponseTruncated = pr_response_truncated r,
      pl_Notifications = unmarshal_notifications_col cd (pr_notifications r),
      pl_NotificationsTruncated = pr_notifications_truncated r,
      pl_ReplayedFrom = (case pr_replayed_from r of None \<Rightarrow> [] | Some i \<Rightarrow> i)\<rparr>"

definition pg_GetPayload ::
  "codec \<Rightarrow> goerr option \<Rightarrow> pg_db \<Rightarrow> string \<Rightarrow> payload option result" where
  "pg_GetPayload cd io db eventID =
     rcheck io (Inr (map_option (payload_of_row cd) (find (\<lambda>r. pr_event_id r = eventID) (db_payloads db))))"

section \<open>Selecting rows\<close>

text \<open>JSONB scalars compare as JSON values, numbers by value; containment of objects and arrays
  is recursive. The top-level exception for arrays containing a scalar cannot apply: every
  column the filters name holds an object.\<close>

fun json_num :: "goval \<Rightarrow> rat option" where
  "json_num (VInt i) = Some (of_int i)"
| "json_num (VFloat (Fin r)) = Some r"
| "json_num _ = None"

definition jsonb_scalar_eq :: "goval \<Rightarrow> goval \<Rightarrow> bool" where
  "jsonb_scalar_eq a b = (case (a, b) of
     (VNil, VNil) \<Rightarrow> True
   | (VBool x, VBool y) \<Rightarrow> x = y
   | (VStr x, VStr y) \<Rightarrow> x = y
   | _ \<Rightarrow> json_num a \<noteq> None \<and> json_num a = json_num b)"

fun jsonb_contains :: "goval \<Rightarrow> goval \<Rightarrow> bool" where
  "jsonb_contains a (VMap c) = (case a of
     VMap m \<Rightarrow> (\<forall>(k, v) \<in> set c. case map_of m k of None \<Rightarrow> False | Some w \<Rightarrow> jsonb_contains w v)
   | _ \<Rightarrow> False)"
| "jsonb_contains a (VSlice ys) = (case a of
     VSlice xs \<Rightarrow> (\<forall>y \<in> set ys. \<exists>x \<in> set xs. jsonb_contains x y)
   | _ \<Rightarrow> False)"
| "jsonb_contains a b = jsonb_scalar_eq a b"

definition payload_column :: "payload_row \<Rightarrow> string \<Rightarrow> string option" where
  "payload_column p col =
     (if col = ''request_params'' then pr_request_params p
      else if col = ''request_headers'' then pr_request_headers p
      else if col = ''response_result'' then pr_response_result p
      else if col = ''response_error'' then pr_response_error p
      else if col = ''notifications'' then pr_notifications p
      else if col = ''replayed_from'' then pr_replayed_from p
      else None)"

definition column_contains :: "codec \<Rightarrow> string option \<Rightarrow> sqlarg \<Rightarrow> bool" where
  "column_contains cd c a = (case (c, a) of
     (Some b, AStr doc) \<Rightarrow>
       (case (cd_jsonb cd b, cd_jsonb cd doc) of (Some v, Some w) \<Rightarrow> jsonb_contains v w | _ \<Rightarrow> False)
   | _ \<Rightarrow> False)"

definition ilike :: "sqlarg \<Rightarrow> string \<Rightarrow> bool" where
  "ilike a t = (case a of AStr p \<Rightarrow> like_match (to_lower p) (to_lower t) | _ \<Rightarrow> False)"

definition arg :: "sqlarg list \<Rightarrow> nat \<Rightarrow> sqlarg" where
  "arg args i = args ! (i - 1)"

fun cond_holds :: "codec \<Rightarrow> payload_row list \<Rightarrow> sqlarg list \<Rightarrow> event \<Rightarrow> cond \<Rightarrow> bool" where
  "cond_holds cd ps args e (TsGe i) = (case arg args i of ATime t \<Rightarrow> ev_Timestamp e \<ge> pg_ts t | _ \<Rightarrow> False)"
| "cond_holds cd ps args e (TsLe i) = (case arg args i of ATime t \<Rightarrow> ev_Timestamp e \<le> pg_ts t | _ \<Rightarrow> False)"
| "cond_holds cd ps args e (ToolEq i) = (arg args i = AStr (ev_ToolName e))"
| "cond_holds cd ps args e (UserEq i) = (arg args i = AStr (ev_UserSubject e))"
| "cond_holds cd ps args e (SessionEq i) = (arg args i = AStr (ev_SessionID e))"
| "cond_holds cd ps args e (IdEq i) = (arg args i = AStr (ev_ID e))"
| "cond_holds cd ps args e (SuccessEq i) = (arg args i = ABool (ev_Success e))"
| "cond_holds cd ps args e (SearchLike i j k) =
     (ilike (arg args i) (ev_ToolName e) \<or> ilike (arg args j) (ev_ErrorMessage e) \<or>
      ilike (arg args k) (ev_UserSubject e))"
| "cond_holds cd ps args e (JsonContains col i) =
     list_ex (\<lambda>p. pr_event_id p = ev_ID e \<and> column_contains cd (payload_column p col) (arg args i)) ps"
| "cond_holds cd ps args e (HasKey k) =
     list_ex (\<lambda>p. pr_event_id p = ev_ID e \<and>
       (case payload_column p k of None \<Rightarrow> False
        | Some t \<Rightarrow> t \<notin> {''{}'', ''[]'', ''null'', ''''})) ps"

definition select_rows :: "codec \<Rightarrow> pg_db \<Rightarrow> cond list \<Rightarrow> sqlarg list \<Rightarrow> event_row list" where
  "select_rows cd db conds args =
     sort_key (event_key \<circ> er_event)
       (filter (\<lambda>r. list_all (cond_holds cd (db_payloads db) args (er_event r)) conds) (db_events db))"

definition run_page :: "codec \<Rightarrow> pg_db \<Rightarrow> select \<Rightarrow> sqlarg list \<Rightarrow> event_row list result" where
  "run_page cd db sel args = (case sel of
     SelPage conds i j \<Rightarrow>
       (case (arg args i, arg args j) of
          (AInt limit, AInt offset) \<Rightarrow>
            if offset < 0 then Inl (ErrMsg ''OFFSET must not be negative'')
            else Inr (take (nat limit) (drop (nat offset) (select_rows cd db conds args)))
        | _ \<Rightarrow> Inl (ErrMsg ''argument type''))
   | SelCount conds \<Rightarrow> Inl (ErrMsg ''result type''))"

definition run_count :: "codec \<Rightarrow> pg_db \<Rightarrow> select \<Rightarrow> sqlarg list \<Rightarrow> int result" where
  "run_count cd db sel args = (case sel of
     SelCount conds \<Rightarrow> Inr (int (length (select_rows cd db conds args)))
   | SelPage conds i j \<Rightarrow> Inl (ErrMsg ''result type''))"

section \<open>Queries\<close>

definition pg_Query ::
  "float_parser \<Rightarrow> codec \<Rightarrow> goerr option \<Rightarrow> pg_db \<Rightarrow> query_filter \<Rightarrow> event list result" where
  "pg_Query pf cd io db f =
     (let (q, args) = buildSelect pf (cd_marshal cd) f False
      in rcheck io (rbind (run_page cd db q args) (\<lambda>rows. Inr (map (scanEvent cd) rows))))"

definition pg_Count ::
  "float_parser \<Rightarrow> codec \<Rightarrow> goerr option \<Rightarrow> pg_db \<Rightarrow> query_filter \<Rightarrow> int result" where
  "pg_Count pf cd io db f =
     (let (q, args) = buildSelect pf (cd_marshal cd) f True
      in rcheck io (run_count cd db q args))"

text \<open>The page loop of \<open>Stream\<close>. Page \<open>n\<close> sees the database as it is then, \<open>dbs n\<close>; a table that
  keeps growing may keep the loop going, so not returning is the value \<open>None\<close>.\<close>

partial_function (option) stream_pages ::
  "float_parser \<Rightarrow> codec \<Rightarrow> (nat \<Rightarrow> goerr option) \<Rightarrow> (nat \<Rightarrow> goerr option) \<Rightarrow> (nat \<Rightarrow> pg_db) \<Rightarrow>
   (event \<Rightarrow> 'a \<Rightarrow> goerr option \<times> 'a) \<Rightarrow> nat \<Rightarrow> query_filter \<Rightarrow> 'a \<Rightarrow> (goerr option \<times> 'a) option" where
  "stream_pages pf cd ctxErr io dbs fn n page acc =
     (case ctxErr n of Some e \<Rightarrow> Some (Some e, acc)
      | None \<Rightarrow>
          (case pg_Query pf cd (io n) (dbs n) page of
             Inl e \<Rightarrow> Some (Some e, acc)
           | Inr evs \<Rightarrow>
               (case visit (\<lambda>_. None) 0 fn evs acc of
                  (Some e, acc') \<Rightarrow> Some (Some e, acc')
                | (None, acc') \<Rightarrow>
                    if int (length evs) < MaxQueryLimit then Some (None, acc')
                    else stream_pages pf cd ctxErr io dbs fn (Suc n)
                      (page\<lparr>qf_Offset := qf_Offset page + MaxQueryLimit\<rparr>) acc')))"

definition pg_Stream ::
  "float_parser \<Rightarrow> codec \<Rightarrow> (nat \<Rightarrow> goerr option) \<Rightarrow> (nat \<Rightarrow> goerr option) \<Rightarrow> (nat \<Rightarrow> pg_db) \<Rightarrow>
   query_filter \<Rightarrow> (event \<Rightarrow> 'a \<Rightarrow> goerr option \<times> 'a) \<Rightarrow> 'a \<Rightarrow> (goerr option \<times> 'a) option" where
  "pg_Stream pf cd ctxErr io dbs f fn acc =
     stream_pages pf cd ctxErr io dbs fn 0 (f\<lparr>qf_Limit := MaxQueryLimit, qf_Offset := 0\<rparr>) acc"

section \<open>Aggregates\<close>

definition pg_window :: "gotime \<Rightarrow> gotime \<Rightarrow> pg_db \<Rightarrow> event list" where
  "pg_window frm to db = filter (\<lambda>e.
     (case nullableTime frm of ATime t \<Rightarrow> ev_Timestamp e \<ge> pg_ts t | _ \<Rightarrow> True) \<and>
     (case nullableTime to of ATime t \<Rightarrow> ev_Timestamp e \<le> pg_ts t | _ \<Rightarrow> True)) (map er_event (db_events db))"

abbreviation maxTimeSeriesBuckets :: int where "maxTimeSeriesBuckets \<equiv> 5000"

text \<open>The instant 1970-01-01, from which Postgres counts the epoch of a timestamp; the bucket
  arithmetic is exact here, on nanoseconds.\<close>

definition pg_bucket :: "duration \<Rightarrow> gotime \<Rightarrow> gotime" where
  "pg_bucket bucket t = unix_epoch + (t - unix_epoch) div bucket * bucket"

definition avg_ms :: "event list \<Rightarrow> rat" where
  "avg_ms es = (if es = [] then 0 else of_int (sum_list (map ev_DurationMS es)) / of_nat (length es))"

definition pg_point :: "duration \<Rightarrow> event list \<Rightarrow> gotime \<Rightarrow> time_point" where
  "pg_point bucket es k = (let xs = filter (\<lambda>e. pg_bucket bucket (ev_Timestamp e) = k) es in
     \<lparr>tp_Time = k, tp_Count = int (length xs), tp_Errors = int (length (failures xs)), tp_AvgDurMS = avg_ms xs\<rparr>)"

definition pg_TimeSeries ::
  "goerr option \<Rightarrow> pg_db \<Rightarrow> gotime \<Rightarrow> gotime \<Rightarrow> duration \<Rightarrow> time_point list result" where
  "pg_TimeSeries io db frm to bucket =
     (let bucket = (if bucket \<le> 0 then minute else bucket);
          span = time_sub to frm
      in if \<not> is_zero_time frm \<and> \<not> is_zero_time to \<and> span > 0 \<and> bucket > 0 \<and>
            span div bucket > maxTimeSeriesBuckets
         then Inl (ErrMsg ''requested time series exceeds 5000 buckets'')
         else rcheck io
           (let es = pg_window frm to db
            in Inr (map (pg_point bucket es) (sort (remdups (map (\<lambda>e. pg_bucket bucket (ev_Timestamp e)) es))))))"

definition column_value :: "string \<Rightarrow> event \<Rightarrow> string" where
  "column_value col e =
     (if col = ''tool_name'' then ev_ToolName e
      else if col = ''user_subject'' then ev_UserSubject e
      else if col = ''auth_type'' then ev_AuthType e
      else if ev_Success e then ''success'' else ''error'')"

definition pg_Breakdown ::
  "goerr option \<Rightarrow> pg_db \<Rightarrow> gotime \<Rightarrow> gotime \<Rightarrow> string \<Rightarrow> breakdown_point list result" where
  "pg_Breakdown io db frm to dimension =
     (let col = breakdownColumn dimension
      in if col = [] then Inr []
         else rcheck io
           (let es = pg_window frm to db;
                row = (\<lambda>k. let xs = filter (\<lambda>e. column_value col e = k) es in
                  \<lparr>bp_Key = k, bp_Count = int (length xs), bp_Errors = int (length (failures xs))\<rparr>)
            in Inr (take 50 (sort_key (\<lambda>g. - bp_Count g) (map row (remdups (map (column_value col) es)))))))"

text \<open>\<open>percentile_cont\<close> interpolates between the two neighbouring values; the cast to \<open>bigint\<close>
  rounds to the nearest integer, ties to even.\<close>

definition percentile_cont :: "rat \<Rightarrow> int list \<Rightarrow> rat" where
  "percentile_cont p xs =
     (let pos = p * of_nat (length xs - 1);
          lo = nat \<lfloor>pos\<rfloor>; hi = nat \<lceil>pos\<rceil>
      in of_int (xs ! lo) + (pos - of_nat lo) * (of_int (xs ! hi) - of_int (xs ! lo)))"

definition round_even :: "rat \<Rightarrow> int" where
  "round_even r = (let f = \<lfloor>r\<rfloor>; d = r - of_int f in
     if d < 1/2 then f else if d > 1/2 then f + 1 else if even f then f else f + 1)"

definition pg_Stats :: "goerr option \<Rightarrow> pg_db \<Rightarrow> gotime \<Rightarrow> gotime \<Rightarrow> stats result" where
  "pg_Stats io db frm to = rcheck io
     (let es = pg_window frm to db;
          ds = sort (map ev_DurationMS es);
          total = int (length es);
          errs = int (length (failures es))
      in Inr \<lparr>st_Total = total, st_Errors = errs,
         st_ErrorRate = (if total > 0 then of_int errs / of_int total else 0),
         st_AvgDurationMS = avg_ms es,
         st_P50DurationMS = (if es = [] then 0 else round_even (percentile_cont (1/2) ds)),
         st_P95DurationMS = (if es = [] then 0 else round_even (percentile_cont (95/100) ds)),
         st_UniqueSubjects = int (length (remdups (filter (\<lambda>s. s \<noteq> []) (map ev_UserSubject es)))),
         st_UniqueTools = int (length (remdups (map ev_ToolName es)))\<rparr>)"

section \<open>What a compiled filter selects\<close>

definition pg_matches ::
  "float_parser \<Rightarrow> codec \<Rightarrow> pg_db \<Rightarrow> query_filter \<Rightarrow> event \<Rightarrow> bool" where
  "pg_matches pf cd db f e = (let b = bd_filter pf (cd_marshal cd) f in
     list_all (cond_holds cd (db_payloads db) (bd_args b) e) (bd_conds b))"

abbreviation bd_sem :: "codec \<Rightarrow> payload_row list \<Rightarrow> event \<Rightarrow> sql_build \<Rightarrow> bool" where
  "bd_sem cd ps e b \<equiv> list_all (cond_holds cd ps (bd_args b) e) (bd_conds b)"

lemma cond_holds_args:
  assumes "\<And>i. i \<in> set (cond_phs c) \<Longrightarrow> arg args i = arg args' i"
  shows "cond_holds cd ps args e c = cond_holds cd ps args' e c"
  using assms by (cases c) simp_all

text \<open>Binding further arguments does not change what the earlier conditions mean.\<close>

lemma cond_holds_more:
  assumes "bd_ok b" and "c \<in> set (bd_conds b)"
  shows "cond_holds cd ps (bd_args b @ extra) e c = cond_holds cd ps (bd_args b) e c"
proof (rule cond_holds_args)
  fix i
  assume "i \<in> set (cond_phs c)"
  with assms(2) have "i \<in> set (concat (map cond_phs (bd_conds b)))" by auto
  with assms(1) have "1 \<le> i" "i \<le> length (bd_args b)" by (auto simp: bd_ok_def)
  then show "arg (bd_args b @ extra) i = arg (bd_args b) i" by (auto simp: arg_def nth_append)
qed

lemma bd_sem_more:
  "bd_ok b \<Longrightarrow> list_all (cond_holds cd ps (bd_args b @ extra) e) (bd_conds b) = bd_sem cd ps e b"
  by (auto simp: list_all_iff cond_holds_more)

lemma bd_sem_add:
  assumes "bd_ok b"
  shows "bd_sem cd ps e (bd_add c mk v b) \<longleftrightarrow>
    bd_sem cd ps e b \<and> (c \<longrightarrow> cond_holds cd ps (bd_args b @ [v]) e (mk (bd_i b)))"
  using bd_sem_more [OF assms, of cd ps "[v]" e] by (simp add: bd_add_def)

lemma arg_last: "bd_ok b \<Longrightarrow> arg (bd_args b @ v # vs) (bd_i b) = v"
  by (simp add: bd_ok_def arg_def nth_append)

definition scalars_hold :: "query_filter \<Rightarrow> event \<Rightarrow> bool" where
  "scalars_hold f e \<longleftrightarrow>
     (is_zero_time (qf_From f) \<or> pg_ts (qf_From f) \<le> ev_Timestamp e) \<and>
     (is_zero_time (qf_To f) \<or> ev_Timestamp e \<le> pg_ts (qf_To f)) \<and>
     (qf_ToolName f = [] \<or> ev_ToolName e = qf_ToolName f) \<and>
     (qf_UserID f = [] \<or> ev_UserSubject e = qf_UserID f) \<and>
     (qf_SessionID f = [] \<or> ev_SessionID e = qf_SessionID f) \<and>
     (qf_EventID f = [] \<or> ev_ID e = qf_EventID f) \<and>
     (qf_Success f = None \<or> qf_Success f = Some (ev_Success e))"

lemma bd_scalars_ok: "bd_ok (bd_scalars f bd_init)"
  unfolding bd_scalars_def Let_def by (intro bd_ok_add) (simp_all add: bd_ok_def bd_init_def)

lemma bd_init_ok: "bd_ok bd_init"
  by (simp add: bd_ok_def bd_init_def)

lemma bd_sem_scalars: "bd_sem cd ps e (bd_scalars f bd_init) \<longleftrightarrow> scalars_hold f e"
proof -
  have "bd_sem cd ps e bd_init" by (simp add: bd_init_def)
  then show ?thesis
    by (cases "qf_Success f") (simp_all add: bd_scalars_def Let_def bd_sem_add bd_ok_add bd_init_ok arg_last scalars_hold_def
        disj_imp eq_commute [where b = "_ (e :: event)"])
qed

definition search_holds :: "string \<Rightarrow> event \<Rightarrow> bool" where
  "search_holds s e \<longleftrightarrow> s = [] \<or>
     (let pat = AStr (''%'' @ escapeLike s @ ''%'')
      in ilike pat (ev_ToolName e) \<or> ilike pat (ev_ErrorMessage e) \<or> ilike pat (ev_UserSubject e))"

definition json_holds ::
  "float_parser \<Rightarrow> codec \<Rightarrow> payload_row list \<Rightarrow> event \<Rightarrow> json_path_filter \<Rightarrow> bool" where
  "json_holds pf cd ps e jf =
     (let col = jsonFilterColumn (jf_Source jf)
      in col = [] \<or> (case json_filter_doc pf jf of
           None \<Rightarrow> True
         | Some doc \<Rightarrow> (case cd_marshal cd doc of
             None \<Rightarrow> True
           | Some s \<Rightarrow> list_ex (\<lambda>p. pr_event_id p = ev_ID e \<and>
               column_contains cd (payload_column p col) (AStr s)) ps)))"

definition has_holds :: "payload_row list \<Rightarrow> event \<Rightarrow> string \<Rightarrow> bool" where
  "has_holds ps e k \<longleftrightarrow> IsAllowedHasKey k \<longrightarrow>
     list_ex (\<lambda>p. pr_event_id p = ev_ID e \<and> (case payload_column p k of None \<Rightarrow> False
       | Some t \<Rightarrow> t \<notin> {''{}'', ''[]'', ''null'', ''''})) ps"

lemma bd_sem_search:
  assumes "bd_ok b"
  shows "bd_sem cd ps e (bd_search s b) \<longleftrightarrow> bd_sem cd ps e b \<and> search_holds s e"
proof -
  have "arg (bd_args b @ [v, v, v]) i = v" if "i \<in> {bd_i b, bd_i b + 1, bd_i b + 2}" for i v
    using that assms by (auto simp: arg_def bd_ok_def nth_append nth_Cons')
  then show ?thesis
    using bd_sem_more [OF assms] by (simp add: bd_search_def search_holds_def Let_def)
qed

lemma bd_sem_json:
  assumes "bd_ok b"
  shows "bd_sem cd ps e (bd_json pf (cd_marshal cd) jf b) \<longleftrightarrow> bd_sem cd ps e b \<and> json_holds pf cd ps e jf"
  using bd_sem_more [OF assms] assms
  by (simp add: bd_json_def json_holds_def Let_def arg_last split: option.splits)

lemma bd_sem_jsons:
  "bd_ok b \<Longrightarrow> bd_sem cd ps e (fold (bd_json pf (cd_marshal cd)) jfs b) \<longleftrightarrow>
     bd_sem cd ps e b \<and> list_all (json_holds pf cd ps e) jfs"
  by (induction jfs arbitrary: b) (auto simp: bd_sem_json bd_ok_json)

lemma pg_matches_iff:
  "pg_matches pf cd db f e \<longleftrightarrow> scalars_hold f e \<and> search_holds (qf_Search f) e \<and>
     list_all (json_holds pf cd (db_payloads db) e) (qf_JSONFilters f) \<and>
     list_all (has_holds (db_payloads db) e) (qf_HasKeys f)"
proof -
  let ?b = "fold (bd_json pf (cd_marshal cd)) (qf_JSONFilters f) (bd_search (qf_Search f) (bd_scalars f bd_init))"
  have b: "bd_filter pf (cd_marshal cd) f = fold bd_has (qf_HasKeys f) ?b"
    by (simp add: bd_filter_def Let_def)
  have "list_all P (map HasKey (filter IsAllowedHasKey ks)) = list_all (\<lambda>k. IsAllowedHasKey k \<longrightarrow> P (HasKey k)) ks"
    for P ks by (induction ks) auto
  then have "bd_sem cd (db_payloads db) e (fold bd_has ks b') \<longleftrightarrow>
      bd_sem cd (db_payloads db) e b' \<and> list_all (has_holds (db_payloads db) e) ks" for ks b'
    by (simp add: fold_bd_has has_holds_def [abs_def])
  then show ?thesis
    unfolding pg_matches_def Let_def b
    by (simp add: bd_sem_jsons bd_ok_search bd_scalars_ok bd_sem_search bd_sem_scalars conj_ac)
qed

section \<open>The Postgres logger is an audit backend\<close>

lemma scanEvent_fields [simp]:
  "ev_ID (scanEvent cd r) = ev_ID (er_event r)"
  "ev_Timestamp (scanEvent cd r) = ev_Timestamp (er_event r)"
  "event_key (scanEvent cd r) = event_key (er_event r)"
  "ev_ToolName (scanEvent cd r) = ev_ToolName (er_event r)"
  "ev_UserSubject (scanEvent cd r) = ev_UserSubject (er_event r)"
  "ev_SessionID (scanEvent cd r) = ev_SessionID (er_event r)"
  "ev_Success (scanEvent cd r) = ev_Success (er_event r)"
  "ev_ErrorMessage (scanEvent cd r) = ev_ErrorMessage (er_event r)"
  by (simp_all add: scanEvent_def event_key_def split: option.splits goval.splits)

lemma cond_holds_scan: "cond_holds cd ps args (scanEvent cd' r) c = cond_holds cd ps args (er_event r) c"
  by (cases c) (simp_all split: sqlarg.splits)

lemma pg_matches_scan: "pg_matches pf cd db f (scanEvent cd' r) = pg_matches pf cd db f (er_event r)"
  by (simp add: pg_matches_def Let_def cond_holds_scan [abs_def])

lemma select_filter_rows:
  "select_rows cd db (bd_conds (bd_filter pf (cd_marshal cd) f)) (bd_args (bd_filter pf (cd_marshal cd) f) @ extra) =
     sort_key (event_key \<circ> er_event) (filter (\<lambda>r. pg_matches pf cd db f (er_event r)) (db_events db))"
  using bd_sem_more [OF bd_ok_filter] by (simp add: select_rows_def pg_matches_def Let_def)

definition pg_events :: "codec \<Rightarrow> pg_db \<Rightarrow> event list" where
  "pg_events cd db = map (scanEvent cd) (db_events db)"

definition pg_all :: "float_parser \<Rightarrow> codec \<Rightarrow> pg_db \<Rightarrow> query_filter \<Rightarrow> event list" where
  "pg_all pf cd db f = sort_key event_key (filter (pg_matches pf cd db f) (pg_events cd db))"

lemma pg_page:
  "map (scanEvent cd) (sort_key (event_key \<circ> er_event)
      (filter (\<lambda>r. pg_matches pf cd db f (er_event r)) (db_events db))) = pg_all pf cd db f"
proof -
  have "event_key \<circ> er_event = event_key \<circ> scanEvent cd" by (rule ext) simp
  then show ?thesis
    by (simp add: pg_all_def pg_events_def sort_key_map_comp filter_map comp_def pg_matches_scan)
qed

lemma pg_Query_eq:
  "pg_Query pf cd None db f =
     (if qf_Offset f < 0 then Inl (ErrMsg ''OFFSET must not be negative'')
      else Inr (take (nat (clamp_limit (qf_Limit f))) (drop (nat (qf_Offset f)) (pg_all pf cd db f))))"
proof -
  let ?b = "bd_filter pf (cd_marshal cd) f"
  have a: "arg (bd_args ?b @ [v, w]) (bd_i ?b) = v" "arg (bd_args ?b @ [v, w]) (Suc (bd_i ?b)) = w" for v w
    using bd_ok_filter [of pf "cd_marshal cd" f] by (simp_all add: arg_def bd_ok_def nth_append)
  show ?thesis
    unfolding pg_Query_def buildSelect_def clamp_limit_def Let_def
    by (simp add: run_page_def a select_filter_rows pg_page [symmetric] take_map drop_map)
qed

lemma pg_Count_eq: "pg_Count pf cd None db f = Inr (int (length (pg_all pf cd db f)))"
  using select_filter_rows [of cd db pf f "[]"]
  by (simp add: pg_Count_def buildSelect_def Let_def run_count_def pg_page [symmetric])

interpretation pg: audit_backend
  "\<lambda>db f. case pg_Query pf cd None db f of Inr es \<Rightarrow> es | Inl _ \<Rightarrow> []"
  "\<lambda>db f. case pg_Count pf cd None db f of Inr n \<Rightarrow> n | Inl _ \<Rightarrow> 0"
  "pg_events cd" "pg_matches pf cd" for pf cd
proof unfold_locales
  fix db f e
  show "pg_matches pf cd db f e \<Longrightarrow> qf_EventID f \<noteq> [] \<Longrightarrow> ev_ID e = qf_EventID f"
    by (simp add: pg_matches_iff scalars_hold_def)
  show "pg_matches pf cd db (zero_filter\<lparr>qf_EventID := ev_ID e, qf_Limit := 1\<rparr>) e"
    by (simp add: pg_matches_iff scalars_hold_def search_holds_def zero_filter_def is_zero_time_def)
qed (simp_all add: pg_Query_eq pg_Count_eq pg_all_def)

section \<open>Writing is atomic\<close>

definition db_ok :: "pg_db \<Rightarrow> bool" where
  "db_ok db \<longleftrightarrow> distinct (map (ev_ID \<circ> er_event) (db_events db)) \<and>
     distinct (map pr_event_id (db_payloads db)) \<and>
     (\<forall>r \<in> set (db_payloads db). has_event db (pr_event_id r) \<and>
        (\<forall>i. pr_replayed_from r = Some i \<longrightarrow> has_event db i))"

definition event_row_of :: "event \<Rightarrow> string option \<Rightarrow> event_row" where
  "event_row_of ev params =
     \<lparr>er_event = ev\<lparr>ev_Timestamp := pg_ts (ev_Timestamp ev), ev_Parameters := None, ev_Payload := None\<rparr>,
      er_params = params\<rparr>"

text \<open>A payload row holds the marshalled columns of its payload.\<close>

definition row_of_payload :: "codec \<Rightarrow> string \<Rightarrow> payload \<Rightarrow> payload_row \<Rightarrow> bool" where
  "row_of_payload cd i p r \<longleftrightarrow> pr_event_id r = i \<and> pr_jsonrpc_method r = pl_JSONRPCMethod p \<and>
     marshalJSONB (cd_marshal cd) (box_map (pl_RequestParams p)) = Inr (pr_request_params r) \<and>
     pr_request_size_bytes r = pl_RequestSizeBytes p \<and> pr_request_truncated r = pl_RequestTruncated p \<and>
     marshalJSONB (cd_marshal cd) (headers_val (pl_RequestHeaders p)) = Inr (pr_request_headers r) \<and>
     pr_request_remote_addr r = pl_RequestRemoteAddr p \<and>
     marshalJSONB (cd_marshal cd) (box_map (pl_ResponseResult p)) = Inr (pr_response_result r) \<and>
     marshalJSONB (cd_marshal cd) (box_map (pl_ResponseError p)) = Inr (pr_response_error r) \<and>
     pr_response_size_bytes r = pl_ResponseSizeBytes p \<and> pr_response_truncated r = pl_ResponseTruncated p \<and>
     marshalJSONB (cd_marshal cd) (notifications_val cd (pl_Notifications p)) = Inr (pr_notifications r) \<and>
     pr_notifications_truncated r = pl_NotificationsTruncated p \<and>
     pr_replayed_from r = (if pl_ReplayedFrom p \<noteq> [] then Some (pl_ReplayedFrom p) else None)"

lemma wrap_err_Inr: "wrap_err m r = Inr x \<longleftrightarrow> r = Inr x"
  by (cases r) (auto simp: wrap_err_def)

lemma insert_event_Inr:
  "insert_event ev ps db = Inr db' \<longleftrightarrow> \<not> has_event db (ev_ID ev) \<and>
     db' = db\<lparr>db_events := db_events db @ [event_row_of ev ps]\<rparr>"
  by (auto simp: insert_event_def event_row_of_def)

lemma insertPayload_Inr:
  assumes "insertPayload cd io i p db = Inr db'"
  obtains r where "row_of_payload cd i p r" and "db' = db\<lparr>db_payloads := db_payloads db @ [r]\<rparr>"
    and "i \<notin> pr_event_id ` set (db_payloads db)" and "has_event db i"
    and "\<And>j. pr_replayed_from r = Some j \<Longrightarrow> has_event db j"
proof -
  from assms obtain x1 x2 x3 x4 x5 where
      "marshalJSONB (cd_marshal cd) (box_map (pl_RequestParams p)) = Inr x1"
      "marshalJSONB (cd_marshal cd) (headers_val (pl_RequestHeaders p)) = Inr x2"
      "marshalJSONB (cd_marshal cd) (box_map (pl_ResponseResult p)) = Inr x3"
      "marshalJSONB (cd_marshal cd) (box_map (pl_ResponseError p)) = Inr x4"
      "marshalJSONB (cd_marshal cd) (notifications_val cd (pl_Notifications p)) = Inr x5"
      "insert_payload_row (mk_payload_row i p x1 x2 x3 x4 x5) db = Inr db'"
    by (auto simp: insertPayload_def rbind_Inr rcheck_Inr wrap_err_Inr)
  moreover from this have "row_of_payload cd i p (mk_payload_row i p x1 x2 x3 x4 x5)"
    by (simp add: row_of_payload_def mk_payload_row_def)
  ultimately obtain r where r: "row_of_payload cd i p r" "insert_payload_row r db = Inr db'" by blast
  then show thesis
    by (intro that [of r])
       (auto simp: insert_payload_row_def row_of_payload_def split: if_splits option.splits)
qed

lemma pg_tx_Inr:
  assumes "pg_tx cd io ev db = Inr db'" and "db_ok db"
  obtains ps rs where "\<not> has_event db (ev_ID ev)"
    and "db' = \<lparr>db_events = db_events db @ [event_row_of ev ps], db_payloads = db_payloads db @ rs\<rparr>"
    and "case ev_Payload ev of None \<Rightarrow> rs = [] | Some p \<Rightarrow> \<exists>r. rs = [r] \<and> row_of_payload cd (ev_ID ev) p r"
    and "map_option Some ps = map_option (\<lambda>m. cd_marshal cd (VMap m)) (ev_Parameters ev)"
    and "db_ok db'"
proof -
  from assms(1) obtain ps where fresh: "\<not> has_event db (ev_ID ev)"
    and ps: "map_option Some ps = map_option (\<lambda>m. cd_marshal cd (VMap m)) (ev_Parameters ev)"
    and pl: "(case ev_Payload ev of
        None \<Rightarrow> Inr (db\<lparr>db_events := db_events db @ [event_row_of ev ps]\<rparr>)
      | Some p \<Rightarrow> insertPayload cd (io 2) (ev_ID ev) p (db\<lparr>db_events := db_events db @ [event_row_of ev ps]\<rparr>)) =
        Inr db'"
    by (auto simp: pg_tx_def rbind_Inr rcheck_Inr wrap_err_Inr insert_event_Inr split: option.splits)
  let ?mid = "db\<lparr>db_events := db_events db @ [event_row_of ev ps]\<rparr>"
  have he: "has_event ?mid i \<longleftrightarrow> has_event db i \<or> i = ev_ID ev" for i
    by (auto simp: has_event_def event_row_of_def)
  have mid: "db_ok ?mid" using assms(2) fresh he
    by (auto simp: db_ok_def has_event_def event_row_of_def image_iff)
  show thesis
  proof (cases "ev_Payload ev")
    case None
    then show thesis using pl fresh ps mid by (intro that [of ps "[]"]) auto
  next
    case (Some p)
    with pl obtain r where r: "row_of_payload cd (ev_ID ev) p r"
      "db' = ?mid\<lparr>db_payloads := db_payloads ?mid @ [r]\<rparr>" "ev_ID ev \<notin> pr_event_id ` set (db_payloads ?mid)"
      "has_event ?mid (ev_ID ev)" "\<And>j. pr_replayed_from r = Some j \<Longrightarrow> has_event ?mid j"
      by (auto elim: insertPayload_Inr)
    have "has_event db' j = has_event ?mid j" for j by (simp add: r(2) has_event_def)
    moreover have "pr_event_id r = ev_ID ev" using r(1) by (simp add: row_of_payload_def)
    ultimately have "db_ok db'" using mid r(3,4,5) unfolding db_ok_def by (auto simp: r(2))
    then show thesis using Some r fresh ps by (intro that [of ps "[r]"]) auto
  qed
qed

text \<open>C28: A write is all or nothing. Whatever database call fails, and whether a column fails to
  marshal, the id is taken or a foreign key is missing, \<open>Log\<close> either reports an error and leaves
  both tables as they were, or reports success and has added exactly the event row and, when the
  event carries a payload, exactly its payload row; the key and reference constraints hold in
  every case.\<close>

theorem pg_log_atomic:
  assumes "db_ok db" and "pg_Log cd io uid ev db = (err, db')"
  shows "db_ok db' \<and>
    (case err of
       Some e \<Rightarrow> db' = db
     | None \<Rightarrow> \<exists>ps rs. db_events db' = db_events db @ [event_row_of (assigned uid ev) ps] \<and>
         db_payloads db' = db_payloads db @ rs \<and>
         (case ev_Payload ev of None \<Rightarrow> rs = []
          | Some p \<Rightarrow> \<exists>r. rs = [r] \<and> row_of_payload cd (ev_ID (assigned uid ev)) p r))"
proof (cases "pg_tx cd io (assigned uid ev) db")
  case (Inl e)
  with assms show ?thesis by (auto simp: pg_Log_def assigned_def [symmetric] Let_def)
next
  case (Inr d)
  have "ev_Payload (assigned uid ev) = ev_Payload ev" by (simp add: assigned_def)
  moreover have "err = None" "db' = d"
    using assms(2) Inr by (auto simp: pg_Log_def assigned_def [symmetric] Let_def)
  moreover obtain ps rs where
      "d = \<lparr>db_events = db_events db @ [event_row_of (assigned uid ev) ps], db_payloads = db_payloads db @ rs\<rparr>"
      "case ev_Payload (assigned uid ev) of None \<Rightarrow> rs = []
       | Some p \<Rightarrow> \<exists>r. rs = [r] \<and> row_of_payload cd (ev_ID (assigned uid ev)) p r" "db_ok d"
    by (rule pg_tx_Inr [OF Inr assms(1)])
  ultimately show ?thesis by auto
qed

definition empty_db :: pg_db where
  "empty_db = \<lparr>db_events = [], db_payloads = []\<rparr>"

lemma empty_db_ok [simp]: "db_ok empty_db"
  by (simp add: db_ok_def empty_db_def)

definition null_codec :: codec where
  "null_codec = \<lparr>cd_marshal = (\<lambda>_. None), cd_unmarshal = (\<lambda>_. None), cd_jsonb = (\<lambda>_. None),
     cd_showtime = (\<lambda>_. []), cd_parsetime = (\<lambda>_. Some 0)\<rparr>"

theorem pg_log_atomic_witness:
  "db_ok (snd (pg_Log null_codec (\<lambda>_. None) ''u1'' (zero_event\<lparr>ev_Payload := Some zero_payload\<rparr>) empty_db))"
  using pg_log_atomic [OF empty_db_ok, of null_codec "\<lambda>_. None" "''u1''" "zero_event\<lparr>ev_Payload := Some zero_payload\<rparr>"
      "fst (pg_Log null_codec (\<lambda>_. None) ''u1'' (zero_event\<lparr>ev_Payload := Some zero_payload\<rparr>) empty_db)"
      "snd (pg_Log null_codec (\<lambda>_. None) ''u1'' (zero_event\<lparr>ev_Payload := Some zero_payload\<rparr>) empty_db)"]
  by simp

section \<open>Streaming visits everything\<close>

lemma visit_index: "visit (\<lambda>_. None) n fn xs acc = visit (\<lambda>_. None) m fn xs acc"
proof (induction xs arbitrary: n m acc)
  case (Cons x xs)
  show ?case using Cons.IH [of "Suc n" _ "Suc m"] by (simp split: prod.splits option.splits)
qed simp

lemma visit_append:
  "visit (\<lambda>_. None) n fn (xs @ ys) acc =
     (case visit (\<lambda>_. None) n fn xs acc of
        (Some e, acc') \<Rightarrow> (Some e, acc')
      | (None, acc') \<Rightarrow> visit (\<lambda>_. None) 0 fn ys acc')"
proof (induction xs arbitrary: n acc)
  case Nil
  then show ?case using visit_index [of n fn ys acc 0] by simp
next
  case (Cons x xs)
  then show ?case by (simp split: prod.splits option.splits)
qed

lemma pg_all_offset: "pg_all pf cd db (f\<lparr>qf_Limit := l, qf_Offset := k\<rparr>) = pg_all pf cd db f"
  by (simp add: pg_all_def pg_matches_iff [abs_def] scalars_hold_def)

lemma stream_pages_all:
  "stream_pages pf cd (\<lambda>_. None) (\<lambda>_. None) (\<lambda>_. db) fn n (f\<lparr>qf_Limit := MaxQueryLimit, qf_Offset := int k\<rparr>) acc =
     Some (visit (\<lambda>_. None) 0 fn (drop k (pg_all pf cd db f)) acc)"
proof (induction "length (pg_all pf cd db f) - k" arbitrary: k n acc rule: less_induct)
  case less
  let ?all = "pg_all pf cd db f"
  let ?page = "take 1000 (drop k ?all)"
  have q: "pg_Query pf cd None db (f\<lparr>qf_Limit := MaxQueryLimit, qf_Offset := int k\<rparr>) = Inr ?page"
    by (simp add: pg_Query_eq pg_all_offset clamp_limit_def)
  have split: "drop k ?all = ?page @ drop (k + 1000) ?all"
    by (metis append_take_drop_id drop_drop add.commute)
  show ?case
  proof (cases "length ?page < 1000")
    case True
    then have "?page = drop k ?all" by simp
    with True q show ?thesis
      by (subst stream_pages.simps) (simp split: prod.splits option.splits)
  next
    case False
    then have "length ?all - (k + 1000) < length ?all - k" by auto
    then have IH: "stream_pages pf cd (\<lambda>_. None) (\<lambda>_. None) (\<lambda>_. db) fn (Suc n)
        (f\<lparr>qf_Limit := MaxQueryLimit, qf_Offset := int (k + 1000)\<rparr>) a =
        Some (visit (\<lambda>_. None) 0 fn (drop (k + 1000) ?all) a)" for a
      by (rule less)
    have "visit (\<lambda>_. None) 0 fn (drop k ?all) acc = (case visit (\<lambda>_. None) 0 fn ?page acc of
        (Some e, acc') \<Rightarrow> (Some e, acc') | (None, acc') \<Rightarrow> visit (\<lambda>_. None) 0 fn (drop (k + 1000) ?all) acc')"
      by (subst split, rule visit_append)
    with False q IH show ?thesis
      by (subst stream_pages.simps) (simp add: add.commute split: prod.splits option.splits)
  qed
qed

text \<open>C30: Paging through a stable table is exact. When no database call fails and no row is
  written meanwhile, \<open>Stream\<close> returns, ignores the limit and offset of the filter, and calls the
  callback on every matching event exactly once, in the canonical order, until its first error;
  \<open>Count\<close> is the number of those events and \<open>Query\<close> returns the requested page of them.\<close>

theorem pg_stream_exact:
  assumes "0 \<le> qf_Offset f"
  shows "\<exists>all. mset all = filter_mset (pg_matches pf cd db f) (mset (pg_events cd db)) \<and>
    sorted (map event_key all) \<and>
    pg_Stream pf cd (\<lambda>_. None) (\<lambda>_. None) (\<lambda>_. db) f fn acc = Some (visit (\<lambda>_. None) 0 fn all acc) \<and>
    pg_Count pf cd None db f = Inr (int (length all)) \<and>
    pg_Query pf cd None db f = Inr (take (nat (clamp_limit (qf_Limit f))) (drop (nat (qf_Offset f)) all))"
proof -
  have "pg_Stream pf cd (\<lambda>_. None) (\<lambda>_. None) (\<lambda>_. db) f fn acc = Some (visit (\<lambda>_. None) 0 fn (pg_all pf cd db f) acc)"
    using stream_pages_all [where n = 0 and k = 0] by (simp add: pg_Stream_def)
  moreover have "mset (pg_all pf cd db f) = filter_mset (pg_matches pf cd db f) (mset (pg_events cd db))"
    by (simp add: pg_all_def mset_filter)
  moreover have "sorted (map event_key (pg_all pf cd db f))" by (simp add: pg_all_def)
  ultimately show ?thesis using assms pg_Query_eq [of pf cd db f] pg_Count_eq [of pf cd db f] by auto
qed

theorem pg_stream_exact_witness:
  "\<exists>all. pg_Stream (\<lambda>_. None) null_codec (\<lambda>_. None) (\<lambda>_. None) (\<lambda>_. empty_db) zero_filter
      (\<lambda>ev n. (None, n + (1::nat))) 0 = Some (visit (\<lambda>_. None) 0 (\<lambda>ev n. (None, n + 1)) all 0)"
  using pg_stream_exact [of zero_filter "\<lambda>_. None" null_codec empty_db "\<lambda>ev n. (None, n + (1::nat))" 0]
  by (auto simp: zero_filter_def)

end
