(* ===== verification/Audit_Backends.thy ===== *)
theory Audit_Backends
  imports Audit_Postgres
begin

text \<open>
  Facts that span the audit backends: what comes back from Postgres after a write, when the
  Postgres logger and the in-memory logger select the same events, where they do not, and the
  bound on the size of a time series.
\<close>

section \<open>Reading back what was written\<close>

text \<open>What \<open>json.Unmarshal\<close> into \<open>any\<close> makes of a marshalled value: numbers become float64, a
  nil map becomes nil.\<close>

fun json_norm :: "goval \<Rightarrow> goval" where
  "json_norm (VInt i) = VFloat (float_of_int i)"
| "json_norm VNilMap = VNil"
| "json_norm (VSlice s) = VSlice (map json_norm s)"
| "json_norm (VMap m) = VMap (map (\<lambda>(k, v). (k, json_norm v)) m)"
| "json_norm v = v"

abbreviation norm_entries :: "(string \<times> goval) list \<Rightarrow> (string \<times> goval) list" where
  "norm_entries m \<equiv> map (\<lambda>(k, v). (k, json_norm v)) m"

text \<open>The law of the codec on one value: marshalling succeeds, gives some text, and the text
  decodes to the normal form.\<close>

definition json_roundtrips :: "codec \<Rightarrow> goval \<Rightarrow> bool" where
  "json_roundtrips cd v \<longleftrightarrow> 
     (\<exists>b. cd_marshal cd v = Some b \<and> b \<noteq> [] \<and> cd_unmarshal cd b = Some (json_norm v))"

definition norm_gomap :: "gomap \<Rightarrow> gomap" where
  "norm_gomap m = (case m of None \<Rightarrow> None | Some [] \<Rightarrow> None | Some es \<Rightarrow> Some (norm_entries es))"

definition norm_note :: "notification \<Rightarrow> notification" where
  "norm_note n = n\<lparr>nt_Params := norm_gomap (nt_Params n)\<rparr>"

definition norm_payload :: "payload \<Rightarrow> payload" where
  "norm_payload p = p\<lparr>pl_RequestParams := norm_gomap (pl_RequestParams p),
     pl_RequestHeaders := (if pl_RequestHeaders p = Some [] then None else pl_RequestHeaders p),
     pl_ResponseResult := norm_gomap (pl_ResponseResult p),
     pl_ResponseError := norm_gomap (pl_ResponseError p),
     pl_Notifications := map norm_note (pl_Notifications p)\<rparr>"

definition payload_values :: "codec \<Rightarrow> payload \<Rightarrow> goval list" where
  "payload_values cd p = filter (\<lambda>v. \<not> isEmptyValue v)
     [box_map (pl_RequestParams p), headers_val (pl_RequestHeaders p), box_map (pl_ResponseResult p),
      box_map (pl_ResponseError p), notifications_val cd (pl_Notifications p)]"

lemma marshalJSONB_Inr:
  assumes "marshalJSONB (cd_marshal cd) v = Inr c" and "v \<noteq> VNil" and "\<not> isEmptyValue v \<Longrightarrow> json_roundtrips cd v"
  shows "if isEmptyValue v then c = None else \<exists>b. c = Some b \<and> cd_unmarshal cd b = Some (json_norm v)"
  using assms by (auto simp: marshalJSONB_def json_roundtrips_def)

lemma map_col_roundtrip:
  assumes "marshalJSONB (cd_marshal cd) (box_map m) = Inr c"
    and "\<not> isEmptyValue (box_map m) \<Longrightarrow> json_roundtrips cd (box_map m)"
  shows "unmarshal_map_col cd c = norm_gomap m"
  using marshalJSONB_Inr [OF assms(1)] assms(2)
  by (cases m) (auto simp: unmarshal_map_col_def norm_gomap_def isEmptyValue_def split: list.splits if_splits)

lemma as_strings_VStr [simp]: "as_strings (VSlice (map VStr vs)) = Some vs"
  by (simp add: as_strings_def list_all_iff comp_def)

lemma headers_col_roundtrip:
  assumes "marshalJSONB (cd_marshal cd) (headers_val h) = Inr c"
    and "\<not> isEmptyValue (headers_val h) \<Longrightarrow> json_roundtrips cd (headers_val h)"
  shows "unmarshal_headers_col cd c = (if h = Some [] then None else h)"
proof (cases h)
  case None
  then show ?thesis using marshalJSONB_Inr [OF assms(1)]
    by (simp add: headers_val_def isEmptyValue_def unmarshal_headers_col_def)
next
  case (Some es)
  let ?n = "map (\<lambda>(k, vs). (k, VSlice (map VStr vs))) es"
  have v: "headers_val h = VMap ?n" using Some by (simp add: headers_val_def)
  have n: "json_norm (VMap ?n) = VMap ?n" by (simp add: case_prod_unfold comp_def)
  have dec: "list_all (\<lambda>(k, v). as_strings v \<noteq> None) ?n" "map (\<lambda>(k, v). (k, the (as_strings v))) ?n = es"
    by (simp_all add: list_all_iff case_prod_unfold comp_def)
  show ?thesis
  proof (cases "es = []")
    case True
    then show ?thesis using Some assms(1)
      by (simp add: headers_val_def marshalJSONB_def isEmptyValue_def unmarshal_headers_col_def)
  next
    case False
    then have "\<not> isEmptyValue (headers_val h)" by (simp add: v isEmptyValue_def)
    then obtain b where "c = Some b" "cd_unmarshal cd b = Some (VMap ?n)"
      using marshalJSONB_Inr [OF assms(1)] assms(2) n by (auto simp: v simp del: json_norm.simps)
    then show ?thesis using Some False dec by (simp add: unmarshal_headers_col_def del: map_map)
  qed
qed

lemma as_notification_norm:
  assumes "cd_parsetime cd (cd_showtime cd (nt_Timestamp n)) = Some (nt_Timestamp n)"
  shows "as_notification cd (json_norm (notification_val cd n)) = Some (norm_note n)"
  using assms by (cases n) (auto simp: as_notification_def notification_val_def norm_note_def norm_gomap_def
      split: option.splits list.splits)

lemma notifications_col_roundtrip:
  assumes "marshalJSONB (cd_marshal cd) (notifications_val cd ns) = Inr c"
    and "\<not> isEmptyValue (notifications_val cd ns) \<Longrightarrow> json_roundtrips cd (notifications_val cd ns)"
    and "\<And>n. n \<in> set ns \<Longrightarrow> cd_parsetime cd (cd_showtime cd (nt_Timestamp n)) = Some (nt_Timestamp n)"
  shows "unmarshal_notifications_col cd c = map norm_note ns"
proof (cases "ns = []")
  case True
  then show ?thesis using assms(1)
    by (simp add: notifications_val_def marshalJSONB_def isEmptyValue_def unmarshal_notifications_col_def)
next
  case False
  then obtain b where "c = Some b" "cd_unmarshal cd b = Some (json_norm (notifications_val cd ns))"
    using marshalJSONB_Inr [OF assms(1)] assms(2) by (auto simp: notifications_val_def isEmptyValue_def)
  then show ?thesis using assms(3)
    by (simp add: unmarshal_notifications_col_def notifications_val_def list_all_iff as_notification_norm)
qed

lemma payload_of_row_norm:
  assumes "row_of_payload cd i p r" and "\<forall>v \<in> set (payload_values cd p). json_roundtrips cd v"
    and "\<forall>n \<in> set (pl_Notifications p). cd_parsetime cd (cd_showtime cd (nt_Timestamp n)) = Some (nt_Timestamp n)"
  shows "payload_of_row cd r = norm_payload p"
proof -
  note r = assms(1) [unfolded row_of_payload_def]
  have "unmarshal_map_col cd (pr_request_params r) = norm_gomap (pl_RequestParams p)"
    using r assms(2) by (intro map_col_roundtrip) (auto simp: payload_values_def)
  moreover have "unmarshal_map_col cd (pr_response_result r) = norm_gomap (pl_ResponseResult p)"
    using r assms(2) by (intro map_col_roundtrip) (auto simp: payload_values_def)
  moreover have "unmarshal_map_col cd (pr_response_error r) = norm_gomap (pl_ResponseError p)"
    using r assms(2) by (intro map_col_roundtrip) (auto simp: payload_values_def)
  moreover have "unmarshal_headers_col cd (pr_request_headers r) =
      (if pl_RequestHeaders p = Some [] then None else pl_RequestHeaders p)"
    using r assms(2) by (intro headers_col_roundtrip) (auto simp: payload_values_def)
  moreover have "unmarshal_notifications_col cd (pr_notifications r) = map norm_note (pl_Notifications p)"
    using r assms(2,3) by (intro notifications_col_roundtrip) (auto simp: payload_values_def)
  ultimately show ?thesis
    using r by (cases p) (auto simp: payload_of_row_def norm_payload_def split: if_splits)
qed

lemma pg_Log_NoneE:
  assumes "db_ok db" and "pg_Log cd io uid ev db = (None, db')"
  obtains ps rs where "\<not> has_event db (ev_ID (assigned uid ev))"
    and "db' = \<lparr>db_events = db_events db @ [event_row_of (assigned uid ev) ps], db_payloads = db_payloads db @ rs\<rparr>"
    and "case ev_Payload ev of None \<Rightarrow> rs = [] | Some p \<Rightarrow> \<exists>r. rs = [r] \<and> row_of_payload cd (ev_ID (assigned uid ev)) p r"
    and "map_option Some ps = map_option (\<lambda>m. cd_marshal cd (VMap m)) (ev_Parameters ev)" and "db_ok db'"
proof -
  have tx: "pg_tx cd io (assigned uid ev) db = Inr db'"
    using assms(2) by (auto simp: pg_Log_def assigned_def [symmetric] Let_def split: sum.splits)
  have "ev_Payload (assigned uid ev) = ev_Payload ev" "ev_Parameters (assigned uid ev) = ev_Parameters ev"
    by (simp_all add: assigned_def)
  note same = this
  show thesis
  proof (rule pg_tx_Inr [OF tx assms(1)], goal_cases)
    case (1 ps rs)
    then show thesis using same by (intro that [of ps rs]) simp_all
  qed
qed

text \<open>The payload rows of a freshly logged event are exactly the one just added.\<close>

lemma fresh_no_payload:
  assumes "db_ok db" and "\<not> has_event db i"
  shows "\<forall>r \<in> set (db_payloads db). pr_event_id r \<noteq> i"
  using assms by (auto simp: db_ok_def)

definition stored_event :: "event \<Rightarrow> event" where
  "stored_event ev = ev\<lparr>ev_Timestamp := pg_ts (ev_Timestamp ev),
     ev_Parameters := map_option norm_entries (ev_Parameters ev), ev_Payload := None\<rparr>"

lemma scan_event_row:
  assumes "map_option Some ps = map_option (\<lambda>m. cd_marshal cd (VMap m)) (ev_Parameters ev)"
    and "\<And>m. ev_Parameters ev = Some m \<Longrightarrow> json_roundtrips cd (VMap m)"
  shows "scanEvent cd (event_row_of ev ps) = stored_event ev"
proof (cases "ev_Parameters ev")
  case None
  then show ?thesis using assms(1) by (simp add: scanEvent_def event_row_of_def stored_event_def)
next
  case (Some m)
  then obtain b where "cd_marshal cd (VMap m) = Some b" "b \<noteq> []" "cd_unmarshal cd b = Some (VMap (norm_entries m))"
    using assms(2) by (auto simp: json_roundtrips_def)
  moreover from this Some assms(1) have "ps = Some b" by auto
  ultimately show ?thesis using Some by (simp add: scanEvent_def event_row_of_def stored_event_def)
qed

text \<open>What a written event leaves in the tables. Rows are only added, so later writes keep it.\<close>

definition stored :: "codec \<Rightarrow> pg_db \<Rightarrow> string \<Rightarrow> event \<Rightarrow> bool" where
  "stored cd db uid ev \<longleftrightarrow>
     (\<exists>ps. event_row_of (assigned uid ev) ps \<in> set (db_events db) \<and>
        map_option Some ps = map_option (\<lambda>m. cd_marshal cd (VMap m)) (ev_Parameters ev)) \<and>
     (case ev_Payload ev of
        None \<Rightarrow> \<forall>r \<in> set (db_payloads db). pr_event_id r \<noteq> ev_ID (assigned uid ev)
      | Some p \<Rightarrow> \<exists>r \<in> set (db_payloads db). row_of_payload cd (ev_ID (assigned uid ev)) p r)"

lemma event_row_id [simp]: "ev_ID (er_event (event_row_of ev ps)) = ev_ID ev"
  by (simp add: event_row_of_def)

lemma stored_has_event: "stored cd db uid ev \<Longrightarrow> has_event db (ev_ID (assigned uid ev))"
  by (force simp: stored_def has_event_def image_iff)

lemma pg_Log_stored:
  assumes "db_ok db" and "pg_Log cd io uid ev db = (None, db')"
  shows "db_ok db'" "stored cd db' uid ev" "stored cd db uid' ev' \<Longrightarrow> stored cd db' uid' ev'"
proof -
  obtain ps rs where fresh: "\<not> has_event db (ev_ID (assigned uid ev))"
    and db': "db' = \<lparr>db_events = db_events db @ [event_row_of (assigned uid ev) ps], db_payloads = db_payloads db @ rs\<rparr>"
    and rs: "case ev_Payload ev of None \<Rightarrow> rs = [] | Some p \<Rightarrow> \<exists>r. rs = [r] \<and> row_of_payload cd (ev_ID (assigned uid ev)) p r"
    and ps: "map_option Some ps = map_option (\<lambda>m. cd_marshal cd (VMap m)) (ev_Parameters ev)" and ok: "db_ok db'"
    by (rule pg_Log_NoneE [OF assms])
  show "db_ok db'" by (rule ok)
  show "stored cd db' uid ev"
    using ps rs fresh_no_payload [OF assms(1) fresh] by (auto simp: stored_def db' split: option.splits)
  assume s: "stored cd db uid' ev'"
  have "\<forall>r \<in> set rs. pr_event_id r \<noteq> ev_ID (assigned uid' ev')"
    using rs fresh stored_has_event [OF s] by (auto simp: row_of_payload_def split: option.splits)
  with s show "stored cd db' uid' ev'" by (auto simp: stored_def db' split: option.splits)
qed

text \<open>What the codec and the time format are asked to keep of an event.\<close>

definition storable :: "codec \<Rightarrow> event \<Rightarrow> bool" where
  "storable cd ev \<longleftrightarrow>
     (case ev_Parameters ev of None \<Rightarrow> True | Some m \<Rightarrow> json_roundtrips cd (VMap m)) \<and>
     (case ev_Payload ev of None \<Rightarrow> True | Some p \<Rightarrow>
        (\<forall>v \<in> set (payload_values cd p). json_roundtrips cd v) \<and>
        (\<forall>n \<in> set (pl_Notifications p). cd_parsetime cd (cd_showtime cd (nt_Timestamp n)) = Some (nt_Timestamp n)))"

lemma stored_query:
  assumes "db_ok db" and "stored cd db uid ev" and "ev_ID (assigned uid ev) \<noteq> []"
  obtains ps where "map_option Some ps = map_option (\<lambda>m. cd_marshal cd (VMap m)) (ev_Parameters ev)"
    and "pg_Query pf cd None db (zero_filter\<lparr>qf_EventID := ev_ID (assigned uid ev), qf_Limit := 1\<rparr>) =
      Inr [scanEvent cd (event_row_of (assigned uid ev) ps)]"
proof -
  let ?ev = "assigned uid ev"
  obtain ps where ps: "event_row_of ?ev ps \<in> set (db_events db)"
    "map_option Some ps = map_option (\<lambda>m. cd_marshal cd (VMap m)) (ev_Parameters ev)" using assms(2) by (auto simp: stored_def)
  let ?e = "scanEvent cd (event_row_of ?ev ps)"
  have id: "ev_ID (scanEvent cd r) = ev_ID (er_event r)" for r by (simp add: scanEvent_def split: option.split goval.split)
  have "inj_on (ev_ID \<circ> er_event) (set (db_events db))" using assms(1) by (simp add: db_ok_def distinct_map)
  with ps(1) have other: "r = event_row_of ?ev ps" if "r \<in> set (db_events db)" "ev_ID (er_event r) = ev_ID ?ev" for r
    using that by (auto elim!: inj_onD)
  have "(case pg_Query pf cd None db (zero_filter\<lparr>qf_EventID := ev_ID ?e, qf_Limit := 1\<rparr>) of Inl _ \<Rightarrow> [] | Inr es \<Rightarrow> es) = [?e]"
  proof (rule pg.lookup_by_id)
    show "?e \<in> set (pg_events cd db)" using ps(1) by (simp add: pg_events_def)
    show "d = ?e" if "d \<in> set (pg_events cd db)" "ev_ID d = ev_ID ?e" for d
      using that other by (fastforce simp: pg_events_def id)
  qed (use assms(3) in \<open>simp add: id\<close>)
  moreover have "pg_Query pf cd None db (zero_filter\<lparr>qf_EventID := ev_ID ?e, qf_Limit := 1\<rparr>) \<noteq> Inl e" for e
    by (simp add: pg_Query_eq zero_filter_def)
  ultimately show thesis
    using ps(2) by (intro that [of ps]) (simp_all add: id split: sum.splits)
qed

lemma stored_payload:
  assumes "db_ok db" and "stored cd db uid ev"
  shows "case ev_Payload ev of
      None \<Rightarrow> pg_GetPayload cd None db (ev_ID (assigned uid ev)) = Inr None
    | Some p \<Rightarrow> \<exists>r. row_of_payload cd (ev_ID (assigned uid ev)) p r \<and>
        pg_GetPayload cd None db (ev_ID (assigned uid ev)) = Inr (Some (payload_of_row cd r))"
proof (cases "ev_Payload ev")
  case None
  then show ?thesis using assms(2) by (auto simp: stored_def pg_GetPayload_def find_None_iff)
next
  case (Some p)
  let ?i = "ev_ID (assigned uid ev)"
  from Some assms(2) obtain r where r: "r \<in> set (db_payloads db)" "row_of_payload cd ?i p r" by (auto simp: stored_def)
  then have ri: "pr_event_id r = ?i" by (simp add: row_of_payload_def)
  obtain r' where r': "find (\<lambda>r. pr_event_id r = ?i) (db_payloads db) = Some r'"
    using r(1) ri by (cases "find (\<lambda>r. pr_event_id r = ?i) (db_payloads db)") (auto simp: find_None_iff)
  then have "r' \<in> set (db_payloads db)" "pr_event_id r' = ?i" by (auto simp: find_Some_iff)
  moreover have "inj_on pr_event_id (set (db_payloads db))" using assms(1) by (simp add: db_ok_def distinct_map)
  ultimately have "r' = r" using r(1) ri by (metis inj_onD)
  with r(2) r' Some show ?thesis by (auto simp: pg_GetPayload_def)
qed

lemma stored_read:
  assumes "db_ok db" and "stored cd db uid ev" and "ev_ID (assigned uid ev) \<noteq> []" and "storable cd ev"
  shows "pg_Query pf cd None db (zero_filter\<lparr>qf_EventID := ev_ID (assigned uid ev), qf_Limit := 1\<rparr>) =
      Inr [stored_event (assigned uid ev)]"
    and "pg_GetPayload cd None db (ev_ID (assigned uid ev)) = Inr (map_option norm_payload (ev_Payload ev))"
proof -
  have "ev_Parameters (assigned uid ev) = ev_Parameters ev" by (simp add: assigned_def)
  then have "scanEvent cd (event_row_of (assigned uid ev) ps) = stored_event (assigned uid ev)"
    if "map_option Some ps = map_option (\<lambda>m. cd_marshal cd (VMap m)) (ev_Parameters ev)" for ps
    using that assms(4) by (intro scan_event_row) (auto simp: storable_def split: option.splits)
  then show "pg_Query pf cd None db (zero_filter\<lparr>qf_EventID := ev_ID (assigned uid ev), qf_Limit := 1\<rparr>) =
      Inr [stored_event (assigned uid ev)]"
    using stored_query [OF assms(1-3)] by metis
  show "pg_GetPayload cd None db (ev_ID (assigned uid ev)) = Inr (map_option norm_payload (ev_Payload ev))"
    using stored_payload [OF assms(1,2)] assms(4) by (cases "ev_Payload ev") (auto simp: storable_def payload_of_row_norm)
qed

text \<open>C29: What was logged is what is read. After a successful \<open>Log\<close> the lookup by id returns
  exactly that event, with its timestamp cut to microseconds and its parameters as JSON decodes
  them, and \<open>GetPayload\<close> returns its payload with every column intact (empty maps read as absent,
  numbers as float64), provided JSON and the time format round-trip on the values involved.\<close>

theorem pg_log_roundtrip:
  assumes "db_ok db" and "pg_Log cd io uid ev db = (None, db')" and "ev_ID (assigned uid ev) \<noteq> []"
    and "\<forall>m. ev_Parameters ev = Some m \<longrightarrow> json_roundtrips cd (VMap m)"
    and "ev_Payload ev = Some p" and "\<forall>v \<in> set (payload_values cd p). json_roundtrips cd v"
    and "\<forall>n \<in> set (pl_Notifications p). cd_parsetime cd (cd_showtime cd (nt_Timestamp n)) = Some (nt_Timestamp n)"
  shows "pg_Query pf cd None db' (zero_filter\<lparr>qf_EventID := ev_ID (assigned uid ev), qf_Limit := 1\<rparr>) =
      Inr [stored_event (assigned uid ev)] \<and>
    pg_GetPayload cd None db' (ev_ID (assigned uid ev)) = Inr (Some (norm_payload p))"
  using stored_read [OF pg_Log_stored(1,2) [OF assms(1,2)] assms(3)] assms(4-7)
  by (simp add: storable_def split: option.split)

definition one_codec :: codec where
  "one_codec = \<lparr>cd_marshal = (\<lambda>_. Some ''x''), cd_unmarshal = (\<lambda>_. Some (VMap [(''a'', VStr ''b'')])),
     cd_jsonb = (\<lambda>_. Some (VMap [(''a'', VStr ''b'')])), cd_showtime = (\<lambda>_. []), cd_parsetime = (\<lambda>_. Some 0)\<rparr>"

definition one_payload :: payload where
  "one_payload = zero_payload\<lparr>pl_RequestParams := Some [(''a'', VStr ''b'')]\<rparr>"

lemma one_log:
  "pg_Log one_codec (\<lambda>_. None) ''u1'' (zero_event\<lparr>ev_Payload := Some one_payload\<rparr>) empty_db =
    (None, \<lparr>db_events = [event_row_of (zero_event\<lparr>ev_ID := ''u1'', ev_Payload := Some one_payload\<rparr>) None],
       db_payloads = [mk_payload_row ''u1'' one_payload (Some ''x'') None None None None]\<rparr>)"
  by (simp add: pg_Log_def pg_tx_def insert_event_def insertPayload_def insert_payload_row_def zero_event_def
      zero_payload_def one_payload_def one_codec_def empty_db_def has_event_def event_row_of_def wrap_err_def
      marshalJSONB_def isEmptyValue_def headers_val_def notifications_val_def mk_payload_row_def)

theorem pg_log_roundtrip_witness:
  "pg_GetPayload one_codec None
     (snd (pg_Log one_codec (\<lambda>_. None) ''u1'' (zero_event\<lparr>ev_Payload := Some one_payload\<rparr>) empty_db)) ''u1'' =
   Inr (Some (norm_payload one_payload))"
proof -
  let ?ev = "zero_event\<lparr>ev_Payload := Some one_payload\<rparr>"
  have a: "assigned ''u1'' ?ev = ?ev\<lparr>ev_ID := ''u1''\<rparr>" by (simp add: assigned_def zero_event_def)
  have "\<forall>v \<in> set (payload_values one_codec one_payload). json_roundtrips one_codec v"
    by (simp add: payload_values_def one_payload_def zero_payload_def isEmptyValue_def headers_val_def
        notifications_val_def json_roundtrips_def one_codec_def)
  then show ?thesis
    using pg_log_roundtrip [OF empty_db_ok one_log, of one_payload "\<lambda>_. None"] a one_log
    by (simp add: zero_event_def one_payload_def zero_payload_def)
qed

section \<open>Both backends select the same events\<close>

text \<open>JSONB keeps the value of the text it is given, and the text of a non-empty value is none of
  the empty forms.\<close>

definition jsonb_exact :: "codec \<Rightarrow> goval \<Rightarrow> bool" where
  "jsonb_exact cd v \<longleftrightarrow> (\<exists>b. cd_marshal cd v = Some b \<and> cd_jsonb cd b = Some v \<and>
     b \<notin> {''{}'', ''[]'', ''null'', ''''})"

text \<open>The values a path can reach in a document: what JSON decoding produces, with integers that
  float64 represents exactly, and with a text that differs from that of the filter's scalar when
  the value is a map or a slice.\<close>

definition leaf_ok :: "marshaler \<Rightarrow> goval \<Rightarrow> goval \<Rightarrow> bool" where
  "leaf_ok marshal want u = (case u of
     VInt i \<Rightarrow> \<bar>i\<bar> < 2 ^ 53
   | VBytes _ \<Rightarrow> False
   | VNilMap \<Rightarrow> False
   | VMap _ \<Rightarrow> or_empty (marshal u) \<noteq> or_empty (marshal want)
   | VSlice _ \<Rightarrow> or_empty (marshal u) \<noteq> or_empty (marshal want)
   | _ \<Rightarrow> True)"

lemma leaf_agree:
  assumes "filter_scalar want" and "leaf_ok marshal want u"
  shows "jsonEqual marshal u want \<longleftrightarrow> jsonb_contains u want"
proof -
  have "f64_eq (Fin r) f \<longleftrightarrow> json_num (VFloat f) = Some r" "f64_eq f (Fin r) \<longleftrightarrow> json_num (VFloat f) = Some r" for r f
    by (cases f; auto)+
  then show ?thesis using assms
    by (cases want rule: filter_scalar.cases; cases u)
       (auto simp: jsonEqual_def numericEq_def jsonb_scalar_eq_def leaf_ok_def float_of_int_exact
         split: f64.splits)
qed

lemma contains_containment:
  "jsonb_contains v (JSONFilterToContainment path want) \<longleftrightarrow>
     (\<exists>u. match_walk v path = Some u \<and> jsonb_contains u want)"
  by (induction path arbitrary: v) (auto split: goval.splits option.splits)

lemma column_nonempty:
  assumes "marshalJSONB (cd_marshal cd) v = Inr c" and "v \<noteq> VNil"
    and "\<not> isEmptyValue v \<Longrightarrow> jsonb_exact cd v"
  shows "if isEmptyValue v then c = None else \<exists>b. c = Some b \<and> cd_jsonb cd b = Some v \<and>
    b \<notin> {''{}'', ''[]'', ''null'', ''''}"
  using assms by (auto simp: marshalJSONB_def jsonb_exact_def)

lemma column_sem:
  assumes "marshalJSONB (cd_marshal cd) v = Inr c" and "v \<noteq> VNil"
    and "\<not> isEmptyValue v \<Longrightarrow> jsonb_exact cd v" and "cd_jsonb cd s = Some doc"
  shows "column_contains cd c (AStr s) \<longleftrightarrow> \<not> isEmptyValue v \<and> jsonb_contains v doc"
  using column_nonempty [OF assms(1-3)] assms(4) by (auto simp: column_contains_def split: if_splits)

lemma column_has:
  assumes "marshalJSONB (cd_marshal cd) v = Inr c" and "v \<noteq> VNil"
    and "\<not> isEmptyValue v \<Longrightarrow> jsonb_exact cd v"
  shows "(case c of None \<Rightarrow> False | Some t \<Rightarrow> t \<notin> {''{}'', ''[]'', ''null'', ''''}) \<longleftrightarrow> \<not> isEmptyValue v"
  using column_nonempty [OF assms] by (auto split: if_splits)

lemma box_map_not_nil [simp]: "box_map m \<noteq> VNil" "headers_val h \<noteq> VNil" "notifications_val cd ns \<noteq> VNil"
  by (simp_all add: box_map_def headers_val_def notifications_val_def split: option.splits)

lemma map_filter_sem:
  assumes "path \<noteq> []" and "filter_scalar want"
    and "\<And>u. match_walk (box_map m) path = Some u \<Longrightarrow> leaf_ok marshal want u"
  shows "\<not> isEmptyValue (box_map m) \<and> jsonb_contains (box_map m) (JSONFilterToContainment path want) \<longleftrightarrow>
    m \<noteq> None \<and> MatchJSONPath marshal m path want"
proof -
  have "match_walk (box_map (Some [])) path = None" "match_walk (box_map None) path = None"
    using assms(1) by (cases path; simp)+
  then have "m \<noteq> None \<and> m \<noteq> Some []" if "match_walk (box_map m) path = Some u" for u
    using that by (cases m) auto
  then show ?thesis
    using assms leaf_agree [OF assms(2)]
    by (cases m) (auto simp: contains_containment MatchJSONPath_def isEmptyValue_def split: option.splits)
qed

lemma header_filter_sem:
  "\<not> isEmptyValue (headers_val h) \<and> jsonb_contains (headers_val h) (VMap [(name, VSlice [VStr v])]) \<longleftrightarrow>
     (case h of None \<Rightarrow> False | Some es \<Rightarrow>
       (case map_of es name of None \<Rightarrow> False | Some values \<Rightarrow> values \<noteq> [] \<and> list_ex (\<lambda>x. x = v) values))"
proof (cases h)
  case (Some es)
  have "map_of (map (\<lambda>(k, vs). (k, VSlice (map VStr vs))) es) name = map_option (\<lambda>vs. VSlice (map VStr vs)) (map_of es name)"
    by (induction es) auto
  then show ?thesis using Some
    by (auto simp: headers_val_def isEmptyValue_def jsonb_scalar_eq_def list_ex_iff split: option.splits)
qed (simp add: headers_val_def isEmptyValue_def)

text \<open>The filters the two backends are meant to agree on: no free-text search (the in-memory
  logger has none), microsecond bounds, allowlisted keys and sources, non-empty paths, scalar
  values that JSONB keeps.\<close>

definition portable_json :: "float_parser \<Rightarrow> codec \<Rightarrow> payload \<Rightarrow> json_path_filter \<Rightarrow> bool" where
  "portable_json pf cd p jf \<longleftrightarrow> IsAllowedJSONSource (jf_Source jf) \<and> jf_Path jf \<noteq> [] \<and>
     (\<forall>doc. json_filter_doc pf jf = Some doc \<longrightarrow> jsonb_exact cd doc) \<and>
     (jf_Source jf \<noteq> ''header'' \<longrightarrow>
        filter_scalar (ParseJSONFilterValue pf (jf_Value jf)) \<and>
        (\<forall>m u. m \<in> {pl_RequestParams p, pl_ResponseResult p} \<longrightarrow> match_walk (box_map m) (jf_Path jf) = Some u \<longrightarrow>
           leaf_ok (cd_marshal cd) (ParseJSONFilterValue pf (jf_Value jf)) u))"

definition portable_filter :: "float_parser \<Rightarrow> codec \<Rightarrow> payload \<Rightarrow> query_filter \<Rightarrow> bool" where
  "portable_filter pf cd p f \<longleftrightarrow> qf_Search f = [] \<and> 1000 dvd qf_From f \<and> 1000 dvd qf_To f \<and>
     (\<forall>k \<in> set (qf_HasKeys f). IsAllowedHasKey k) \<and>
     (\<forall>jf \<in> set (qf_JSONFilters f). portable_json pf cd p jf)"

lemma json_agree:
  assumes "row_of_payload cd i p r" and "portable_json pf cd p jf"
    and "\<forall>v \<in> set (payload_values cd p). jsonb_exact cd v"
    and "json_filter_doc pf jf = Some doc" and "cd_marshal cd doc = Some s"
  shows "column_contains cd (payload_column r (jsonFilterColumn (jf_Source jf))) (AStr s) \<longleftrightarrow>
    matchesJSONFilter pf (cd_marshal cd) p jf"
proof -
  note r = assms(1) [unfolded row_of_payload_def] and pj = assms(2) [unfolded portable_json_def]
  have s: "cd_jsonb cd s = Some doc" using pj assms(4,5) by (auto simp: jsonb_exact_def)
  have ex: "\<not> isEmptyValue v \<Longrightarrow> jsonb_exact cd v"
    if "v \<in> {box_map (pl_RequestParams p), headers_val (pl_RequestHeaders p), box_map (pl_ResponseResult p)}" for v
    using that assms(3) by (auto simp: payload_values_def)
  consider (param) "jf_Source jf = ''param''" | (response) "jf_Source jf = ''response''" | (header) "jf_Source jf = ''header''"
    using pj by (auto simp: IsAllowedJSONSource_def)
  then show ?thesis
  proof cases
    case param
    then have "doc = JSONFilterToContainment (jf_Path jf) (ParseJSONFilterValue pf (jf_Value jf))"
      using assms(4) by (simp add: json_filter_doc_def)
    moreover have "\<not> isEmptyValue (box_map (pl_RequestParams p)) \<and> jsonb_contains (box_map (pl_RequestParams p))
        (JSONFilterToContainment (jf_Path jf) (ParseJSONFilterValue pf (jf_Value jf))) \<longleftrightarrow>
      pl_RequestParams p \<noteq> None \<and> MatchJSONPath (cd_marshal cd) (pl_RequestParams p) (jf_Path jf)
        (ParseJSONFilterValue pf (jf_Value jf))"
      using pj param by (intro map_filter_sem) auto
    ultimately show ?thesis
      using column_sem [of cd "box_map (pl_RequestParams p)" "pr_request_params r" s doc] r s ex param
      by (simp add: payload_column_def jsonFilterColumn_def matchesJSONFilter_def Let_def)
  next
    case response
    then have "doc = JSONFilterToContainment (jf_Path jf) (ParseJSONFilterValue pf (jf_Value jf))"
      using assms(4) by (simp add: json_filter_doc_def)
    moreover have "\<not> isEmptyValue (box_map (pl_ResponseResult p)) \<and> jsonb_contains (box_map (pl_ResponseResult p))
        (JSONFilterToContainment (jf_Path jf) (ParseJSONFilterValue pf (jf_Value jf))) \<longleftrightarrow>
      pl_ResponseResult p \<noteq> None \<and> MatchJSONPath (cd_marshal cd) (pl_ResponseResult p) (jf_Path jf)
        (ParseJSONFilterValue pf (jf_Value jf))"
      using pj response by (intro map_filter_sem) auto
    ultimately show ?thesis
      using column_sem [of cd "box_map (pl_ResponseResult p)" "pr_response_result r" s doc] r s ex response
      by (simp add: payload_column_def jsonFilterColumn_def matchesJSONFilter_def Let_def)
  next
    case header
    then obtain name rest where n: "jf_Path jf = name # rest" "doc = VMap [(name, VSlice [VStr (jf_Value jf)])]"
      using assms(4) by (auto simp: json_filter_doc_def split: list.splits)
    have "column_contains cd (pr_request_headers r) (AStr s) \<longleftrightarrow>
        \<not> isEmptyValue (headers_val (pl_RequestHeaders p)) \<and> jsonb_contains (headers_val (pl_RequestHeaders p)) doc"
      using r s ex by (intro column_sem) auto
    then show ?thesis
      unfolding n(2) header_filter_sem
      using header n(1) by (simp add: payload_column_def jsonFilterColumn_def matchesJSONFilter_def split: option.splits)
  qed
qed

lemma has_agree:
  assumes "row_of_payload cd i p r" and "IsAllowedHasKey k"
    and "\<forall>v \<in> set (payload_values cd p). jsonb_exact cd v"
    and "pl_ReplayedFrom p \<notin> {''{}'', ''[]'', ''null''}"
  shows "(case payload_column r k of None \<Rightarrow> False | Some t \<Rightarrow> t \<notin> {''{}'', ''[]'', ''null'', ''''}) \<longleftrightarrow>
    matchesHasKey p k"
proof -
  note r = assms(1) [unfolded row_of_payload_def]
  have col: "(case c of None \<Rightarrow> False | Some t \<Rightarrow> t \<notin> {''{}'', ''[]'', ''null'', ''''}) \<longleftrightarrow> \<not> isEmptyValue v"
    if "marshalJSONB (cd_marshal cd) v = Inr c" "v \<noteq> VNil" "\<not> isEmptyValue v \<Longrightarrow> v \<in> set (payload_values cd p)" for c v
    using that assms(3) by (intro column_has) auto
  have e: "\<not> isEmptyValue (box_map m) \<longleftrightarrow> m \<noteq> None \<and> m \<noteq> Some []"
    "\<not> isEmptyValue (headers_val h) \<longleftrightarrow> h \<noteq> None \<and> h \<noteq> Some []"
    "\<not> isEmptyValue (notifications_val cd ns) \<longleftrightarrow> ns \<noteq> []" for m h ns
    by (auto simp: isEmptyValue_def box_map_def headers_val_def notifications_val_def split: option.splits)
  have m: "\<not> isEmptyValue v \<Longrightarrow> v \<in> set (payload_values cd p)"
    if "v \<in> {box_map (pl_RequestParams p), headers_val (pl_RequestHeaders p), box_map (pl_ResponseResult p),
      box_map (pl_ResponseError p), notifications_val cd (pl_Notifications p)}" for v
    using that unfolding payload_values_def set_filter list.set by blast
  consider "k = ''request_params''" | "k = ''request_headers''" | "k = ''response_result''"
    | "k = ''response_error''" | "k = ''notifications''" | "k = ''replayed_from''"
    using assms(2) unfolding IsAllowedHasKey_def by (elim disjE) (erule that)+
  then show ?thesis
  proof cases
    case 1
    then show ?thesis using col [of "box_map (pl_RequestParams p)"] m r e by (simp add: payload_column_def matchesHasKey_def)
  next
    case 2
    then show ?thesis using col [of "headers_val (pl_RequestHeaders p)"] m r e by (simp add: payload_column_def matchesHasKey_def)
  next
    case 3
    then show ?thesis using col [of "box_map (pl_ResponseResult p)"] m r e by (simp add: payload_column_def matchesHasKey_def)
  next
    case 4
    then show ?thesis using col [of "box_map (pl_ResponseError p)"] m r e by (simp add: payload_column_def matchesHasKey_def)
  next
    case 5
    then show ?thesis using col [of "notifications_val cd (pl_Notifications p)"] m r e
      by (simp add: payload_column_def matchesHasKey_def)
  next
    case 6
    then show ?thesis using r assms(4) by (auto simp: payload_column_def matchesHasKey_def)
  qed
qed

lemma own_rows:
  assumes "\<forall>r \<in> set ps. pr_event_id r \<noteq> i" and "\<forall>r \<in> set rs. pr_event_id r = i"
  shows "list_ex (\<lambda>p. pr_event_id p = i \<and> Q p) (ps @ rs) \<longleftrightarrow> list_ex Q rs"
  using assms by (auto simp: list_ex_iff)

lemma pg_ts_aligned: "1000 dvd t \<Longrightarrow> pg_ts t = t"
  by (simp add: pg_ts_def dvd_eq_mod_eq_0)

lemma matchesFilter_scalars:
  assumes "1000 dvd ev_Timestamp e" and "1000 dvd qf_From f" and "1000 dvd qf_To f"
  shows "matchesFilter pf marshal f e \<longleftrightarrow> scalars_hold f (stored_event e) \<and>
    matchesJSONFilters pf marshal e (qf_JSONFilters f) \<and> matchesHasKeys e (qf_HasKeys f)"
  using assms by (auto simp: matchesFilter_def scalars_hold_def stored_event_def pg_ts_aligned)


definition one_filter :: query_filter where
  "one_filter = zero_filter\<lparr>qf_JSONFilters := [\<lparr>jf_Source = ''param'', jf_Path = [''a''], jf_Value = ''b''\<rparr>]\<rparr>"


section \<open>Where they differ\<close>

text \<open>A filter value that JSON cannot express is dropped by Postgres. \<open>NaN\<close> is read as a
  float64 by the value detection, and JSON has no encoding for it; the SQL compiler then leaves
  the condition out, so the query returns what it would return without the filter, while the
  in-memory logger matches nothing.\<close>

theorem nan_filter_dropped:
  assumes "pf ''NaN'' = Some NaN" and "jf_Value jf = ''NaN''" and "jf_Source jf \<in> {''param'', ''response''}"
    and "cd_marshal cd (JSONFilterToContainment (jf_Path jf) (VFloat NaN)) = None"
    and "cd_marshal cd (VFloat NaN) = None"
    and "\<forall>m u. m \<in> {pl_RequestParams p, pl_ResponseResult p} \<and> match_walk (box_map m) (jf_Path jf) = Some u \<longrightarrow>
      or_empty (cd_marshal cd u) \<noteq> []"
  shows "pg_matches pf cd db (f\<lparr>qf_JSONFilters := [jf]\<rparr>) e = pg_matches pf cd db (f\<lparr>qf_JSONFilters := []\<rparr>) e \<and>
    \<not> matchesJSONFilter pf (cd_marshal cd) p jf"
proof -
  have v: "ParseJSONFilterValue pf (jf_Value jf) = VFloat NaN"
    using assms(1,2) by (simp add: ParseJSONFilterValue_def parse_int64_def digit_val_def)
  have "json_filter_doc pf jf = Some (JSONFilterToContainment (jf_Path jf) (VFloat NaN))"
    using assms(3) v by (auto simp: json_filter_doc_def)
  then have drop: "json_holds pf cd ps e jf" for ps
    using assms(4) by (simp add: json_holds_def Let_def)
  have "f64_eq x NaN = False" for x by (cases x) simp_all
  then have no: "\<not> jsonEqual (cd_marshal cd) u (VFloat NaN)" if "or_empty (cd_marshal cd u) \<noteq> []" for u
    using that assms(5) by (cases u) (auto simp: jsonEqual_def numericEq_def)
  have "\<not> MatchJSONPath (cd_marshal cd) m (jf_Path jf) (VFloat NaN)"
    if "m \<in> {pl_RequestParams p, pl_ResponseResult p}" for m
  proof
    assume "MatchJSONPath (cd_marshal cd) m (jf_Path jf) (VFloat NaN)"
    then obtain u where "match_walk (box_map m) (jf_Path jf) = Some u" "jsonEqual (cd_marshal cd) u (VFloat NaN)"
      by (auto simp: MatchJSONPath_def split: if_splits option.splits)
    then show False using that assms(6) no by blast
  qed
  then have "\<not> matchesJSONFilter pf (cd_marshal cd) p jf"
    using assms(3) v by (auto simp: matchesJSONFilter_def Let_def)
  then show ?thesis using drop by (simp add: pg_matches_iff scalars_hold_def)
qed

definition nan_filter :: json_path_filter where
  "nan_filter = \<lparr>jf_Source = ''param'', jf_Path = [''x''], jf_Value = ''NaN''\<rparr>"

theorem nan_filter_dropped_witness:
  "pg_matches (\<lambda>s. if s = ''NaN'' then Some NaN else None) null_codec empty_db (zero_filter\<lparr>qf_JSONFilters := [nan_filter]\<rparr>) zero_event =
   pg_matches (\<lambda>s. if s = ''NaN'' then Some NaN else None) null_codec empty_db (zero_filter\<lparr>qf_JSONFilters := []\<rparr>) zero_event"
proof -
  have "match_walk (box_map m) (jf_Path nan_filter) = None"
    if "m \<in> {pl_RequestParams zero_payload, pl_ResponseResult zero_payload}" for m
    using that by (auto simp: nan_filter_def zero_payload_def)
  then show ?thesis
    by (intro nan_filter_dropped [where p = zero_payload, THEN conjunct1])
       (auto simp: null_codec_def nan_filter_def)
qed

section \<open>The size of a time series\<close>

lemma div_range:
  fixes b :: int
  assumes "0 < b" and "lo \<le> t" and "t \<le> hi"
  shows "t div b \<in> {lo div b .. lo div b + ((hi - lo) div b + 1)}"
proof -
  have "hi div b \<le> lo div b + ((hi - lo) div b + 1)"
  proof -
    have "hi div b = (lo + (hi - lo)) div b" by simp
    also have "\<dots> = lo div b + (hi - lo) div b + (lo mod b + (hi - lo) mod b) div b"
      by (rule div_add1_eq)
    also have "(lo mod b + (hi - lo) mod b) div b \<le> 1"
    proof -
      have "lo mod b + (hi - lo) mod b < 2 * b"
        using assms(1) pos_mod_bound [of b lo] pos_mod_bound [of b "hi - lo"] by linarith
      moreover have "(lo mod b + (hi - lo) mod b) div b * b \<le> lo mod b + (hi - lo) mod b"
        using assms(1) pos_mod_sign [of b "lo mod b + (hi - lo) mod b"]
        by (simp flip: minus_mod_eq_div_mult)
      ultimately have "(lo mod b + (hi - lo) mod b) div b * b < 2 * b" by linarith
      then show ?thesis using assms(1) by simp
    qed
    finally show ?thesis by simp
  qed
  then show ?thesis using assms zdiv_mono1 [of t hi b] zdiv_mono1 [of lo t b] by simp
qed

lemma pg_series_length:
  assumes "0 < b" and "\<And>e. e \<in> set es \<Longrightarrow> lo \<le> ev_Timestamp e \<and> ev_Timestamp e \<le> hi" and "lo \<le> hi"
  shows "int (length (sort (remdups (map (\<lambda>e. pg_bucket b (ev_Timestamp e)) es)))) \<le> (hi - lo) div b + 2"
proof -
  let ?q = "\<lambda>e. (ev_Timestamp e - unix_epoch) div b"
  let ?I = "{(lo - unix_epoch) div b .. (lo - unix_epoch) div b + ((hi - lo) div b + 1)}"
  have "?q e \<in> ?I" if "e \<in> set es" for e
    using div_range [OF assms(1), of "lo - unix_epoch" "ev_Timestamp e - unix_epoch" "hi - unix_epoch"]
      assms(2) [OF that] by simp
  then have "(\<lambda>e. pg_bucket b (ev_Timestamp e)) ` set es \<subseteq> (\<lambda>q. unix_epoch + q * b) ` ?I"
    by (force simp: pg_bucket_def)
  then have "card ((\<lambda>e. pg_bucket b (ev_Timestamp e)) ` set es) \<le> card ?I"
    by (meson card_image_le card_mono finite_atLeastAtMost_int finite_imageI le_trans)
  moreover have "0 \<le> (hi - lo) div b" using assms(1,3) by (simp add: pos_imp_zdiv_nonneg_iff)
  ultimately show ?thesis by (simp add: length_remdups_card_conv)
qed

text \<open>A time series cannot explode. Whenever \<open>TimeSeries\<close> with both bounds set (to whole
  microseconds, at most 292 years apart) returns a series, it has at most 5002 points, however
  small the bucket; the points are in strictly increasing order and their counts add up to the
  number of events in the window.\<close>

theorem pg_timeseries_bounded:
  assumes "frm \<noteq> 0" and "to \<noteq> 0" and "1000 dvd frm" and "1000 dvd to" and "to - frm \<le> max_int64"
    and "pg_TimeSeries io db frm to bucket = Inr pts"
  shows "length pts \<le> 5002 \<and> sorted_wrt (<) (map tp_Time pts) \<and>
    sum_list (map tp_Count pts) = int (length (pg_window frm to db))"
proof -
  let ?b = "if bucket \<le> 0 then minute else bucket"
  let ?es = "pg_window frm to db"
  let ?ks = "sort (remdups (map (\<lambda>e. pg_bucket ?b (ev_Timestamp e)) ?es))"
  from assms(6) have pts: "pts = map (pg_point ?b ?es) ?ks"
    and small: "0 < time_sub to frm \<longrightarrow> time_sub to frm div ?b \<le> 5000"
    using assms(1,2) by (auto simp: pg_TimeSeries_def Let_def is_zero_time_def rcheck_Inr split: if_splits)
  have win: "frm \<le> ev_Timestamp e \<and> ev_Timestamp e \<le> to" if "e \<in> set ?es" for e
    using that assms(1-4) by (auto simp: pg_window_def nullableTime_def is_zero_time_def pg_ts_aligned)
  have "int (length ?ks) \<le> 5002"
  proof (cases "frm \<le> to")
    case True
    then have "time_sub to frm = to - frm" using assms(5) by (simp add: time_sub_def)
    then have "(to - frm) div ?b \<le> 5000" using small True by (cases "to = frm") auto
    then show ?thesis using pg_series_length [of ?b ?es frm to] win True by fastforce
  next
    case False
    then have "?es = []" using win by (metis equals0I leI le_less_trans less_irrefl set_empty)
    then show ?thesis by simp
  qed
  moreover have "map tp_Time pts = ?ks" by (simp add: pts pg_point_def Let_def comp_def)
  moreover have "sorted_wrt (<) ?ks" by (simp add: strict_sorted_iff)
  moreover have "sum_list (map tp_Count pts) = int (length ?es)"
    using sum_list_partition [of ?ks "\<lambda>e. pg_bucket ?b (ev_Timestamp e)" ?es]
    by (simp add: pts pg_point_def Let_def comp_def)
  ultimately show ?thesis by (simp add: pts)
qed

theorem pg_timeseries_bounded_witness:
  "length (case pg_TimeSeries None empty_db 1000 9000 1 of Inr pts \<Rightarrow> pts | Inl _ \<Rightarrow> []) \<le> 5002"
proof (cases "pg_TimeSeries None empty_db 1000 9000 1")
  case (Inr pts)
  then show ?thesis using pg_timeseries_bounded [OF _ _ _ _ _ Inr] by simp
qed simp

end
