(* ===== verification/Audit_Async.thy ===== *)
theory Audit_Async
  imports Audit_Memory "HOL-Library.Word"
begin

text \<open>
  \<open>pkg/audit/async.go\<close>: the asynchronous logger, a bounded queue in front of an inner logger,
  and the no-op logger. Request goroutines, the drain worker, subscribers and \<open>Close\<close> run
  concurrently; every critical section is one atomic step. The worker goroutine \<open>run\<close> is a
  program counter and \<open>worker_step\<close>; what Go leaves open in a \<open>select\<close> with two ready cases,
  and whether the inner \<open>Log\<close> succeeds (it may fail, or hit the per-call timeout), is a choice
  each step receives. \<open>async_step\<close> interleaves all of them. The fields \<open>al_accepted\<close>,
  \<open>al_processed\<close>, \<open>al_written\<close> and \<open>al_drops\<close> are history: no operation reads them.
  A send on or close of a closed channel is the worker state \<open>Panicked\<close>, or no result.
\<close>

section \<open>State and operations\<close>

datatype worker =
    Running
  | Draining
  | Writing event bool
  | Wrote event bool
  | Casting event "nat list" bool
  | Done
  | Panicked

record async_logger =
  al_ch :: "event list"
  al_cap :: nat
  al_timeout :: duration
  al_stop :: bool
  al_stopOnce :: bool
  al_dropped :: "64 word"
  al_hub :: hub
  al_pc :: worker
  al_accepted :: "event list"
  al_processed :: "event list"
  al_written :: "event list"
  al_drops :: nat

definition NewAsyncLogger :: "int \<Rightarrow> duration \<Rightarrow> async_logger" where
  "NewAsyncLogger bufferSize perCallTimeout =
     (let bufferSize = (if bufferSize \<le> 0 then 1024 else bufferSize);
          perCallTimeout = (if perCallTimeout \<le> 0 then 5 * second else perCallTimeout)
      in \<lparr>al_ch = [], al_cap = nat bufferSize, al_timeout = perCallTimeout, al_stop = False,
          al_stopOnce = False, al_dropped = 0, al_hub = empty_hub, al_pc = Running,
          al_accepted = [], al_processed = [], al_written = [], al_drops = 0\<rparr>)"

text \<open>\<open>Log\<close>: enqueue or count a drop. The second component is the running total of the
  warning that every 1000th drop logs.\<close>

definition async_Log :: "event \<Rightarrow> async_logger \<Rightarrow> async_logger \<times> 64 word option" where
  "async_Log ev a =
     (if length (al_ch a) < al_cap a
      then (a\<lparr>al_ch := al_ch a @ [ev], al_accepted := al_accepted a @ [ev]\<rparr>, None)
      else (let dropped = al_dropped a + 1
            in (a\<lparr>al_dropped := dropped, al_drops := Suc (al_drops a)\<rparr>,
                if dropped mod 1000 = 1 then Some dropped else None)))"

text \<open>\<open>Close\<close>: the close of \<open>stop\<close> runs once; the call then waits for the worker.\<close>

definition async_Close :: "async_logger \<Rightarrow> async_logger option" where
  "async_Close a =
     (if al_stopOnce a then Some a
      else if al_stop a then None
      else Some (a\<lparr>al_stopOnce := True, al_stop := True\<rparr>))"

definition close_returns :: "async_logger \<Rightarrow> bool" where
  "close_returns a \<longleftrightarrow> al_stop a \<and> al_pc a = Done"

definition Dropped :: "async_logger \<Rightarrow> 64 word" where
  "Dropped a = al_dropped a"

definition async_Subscribe :: "int \<Rightarrow> async_logger \<Rightarrow> nat \<times> async_logger" where
  "async_Subscribe buf a =
     (let (i, h) = hub_subscribe buf (al_hub a) in (i, a\<lparr>al_hub := h\<rparr>))"

section \<open>The worker\<close>

text \<open>Where the loop continues after a write: the outer \<open>select\<close>, or the drain loop.\<close>

definition resume_pc :: "bool \<Rightarrow> worker" where
  "resume_pc draining = (if draining then Draining else Running)"

record choice =
  pick_recv :: bool
  log_ok :: bool

text \<open>One step of \<open>run\<close>, \<open>write\<close> and \<open>broadcast\<close>; \<open>None\<close> means blocked or finished.\<close>

fun worker_step :: "choice \<Rightarrow> async_logger \<Rightarrow> async_logger option" where
  "worker_step c a = (case al_pc a of
     Running \<Rightarrow>
       (case al_ch a of
          ev # q \<Rightarrow>
            if al_stop a \<and> \<not> pick_recv c then Some (a\<lparr>al_pc := Draining\<rparr>)
            else Some (a\<lparr>al_ch := q, al_pc := Writing ev False\<rparr>)
        | [] \<Rightarrow> if al_stop a then Some (a\<lparr>al_pc := Draining\<rparr>) else None)
   | Draining \<Rightarrow>
       (case al_ch a of
          ev # q \<Rightarrow> Some (a\<lparr>al_ch := q, al_pc := Writing ev True\<rparr>)
        | [] \<Rightarrow> Some (a\<lparr>al_pc := Done\<rparr>))
   | Writing ev d \<Rightarrow>
       if log_ok c
       then Some (a\<lparr>al_processed := al_processed a @ [ev], al_written := al_written a @ [ev],
                    al_pc := Wrote ev d\<rparr>)
       else Some (a\<lparr>al_processed := al_processed a @ [ev], al_pc := resume_pc d\<rparr>)
   | Wrote ev d \<Rightarrow> Some (a\<lparr>al_pc := Casting ev (hb_subs (al_hub a)) d\<rparr>)
   | Casting ev [] d \<Rightarrow> Some (a\<lparr>al_pc := resume_pc d\<rparr>)
   | Casting ev (i # ids) d \<Rightarrow>
       (case hub_update (\<lambda>s. subscriber_send s ev) i (al_hub a) of
          None \<Rightarrow> Some (a\<lparr>al_pc := Panicked\<rparr>)
        | Some h \<Rightarrow> Some (a\<lparr>al_hub := h, al_pc := Casting ev ids d\<rparr>))
   | Done \<Rightarrow> None
   | Panicked \<Rightarrow> None)"

text \<open>The whole goroutine left to itself, with the choices it meets.\<close>

fun worker_run :: "choice list \<Rightarrow> async_logger \<Rightarrow> async_logger" where
  "worker_run [] a = a"
| "worker_run (c # cs) a = (case worker_step c a of None \<Rightarrow> a | Some a' \<Rightarrow> worker_run cs a')"

section \<open>Interleavings\<close>

text \<open>What a consumer does to its channel: take the oldest event.\<close>

definition consume :: "nat \<Rightarrow> hub \<Rightarrow> hub option" where
  "consume i = hub_update (\<lambda>s. case ch_buf (sb_ch s) of
     [] \<Rightarrow> None | _ # es \<Rightarrow> Some (s\<lparr>sb_ch := (sb_ch s)\<lparr>ch_buf := es\<rparr>\<rparr>)) i"

text \<open>The cancel function first leaves the registry and then closes the channel; a broadcast
  may run in between, with a copy of the registry that still names the subscriber.\<close>

inductive async_step :: "async_logger \<Rightarrow> async_logger \<Rightarrow> bool" where
  log: "async_step a (fst (async_Log ev a))"
| close: "async_Close a = Some a' \<Longrightarrow> async_step a a'"
| subscribe: "async_step a (snd (async_Subscribe buf a))"
| unregister: "i \<in> dom (hb_mem (al_hub a)) \<Longrightarrow>
    async_step a (a\<lparr>al_hub := hub_unregister i (al_hub a)\<rparr>)"
| close_sub: "i \<notin> set (hb_subs (al_hub a)) \<Longrightarrow>
    hub_update subscriber_closeOnce i (al_hub a) = Some h \<Longrightarrow> async_step a (a\<lparr>al_hub := h\<rparr>)"
| consume: "consume i (al_hub a) = Some h \<Longrightarrow> async_step a (a\<lparr>al_hub := h\<rparr>)"
| worker: "worker_step c a = Some a' \<Longrightarrow> async_step a a'"

inductive async_reachable :: "async_logger \<Rightarrow> bool" where
  new: "async_reachable (NewAsyncLogger bufferSize perCallTimeout)"
| step: "async_reachable a \<Longrightarrow> async_step a a' \<Longrightarrow> async_reachable a'"

section \<open>Reads\<close>

text \<open>Reads go straight to the inner logger's methods; its optional interfaces are options.\<close>

definition async_Query :: "(query_filter \<Rightarrow> event list result) \<Rightarrow> query_filter \<Rightarrow> event list result" where
  "async_Query innerQuery f = innerQuery f"
definition async_Count :: "(query_filter \<Rightarrow> int result) \<Rightarrow> query_filter \<Rightarrow> int result" where
  "async_Count innerCount f = innerCount f"
definition async_TimeSeries ::
  "(gotime \<Rightarrow> gotime \<Rightarrow> duration \<Rightarrow> time_point list result) \<Rightarrow> gotime \<Rightarrow> gotime \<Rightarrow> duration \<Rightarrow> time_point list result" where
  "async_TimeSeries inner frm to bucket = inner frm to bucket"
definition async_Breakdown ::
  "(gotime \<Rightarrow> gotime \<Rightarrow> string \<Rightarrow> breakdown_point list result) \<Rightarrow> gotime \<Rightarrow> gotime \<Rightarrow> string \<Rightarrow> breakdown_point list result" where
  "async_Breakdown inner frm to dimension = inner frm to dimension"
definition async_Stats :: "(gotime \<Rightarrow> gotime \<Rightarrow> stats result) \<Rightarrow> gotime \<Rightarrow> gotime \<Rightarrow> stats result" where
  "async_Stats inner frm to = inner frm to"

definition async_GetPayload ::
  "(string \<Rightarrow> payload option result) option \<Rightarrow> string \<Rightarrow> payload option result" where
  "async_GetPayload inner eventID = (case inner of
     None \<Rightarrow> Inr None | Some getPayload \<Rightarrow> getPayload eventID)"

fun stream_fallback ::
  "nat \<Rightarrow> event list \<Rightarrow> (event \<Rightarrow> 'a \<Rightarrow> goerr option \<times> 'a) \<Rightarrow> 'a \<Rightarrow> goerr option \<times> 'a" where
  "stream_fallback i [] fn acc = (None, acc)"
| "stream_fallback i (ev # evs) fn acc =
     (if int i \<ge> MaxQueryLimit then (None, acc)
      else case fn ev acc of
        (Some e, acc') \<Rightarrow> (Some e, acc')
      | (None, acc') \<Rightarrow> stream_fallback (Suc i) evs fn acc')"

definition async_Stream ::
  "(query_filter \<Rightarrow> (event \<Rightarrow> 'a \<Rightarrow> goerr option \<times> 'a) \<Rightarrow> 'a \<Rightarrow> goerr option \<times> 'a) option \<Rightarrow>
   (query_filter \<Rightarrow> event list result) \<Rightarrow>
   query_filter \<Rightarrow> (event \<Rightarrow> 'a \<Rightarrow> goerr option \<times> 'a) \<Rightarrow> 'a \<Rightarrow> goerr option \<times> 'a" where
  "async_Stream innerStream innerQuery f fn acc = (case innerStream of
     Some stream \<Rightarrow> stream f fn acc
   | None \<Rightarrow>
       (let f = (if qf_Limit f \<le> 0 \<or> qf_Limit f > MaxQueryLimit then f\<lparr>qf_Limit := MaxQueryLimit\<rparr> else f)
        in case innerQuery f of
             Inl e \<Rightarrow> (Some e, acc)
           | Inr evs \<Rightarrow> stream_fallback 0 evs fn acc))"

section \<open>The no-op logger\<close>

definition noop_Log :: "event \<Rightarrow> goerr option" where "noop_Log ev = None"
definition noop_Query :: "query_filter \<Rightarrow> event list result" where "noop_Query f = Inr []"
definition noop_Count :: "query_filter \<Rightarrow> int result" where "noop_Count f = Inr 0"
definition noop_TimeSeries :: "gotime \<Rightarrow> gotime \<Rightarrow> duration \<Rightarrow> time_point list result" where
  "noop_TimeSeries frm to bucket = Inr []"
definition noop_Breakdown :: "gotime \<Rightarrow> gotime \<Rightarrow> string \<Rightarrow> breakdown_point list result" where
  "noop_Breakdown frm to dimension = Inr []"
definition noop_Stats :: "gotime \<Rightarrow> gotime \<Rightarrow> stats result" where
  "noop_Stats frm to = Inr \<lparr>st_Total = 0, st_Errors = 0, st_ErrorRate = 0, st_AvgDurationMS = 0,
     st_P50DurationMS = 0, st_P95DurationMS = 0, st_UniqueSubjects = 0, st_UniqueTools = 0\<rparr>"
definition noop_Stream :: "query_filter \<Rightarrow> (event \<Rightarrow> 'a \<Rightarrow> goerr option \<times> 'a) \<Rightarrow> 'a \<Rightarrow> goerr option \<times> 'a" where
  "noop_Stream f fn acc = (None, acc)"

section \<open>The queue\<close>

fun inflight :: "worker \<Rightarrow> event list" where
  "inflight (Writing ev d) = [ev]"
| "inflight _ = []"

definition queue_ok :: "async_logger \<Rightarrow> bool" where
  "queue_ok a \<longleftrightarrow> al_accepted a = al_processed a @ inflight (al_pc a) @ al_ch a \<and>
     length (al_ch a) \<le> al_cap a \<and> 0 < al_cap a \<and> al_dropped a = of_nat (al_drops a) \<and>
     subseq (al_written a) (al_processed a)"

inductive_cases async_stepE: "async_step a a'"

lemma inflight_resume [simp]: "inflight (resume_pc d) = []"
  by (simp add: resume_pc_def)

lemma worker_step_cases:
  assumes "worker_step c a = Some a'"
  obtains
    (recv) ev q d where "al_pc a = resume_pc d" "al_ch a = ev # q" "a' = a\<lparr>al_ch := q, al_pc := Writing ev d\<rparr>"
  | (stop) "al_pc a = Running" "al_stop a" "a' = a\<lparr>al_pc := Draining\<rparr>"
  | (finish) "al_pc a = Draining" "al_ch a = []" "a' = a\<lparr>al_pc := Done\<rparr>"
  | (ok) ev d where "al_pc a = Writing ev d" "a' = a\<lparr>al_processed := al_processed a @ [ev],
      al_written := al_written a @ [ev], al_pc := Wrote ev d\<rparr>"
  | (failed) ev d where "al_pc a = Writing ev d"
      "a' = a\<lparr>al_processed := al_processed a @ [ev], al_pc := resume_pc d\<rparr>"
  | (snapshot) ev d where "al_pc a = Wrote ev d" "a' = a\<lparr>al_pc := Casting ev (hb_subs (al_hub a)) d\<rparr>"
  | (sent) ev d where "al_pc a = Casting ev [] d" "a' = a\<lparr>al_pc := resume_pc d\<rparr>"
  | (send) ev i ids d h where "al_pc a = Casting ev (i # ids) d"
      "hub_update (\<lambda>s. subscriber_send s ev) i (al_hub a) = Some h"
      "a' = a\<lparr>al_hub := h, al_pc := Casting ev ids d\<rparr>"
  | (panic) ev i ids d where "al_pc a = Casting ev (i # ids) d"
      "hub_update (\<lambda>s. subscriber_send s ev) i (al_hub a) = None" "a' = a\<lparr>al_pc := Panicked\<rparr>"
proof (cases "al_pc a")
  case Running
  show thesis
  proof (cases "al_ch a \<noteq> [] \<and> (al_stop a \<longrightarrow> pick_recv c)")
    case True
    with Running assms show thesis
      by (intro recv [of False "hd (al_ch a)" "tl (al_ch a)"])
         (auto simp: resume_pc_def split: list.splits)
  next
    case False
    with Running assms show thesis by (intro stop) (auto split: list.splits if_splits)
  qed
next
  case Draining
  show thesis
  proof (cases "al_ch a")
    case Nil
    with Draining assms show thesis by (intro finish) auto
  next
    case (Cons ev q)
    with Draining assms show thesis by (intro recv [of True ev q]) (auto simp: resume_pc_def)
  qed
next
  case (Writing ev d)
  show thesis
  proof (cases "log_ok c")
    case True
    with Writing assms show thesis by (intro ok [of ev d]) auto
  next
    case False
    with Writing assms show thesis by (intro failed [of ev d]) auto
  qed
next
  case (Wrote ev d)
  with assms show thesis by (intro snapshot [of ev d]) auto
next
  case (Casting ev ids d)
  show thesis
  proof (cases ids)
    case Nil
    with Casting assms show thesis by (intro sent [of ev d]) auto
  next
    case (Cons i is')
    show thesis
    proof (cases "hub_update (\<lambda>s. subscriber_send s ev) i (al_hub a)")
      case None
      with Casting Cons assms show thesis by (intro panic [of ev i is' d]) auto
    next
      case (Some h)
      with Casting Cons assms show thesis by (intro send [of ev i is' d h]) auto
    qed
  qed
next
  case Done
  with assms show thesis by simp
next
  case Panicked
  with assms show thesis by simp
qed

lemma queue_ok_new: "queue_ok (NewAsyncLogger n t)"
  by (simp add: queue_ok_def NewAsyncLogger_def Let_def)

lemma queue_ok_worker: "worker_step c a = Some a' \<Longrightarrow> queue_ok a \<Longrightarrow> queue_ok a'"
  by (erule worker_step_cases) (auto simp: queue_ok_def list_emb_append_mono intro: subseq_order.trans)

lemma queue_ok_step:
  assumes "async_step a a'" and "queue_ok a"
  shows "queue_ok a'"
  using assms
proof (cases rule: async_step.cases)
  case close
  then show ?thesis using assms(2) by (auto simp: async_Close_def queue_ok_def split: if_splits)
next
  case (worker c)
  then show ?thesis using assms(2) queue_ok_worker by blast
qed (use assms(2) in \<open>auto simp: queue_ok_def async_Log_def async_Subscribe_def Let_def split: prod.splits\<close>)

section \<open>The live tail\<close>

text \<open>The events subscriber \<open>i\<close> may have been sent so far: all that were persisted, but for the
  one whose broadcast has not reached it.\<close>

fun pending :: "worker \<Rightarrow> nat \<Rightarrow> bool" where
  "pending (Wrote ev d) i = True"
| "pending (Casting ev ids d) i = (i \<in> set ids)"
| "pending _ i = False"

fun casting :: "worker \<Rightarrow> event option" where
  "casting (Wrote ev d) = Some ev"
| "casting (Casting ev ids d) = Some ev"
| "casting _ = None"

fun cast_list :: "worker \<Rightarrow> nat list" where
  "cast_list (Casting ev ids d) = ids"
| "cast_list _ = []"

definition offered :: "async_logger \<Rightarrow> nat \<Rightarrow> event list" where
  "offered a i = (if pending (al_pc a) i then butlast (al_written a) else al_written a)"

definition tail_ok :: "async_logger \<Rightarrow> bool" where
  "tail_ok a \<longleftrightarrow> hub_ok (al_hub a) \<and> al_pc a \<noteq> Panicked \<and>
     (\<forall>ev. casting (al_pc a) = Some ev \<longrightarrow> (\<exists>w. al_written a = w @ [ev])) \<and>
     distinct (cast_list (al_pc a)) \<and> set (cast_list (al_pc a)) \<subseteq> dom (hb_mem (al_hub a)) \<and>
     (\<forall>i s. hb_mem (al_hub a) i = Some s \<longrightarrow> subseq (ch_buf (sb_ch s)) (offered a i))"

lemma resume_simps [simp]:
  "pending (resume_pc d) i = False" "casting (resume_pc d) = None" "cast_list (resume_pc d) = []"
  "resume_pc d \<noteq> Panicked"
  by (simp_all add: resume_pc_def)

lemma offered_written: "subseq (offered a i) (al_written a)"
  unfolding offered_def by (simp add: prefix_imp_subseq prefixeq_butlast)

lemma tail_ok_new: "tail_ok (NewAsyncLogger n t)"
  by (simp add: tail_ok_def NewAsyncLogger_def Let_def empty_hub_ok) (simp add: empty_hub_def)

lemma tail_okD: "tail_ok a \<Longrightarrow> hb_mem (al_hub a) i = Some s \<Longrightarrow> subseq (ch_buf (sb_ch s)) (offered a i)"
  by (simp add: tail_ok_def)

lemma tail_ok_cong:
  assumes "al_hub a' = al_hub a" and "al_pc a' = al_pc a" and "al_written a' = al_written a"
  shows "tail_ok a' = tail_ok a"
  using assms by (simp add: tail_ok_def offered_def)

lemma hub_update_SomeE:
  assumes "hub_update f i h = Some h'"
  obtains s s' where "hb_mem h i = Some s" "f s = Some s'" "h' = h\<lparr>hb_mem := (hb_mem h)(i \<mapsto> s')\<rparr>"
  using assms by (auto simp: hub_update_def split: option.splits)

text \<open>Replacing the hub keeps the invariant when no subscriber disappears and each has a part of
  what it was offered.\<close>

lemma tail_ok_hub:
  assumes "tail_ok a" and "hub_ok h" and "dom (hb_mem (al_hub a)) \<subseteq> dom (hb_mem h)"
    and "\<And>i s. hb_mem h i = Some s \<Longrightarrow> ch_buf (sb_ch s) = [] \<or>
      (\<exists>s0. hb_mem (al_hub a) i = Some s0 \<and> suffix (ch_buf (sb_ch s)) (ch_buf (sb_ch s0)))"
  shows "tail_ok (a\<lparr>al_hub := h\<rparr>)"
proof -
  have "subseq (ch_buf (sb_ch s)) (offered a i)" if "hb_mem h i = Some s" for i s
    using assms(4) [OF that] tail_okD [OF assms(1)]
    by (metis list_emb_Nil subseq_order.trans suffix_imp_subseq)
  moreover have "offered (a\<lparr>al_hub := h\<rparr>) = offered a" by (rule ext) (simp add: offered_def)
  moreover have "set (cast_list (al_pc a)) \<subseteq> dom (hb_mem h)"
    using assms(1,3) unfolding tail_ok_def by (metis subset_trans)
  ultimately show ?thesis using assms(1,2) by (simp add: tail_ok_def)
qed

lemma tail_ok_close_sub:
  assumes "tail_ok a" and "i \<notin> set (hb_subs (al_hub a))"
    and "hub_update subscriber_closeOnce i (al_hub a) = Some h"
  shows "tail_ok (a\<lparr>al_hub := h\<rparr>)"
  using assms(3)
proof (rule hub_update_SomeE)
  fix s s'
  assume s: "hb_mem (al_hub a) i = Some s" "subscriber_closeOnce s = Some s'"
    and h: "h = al_hub a\<lparr>hb_mem := (hb_mem (al_hub a))(i \<mapsto> s')\<rparr>"
  have ok: "hub_ok (al_hub a)" using assms(1) by (simp add: tail_ok_def)
  then have "sub_ok s" using s(1) hub_okD(1) by blast
  then have s': "sub_ok s'" "ch_buf (sb_ch s') = ch_buf (sb_ch s)"
    using s(2) asub.close_total [of s] by (metis option.inject)+
  then have "hub_ok h" using ok assms(2) s(1) by (auto simp: h hub_ok_def)
  then show ?thesis using assms(1) s s' by (intro tail_ok_hub) (auto simp: h split: if_splits)
qed

lemma tail_ok_consume:
  assumes "tail_ok a" and "consume i (al_hub a) = Some h"
  shows "tail_ok (a\<lparr>al_hub := h\<rparr>)"
  using assms(2) unfolding consume_def
proof (rule hub_update_SomeE)
  fix s s'
  assume s: "hb_mem (al_hub a) i = Some s"
    "(case ch_buf (sb_ch s) of [] \<Rightarrow> None | _ # es \<Rightarrow> Some (s\<lparr>sb_ch := (sb_ch s)\<lparr>ch_buf := es\<rparr>\<rparr>)) = Some s'"
    and h: "h = al_hub a\<lparr>hb_mem := (hb_mem (al_hub a))(i \<mapsto> s')\<rparr>"
  have ok: "hub_ok (al_hub a)" using assms(1) by (simp add: tail_ok_def)
  then have "sub_ok s" using s(1) hub_okD(1) by blast
  with s(2) have s': "sub_ok s'" "sb_closed s' = sb_closed s" "suffix (ch_buf (sb_ch s')) (ch_buf (sb_ch s))"
    by (auto simp: sub_ok_def suffix_Cons split: list.splits)
  then have "hub_ok h" using ok s(1) by (auto simp: h hub_ok_def)
  then show ?thesis using assms(1) s s' by (intro tail_ok_hub) (auto simp: h split: if_splits)
qed

lemma tail_ok_send:
  assumes "tail_ok a" and "al_pc a = Casting ev (i # ids) d"
  obtains h where "hub_update (\<lambda>s. subscriber_send s ev) i (al_hub a) = Some h"
    and "tail_ok (a\<lparr>al_hub := h, al_pc := Casting ev ids d\<rparr>)"
proof -
  from assms obtain s w where s: "hb_mem (al_hub a) i = Some s" and w: "al_written a = w @ [ev]"
    by (auto simp: tail_ok_def)
  from assms(1) have ok: "hub_ok (al_hub a)" by (simp add: tail_ok_def)
  then have "sub_ok s" using s hub_okD(1) by blast
  then obtain s' where s': "subscriber_send s ev = Some s'" "sub_ok s'" "sb_closed s' = sb_closed s"
    "ch_buf (sb_ch s') = ch_buf (sb_ch s) \<or> ch_buf (sb_ch s') = ch_buf (sb_ch s) @ [ev]"
    by (rule asub.send_total)
  have "subseq (ch_buf (sb_ch s)) w"
    using tail_okD [OF assms(1) s] assms(2) w by (simp add: offered_def)
  then have "subseq (ch_buf (sb_ch s')) (w @ [ev])"
    using s'(4) by (auto intro: list_emb_append_mono subseq_order.trans)
  let ?h = "al_hub a\<lparr>hb_mem := (hb_mem (al_hub a))(i \<mapsto> s')\<rparr>"
  let ?a = "a\<lparr>al_hub := ?h, al_pc := Casting ev ids d\<rparr>"
  have "subseq (ch_buf (sb_ch t)) (offered ?a j)" if "hb_mem ?h j = Some t" for j t
    using that assms \<open>subseq (ch_buf (sb_ch s')) (w @ [ev])\<close> w
    by (auto simp: tail_ok_def offered_def split: if_splits)
  moreover have "hub_ok ?h" using ok s s' by (auto simp: hub_ok_def)
  ultimately have "tail_ok ?a" using assms by (auto simp: tail_ok_def)
  with s s'(1) show thesis by (intro that [of ?h]) (simp_all add: hub_update_def)
qed

lemma tail_ok_worker:
  assumes "worker_step c a = Some a'" and "tail_ok a"
  shows "tail_ok a'"
  using assms(1)
proof (cases rule: worker_step_cases)
  case (ok ev d)
  then have "subseq (ch_buf (sb_ch s)) (al_written a)" if "hb_mem (al_hub a) i = Some s" for i s
    using assms(2) that by (auto simp: tail_ok_def offered_def)
  then show ?thesis using assms(2) ok by (auto simp: tail_ok_def offered_def)
next
  case (snapshot ev d)
  have "subseq (ch_buf (sb_ch s)) (offered a' i)" if "hb_mem (al_hub a) i = Some s" for i s
    using tail_okD [OF assms(2) that] snapshot offered_written [of a i]
    by (auto simp: offered_def intro: subseq_order.trans)
  then show ?thesis using assms(2) snapshot by (auto simp: tail_ok_def hub_ok_def)
next
  case (send ev i ids d h)
  then show ?thesis using tail_ok_send [OF assms(2) send(1)] by (metis option.inject)
next
  case (panic ev i ids d)
  then show ?thesis using tail_ok_send [OF assms(2) panic(1)] by (metis option.distinct(1))
qed (use assms(2) in \<open>auto simp: tail_ok_def offered_def\<close>)

lemma tail_ok_step:
  assumes "async_step a a'" and "tail_ok a"
  shows "tail_ok a'"
  using assms(1)
proof (cases rule: async_step.cases)
  case (log ev)
  then have "tail_ok a' = tail_ok a" by (intro tail_ok_cong) (simp_all add: async_Log_def Let_def)
  then show ?thesis using assms(2) by simp
next
  case close
  then have "tail_ok a' = tail_ok a" by (intro tail_ok_cong) (auto simp: async_Close_def split: if_splits)
  then show ?thesis using assms(2) by simp
next
  case (subscribe buf)
  have "hub_ok (snd (hub_subscribe buf (al_hub a)))"
    using assms(2) hub_subscribe_ok by (simp add: tail_ok_def)
  then have "tail_ok (a\<lparr>al_hub := snd (hub_subscribe buf (al_hub a))\<rparr>)"
    using assms(2) by (intro tail_ok_hub) (auto simp: hub_subscribe_def Let_def split: if_splits)
  then show ?thesis using subscribe by (simp add: async_Subscribe_def split: prod.splits)
next
  case (unregister i)
  have "hub_ok (hub_unregister i (al_hub a))" using assms(2) hub_unregister_ok by (simp add: tail_ok_def)
  then have "tail_ok (a\<lparr>al_hub := hub_unregister i (al_hub a)\<rparr>)"
    using assms(2) by (intro tail_ok_hub) (auto simp: hub_unregister_def)
  then show ?thesis using unregister by simp
qed (use assms(2) in \<open>auto simp: tail_ok_close_sub tail_ok_consume tail_ok_worker\<close>)

lemma async_reachable_ok: "async_reachable a \<Longrightarrow> queue_ok a \<and> tail_ok a"
  by (induction rule: async_reachable.induct)
     (simp_all add: queue_ok_new tail_ok_new queue_ok_step tail_ok_step)

section \<open>Draining ends\<close>

definition pc_cost :: "nat \<Rightarrow> worker \<Rightarrow> nat" where
  "pc_cost n pc = (case pc of
     Done \<Rightarrow> 0 | Panicked \<Rightarrow> 0 | Draining \<Rightarrow> 1 | Running \<Rightarrow> 2
   | Casting ev ids d \<Rightarrow> length ids + (if d then 2 else 3)
   | Wrote ev d \<Rightarrow> n + (if d then 3 else 4)
   | Writing ev d \<Rightarrow> n + (if d then 4 else 5))"

definition drain_steps :: "async_logger \<Rightarrow> nat" where
  "drain_steps a = (let n = length (hb_subs (al_hub a))
     in (n + 4) * length (al_ch a) + pc_cost n (al_pc a))"

lemma pc_cost_resume: "pc_cost n (resume_pc d) = (if d then 1 else 2)"
  by (simp add: resume_pc_def pc_cost_def)

lemma worker_step_decreases:
  assumes "worker_step c a = Some a'"
  shows "drain_steps a' < drain_steps a \<and> al_stop a' = al_stop a \<and> al_accepted a' = al_accepted a"
  using assms
proof (cases rule: worker_step_cases)
  case (send ev i ids d h)
  then have "hb_subs h = hb_subs (al_hub a)" by (auto elim: hub_update_SomeE)
  with send show ?thesis by (simp add: drain_steps_def Let_def pc_cost_def)
qed (simp_all add: drain_steps_def Let_def pc_cost_resume, simp_all add: pc_cost_def)

lemma worker_progress:
  assumes "worker_step c a = None" and "al_pc a \<noteq> Panicked"
  shows "al_pc a = Done \<or> al_pc a = Running \<and> al_ch a = [] \<and> \<not> al_stop a"
  using assms by (auto split: worker.splits list.splits option.splits if_splits)

text \<open>The worker left to itself empties the queue, and ends if \<open>stop\<close> is closed.\<close>

lemma worker_run_done:
  assumes "queue_ok a" and "tail_ok a" and "drain_steps a \<le> length cs" and "al_pc a = Done \<longrightarrow> al_ch a = []"
  shows "al_ch (worker_run cs a) = [] \<and> al_processed (worker_run cs a) = al_accepted a \<and>
    (al_stop a \<longrightarrow> al_pc (worker_run cs a) = Done)"
  using assms
proof (induction cs arbitrary: a)
  case Nil
  then have "drain_steps a = 0" by simp
  then have "al_pc a = Done \<or> al_pc a = Panicked"
    by (auto simp: drain_steps_def pc_cost_def Let_def split: worker.splits if_splits)
  then show ?case using Nil by (auto simp: tail_ok_def queue_ok_def)
next
  case (Cons c cs)
  show ?case
  proof (cases "worker_step c a")
    case None
    with worker_progress [OF None] Cons.prems show ?thesis
      by (auto simp: tail_ok_def queue_ok_def simp del: worker_step.simps)
  next
    case (Some a')
    note d = worker_step_decreases [OF Some]
    have "al_pc a' = Done \<longrightarrow> al_ch a' = []"
      using Some by (cases rule: worker_step_cases) (auto simp: resume_pc_def split: if_splits)
    then have "al_ch (worker_run cs a') = [] \<and> al_processed (worker_run cs a') = al_accepted a' \<and>
        (al_stop a' \<longrightarrow> al_pc (worker_run cs a') = Done)"
      using Cons.prems d queue_ok_worker [OF Some] tail_ok_worker [OF Some] by (intro Cons.IH) simp_all
    then show ?thesis using Some d by (simp del: worker_step.simps)
  qed
qed

lemma worker_run_stop [simp]: "al_stop (worker_run cs a) = al_stop a"
  by (induction cs arbitrary: a) (auto simp: worker_step_decreases simp del: worker_step.simps split: option.splits)

lemma stopOnce_stop: "async_reachable b \<Longrightarrow> al_stopOnce b \<longrightarrow> al_stop b"
proof (induction rule: async_reachable.induct)
  case (new bufferSize perCallTimeout)
  then show ?case by (simp add: NewAsyncLogger_def Let_def)
next
  case (step b b')
  from step(2) show ?case
  proof (cases rule: async_step.cases)
    case (worker c)
    from worker show ?thesis using step.IH by (cases rule: worker_step_cases) auto
  qed (use step.IH in \<open>auto simp: async_Log_def async_Close_def async_Subscribe_def Let_def
      split: if_splits prod.splits\<close>)
qed

lemma done_frozen:
  assumes "async_step x y" and "al_pc x = Done"
  shows "al_pc y = Done \<and> al_processed y = al_processed x \<and> al_written y = al_written x \<and>
    set (al_ch x) \<subseteq> set (al_ch y)"
  using assms(1)
proof (cases rule: async_step.cases)
  case (worker c)
  then show ?thesis using assms(2) by simp
qed (use assms(2) in \<open>auto simp: async_Log_def async_Close_def async_Subscribe_def Let_def
    split: if_splits prod.splits\<close>)

section \<open>Properties\<close>



text \<open>C14: The live tail shows only persisted events. Whatever the interleaving of broadcasts
  with subscribing, cancelling and consuming, the events in a subscriber's channel are, in order
  and without repetition, among the events whose write succeeded, which in turn are a
  subsequence of the accepted ones; a failed write is never shown.\<close>

theorem async_tail_persisted:
  assumes "async_reachable a" and "hb_mem (al_hub a) i = Some s"
  shows "subseq (ch_buf (sb_ch s)) (al_written a) \<and> subseq (al_written a) (al_accepted a)"
proof -
  have ok: "queue_ok a" "tail_ok a" using async_reachable_ok [OF assms(1)] by simp_all
  from ok(2) assms(2) have "subseq (ch_buf (sb_ch s)) (al_written a)"
    using tail_okD offered_written subseq_order.trans by blast
  moreover have "subseq (al_written a) (al_accepted a)"
    using ok(1) by (auto simp: queue_ok_def intro: list_emb_append2 subseq_order.trans)
  ultimately show ?thesis ..
qed

theorem async_tail_persisted_witness:
  "subseq (ch_buf (sb_ch \<lparr>sb_ch = \<lparr>ch_buf = [], ch_cap = 3, ch_closed = False\<rparr>, sb_closed = False\<rparr>))
     (al_written (snd (async_Subscribe 3 (NewAsyncLogger 2 1))))"
proof -
  let ?a = "snd (async_Subscribe 3 (NewAsyncLogger 2 1))"
  have "async_reachable ?a" by (rule async_reachable.step [OF async_reachable.new async_step.subscribe])
  moreover have "hb_mem (al_hub ?a) 0 =
      Some \<lparr>sb_ch = \<lparr>ch_buf = [], ch_cap = 3, ch_closed = False\<rparr>, sb_closed = False\<rparr>"
    by (simp add: async_Subscribe_def NewAsyncLogger_def hub_subscribe_def empty_hub_def)
  ultimately show ?thesis by (rule async_tail_persisted [THEN conjunct1])
qed

text \<open>\<open>Close\<close> drains. Once \<open>stop\<close> is closed the worker, left to run, is never blocked and
  reaches its end within a number of steps linear in the queue length and the number of
  subscribers, whichever way its \<open>select\<close> picks and whether or not the writes succeed; then
  \<open>Close\<close> returns, the queue is empty and every event accepted before has been processed, in
  order.\<close>

theorem async_close_drains:
  assumes "async_reachable a" and "async_Close a = Some a'" and "al_pc a \<noteq> Done"
    and "drain_steps a' \<le> length cs"
  shows "close_returns (worker_run cs a') \<and> al_ch (worker_run cs a') = [] \<and>
    al_processed (worker_run cs a') = al_accepted a"
proof -
  have r: "async_reachable a'" using assms(1,2) async_reachable.step async_step.close by blast
  from assms(1,2) stopOnce_stop [of a] have a': "al_stop a'" "al_pc a' = al_pc a" "al_accepted a' = al_accepted a"
    by (auto simp: async_Close_def split: if_splits)
  from worker_run_done [of a' cs] a' assms async_reachable_ok [OF r] show ?thesis
    by (simp add: close_returns_def)
qed

theorem async_close_drains_witness:
  "al_processed (worker_run (replicate 9 \<lparr>pick_recv = True, log_ok = False\<rparr>)
     (the (async_Close (fst (async_Log zero_event (NewAsyncLogger 2 1)))))) = [zero_event]"
proof -
  let ?a = "fst (async_Log zero_event (NewAsyncLogger 2 1))"
  let ?b = "?a\<lparr>al_stopOnce := True, al_stop := True\<rparr>"
  have r: "async_reachable ?a" by (rule async_reachable.step [OF async_reachable.new async_step.log])
  have c: "async_Close ?a = Some ?b"
    by (simp add: async_Close_def async_Log_def NewAsyncLogger_def)
  have "al_pc ?a \<noteq> Done" "drain_steps ?b \<le> 9"
    by (simp_all add: async_Log_def NewAsyncLogger_def drain_steps_def pc_cost_def empty_hub_def)
  then have "al_processed (worker_run (replicate 9 \<lparr>pick_recv = True, log_ok = False\<rparr>) ?b) = al_accepted ?a"
    using async_close_drains [OF r c, of "replicate 9 \<lparr>pick_recv = True, log_ok = False\<rparr>"] by simp
  moreover have "al_accepted ?a = [zero_event]" by (simp add: async_Log_def NewAsyncLogger_def)
  ultimately show ?thesis using c by simp
qed

text \<open>An event logged after shutdown is lost silently. Once the worker has finished, no
  further step of any kind processes an event, while \<open>Log\<close> keeps accepting events into the
  queue without counting them as dropped as long as there is room.\<close>

theorem async_log_after_close_lost:
  assumes "al_pc a = Done" and "async_step\<^sup>*\<^sup>* (fst (async_Log ev a)) b"
    and "length (al_ch a) < al_cap a"
  shows "al_pc b = Done \<and> al_processed b = al_processed a \<and> al_written b = al_written a \<and>
    Dropped (fst (async_Log ev a)) = Dropped a \<and> ev \<in> set (al_ch b)"
proof -
  have "al_pc b = Done \<and> al_processed b = al_processed (fst (async_Log ev a)) \<and>
      al_written b = al_written (fst (async_Log ev a)) \<and> set (al_ch (fst (async_Log ev a))) \<subseteq> set (al_ch b)"
    using assms(2)
  proof (induction rule: rtranclp_induct)
    case base
    then show ?case using assms(1) by (simp add: async_Log_def Let_def)
  next
    case (step y z)
    then show ?case using done_frozen [of y z] by auto
  qed
  then show ?thesis using assms(3) by (auto simp: async_Log_def Dropped_def)
qed

theorem async_log_after_close_lost_witness:
  "zero_event \<in> set (al_ch (fst (async_Log zero_event (NewAsyncLogger 1 1\<lparr>al_pc := Done\<rparr>))))"
proof -
  have "length (al_ch (NewAsyncLogger 1 1\<lparr>al_pc := Done\<rparr>)) < al_cap (NewAsyncLogger 1 1\<lparr>al_pc := Done\<rparr>)"
    by (simp add: NewAsyncLogger_def)
  then show ?thesis
    using async_log_after_close_lost [of "NewAsyncLogger 1 1\<lparr>al_pc := Done\<rparr>" zero_event, OF _ rtranclp.rtrancl_refl]
    by simp
qed

lemma stream_fallback_visit:
  "stream_fallback i evs fn acc = visit (\<lambda>_. None) n fn (take (1000 - i) evs) acc"
proof (induction evs arbitrary: i n acc)
  case Nil
  then show ?case by simp
next
  case (Cons ev evs)
  show ?case
  proof (cases "i < 1000")
    case True
    then obtain k where "1000 - i = Suc k" "1000 - Suc i = k" by (metis Suc_diff_Suc)
    then show ?thesis using True Cons.IH [of "Suc i" _ "Suc n"] by (simp split: prod.splits option.splits)
  qed simp
qed

text \<open>A stream over a logger that cannot stream is bounded. Whatever the inner \<open>Query\<close>
  returns, even when it ignores the limit it was given, the callback sees at most
  \<open>MaxQueryLimit\<close> events, the first ones in the order of the query, until its first error.\<close>

theorem async_stream_bounded:
  "async_Stream None innerQuery f fn acc =
     (case innerQuery (f\<lparr>qf_Limit := (if qf_Limit f \<le> 0 then MaxQueryLimit else min (qf_Limit f) MaxQueryLimit)\<rparr>) of
        Inl e \<Rightarrow> (Some e, acc)
      | Inr evs \<Rightarrow> visit (\<lambda>_. None) 0 fn (take 1000 evs) acc)"
proof -
  have "(if qf_Limit f \<le> 0 \<or> qf_Limit f > MaxQueryLimit then f\<lparr>qf_Limit := MaxQueryLimit\<rparr> else f) =
      f\<lparr>qf_Limit := (if qf_Limit f \<le> 0 then MaxQueryLimit else min (qf_Limit f) MaxQueryLimit)\<rparr>"
    by (auto simp: min_def)
  then show ?thesis
    using stream_fallback_visit [of 0 _ fn acc 0] by (simp add: async_Stream_def split: sum.splits)
qed

end
