(* ===== verification/Audit_Pipeline.thy ===== *)
theory Audit_Pipeline
  imports Audit_Backends Audit_Async
begin

text \<open>
  The audit pipeline of the running server: the asynchronous logger of \<open>pkg/audit/async.go\<close> with
  the Postgres store of \<open>pkg/audit/postgres/store.go\<close> as its inner logger, as \<open>Build\<close> puts them
  together. The worker's write is a \<open>pg_Log\<close> on the database; every other step is one of
  \<open>async_step\<close>. The specification is synchronous logging: the database after a list of successful
  writes, one after the other. A write that reports an error has not changed the database, as
  \<open>pg_Log\<close> has it.
\<close>

section \<open>The composed system\<close>

text \<open>\<open>pi_ids\<close> (the uuids given to the writes that went through) and \<open>pi_failed\<close> (how many did not)
  are history.\<close>

record pipe =
  pi_async :: async_logger
  pi_db :: pg_db
  pi_ids :: "string list"
  pi_failed :: nat

text \<open>What a step of the worker meets: the \<open>select\<close>, the database and the next uuid.\<close>

record pipe_choice =
  pp_pick :: bool
  pp_io :: "nat \<Rightarrow> goerr option"
  pp_uid :: string

definition pipe_worker :: "codec \<Rightarrow> pipe_choice \<Rightarrow> pipe \<Rightarrow> pipe option" where
  "pipe_worker cd c p = (case al_pc (pi_async p) of
     Writing ev d \<Rightarrow>
       (case pg_Log cd (pp_io c) (pp_uid c) ev (pi_db p) of
          (err, db) \<Rightarrow>
            map_option (\<lambda>a. p\<lparr>pi_async := a, pi_db := db,
                pi_ids := (if err = None then pi_ids p @ [pp_uid c] else pi_ids p),
                pi_failed := (if err = None then pi_failed p else Suc (pi_failed p))\<rparr>)
              (worker_step \<lparr>pick_recv = pp_pick c, log_ok = (err = None)\<rparr> (pi_async p)))
   | _ \<Rightarrow> map_option (\<lambda>a. p\<lparr>pi_async := a\<rparr>) (worker_step \<lparr>pick_recv = pp_pick c, log_ok = True\<rparr> (pi_async p)))"

fun pipe_run :: "codec \<Rightarrow> pipe_choice list \<Rightarrow> pipe \<Rightarrow> pipe" where
  "pipe_run cd [] p = p"
| "pipe_run cd (c # cs) p = (case pipe_worker cd c p of None \<Rightarrow> p | Some p' \<Rightarrow> pipe_run cd cs p')"

definition NewPipe :: "int \<Rightarrow> duration \<Rightarrow> pg_db \<Rightarrow> pipe" where
  "NewPipe bufferSize perCallTimeout db =
     \<lparr>pi_async = NewAsyncLogger bufferSize perCallTimeout, pi_db = db, pi_ids = [], pi_failed = 0\<rparr>"

text \<open>The steps that leave the program counter of the worker alone are those of the callers, the
  subscribers and \<open>Close\<close>.\<close>

inductive pipe_step :: "codec \<Rightarrow> pipe \<Rightarrow> pipe \<Rightarrow> bool" for cd where
  client: "async_step (pi_async p) a \<Longrightarrow> al_pc a = al_pc (pi_async p) \<Longrightarrow> pipe_step cd p (p\<lparr>pi_async := a\<rparr>)"
| worker: "pipe_worker cd c p = Some p' \<Longrightarrow> pipe_step cd p p'"

inductive pipe_reachable :: "codec \<Rightarrow> pg_db \<Rightarrow> pipe \<Rightarrow> bool" for cd db0 where
  new: "pipe_reachable cd db0 (NewPipe bufferSize perCallTimeout db0)"
| step: "pipe_reachable cd db0 p \<Longrightarrow> pipe_step cd p p' \<Longrightarrow> pipe_reachable cd db0 p'"

section \<open>The specification\<close>

definition sync_log :: "codec \<Rightarrow> (string \<times> event) list \<Rightarrow> pg_db \<Rightarrow> pg_db" where
  "sync_log cd ws db = fold (\<lambda>(uid, ev) db. snd (pg_Log cd (\<lambda>_. None) uid ev db)) ws db"

lemma sync_log_snoc: "sync_log cd (ws @ [(uid, ev)]) db = snd (pg_Log cd (\<lambda>_. None) uid ev (sync_log cd ws db))"
  by (simp add: sync_log_def)

text \<open>A write that went through would have gone through, with the same result, on a healthy database.\<close>

lemma pg_tx_healthy: "pg_tx cd io ev db = Inr db' \<Longrightarrow> pg_tx cd (\<lambda>_. None) ev db = Inr db'"
  unfolding pg_tx_def insertPayload_def
  by (cases "ev_Payload ev") (fastforce simp: rbind_Inr wrap_err_Inr rcheck_Inr)+

lemma pg_Log_healthy:
  assumes "pg_Log cd io uid ev db = (None, db')"
  shows "pg_Log cd (\<lambda>_. None) uid ev db = (None, db')"
proof -
  from assms have "pg_tx cd io (assigned uid ev) db = Inr db'"
    by (simp add: pg_Log_def assigned_def [symmetric] Let_def split: sum.splits)
  from pg_tx_healthy [OF this] show ?thesis by (simp add: pg_Log_def assigned_def [symmetric] Let_def)
qed

section \<open>Refinement\<close>

lemma pipe_worker_step:
  assumes "pipe_worker cd c p = Some p'"
  shows "\<exists>ok. worker_step \<lparr>pick_recv = pp_pick c, log_ok = ok\<rparr> (pi_async p) = Some (pi_async p')"
  using assms unfolding pipe_worker_def
  by (cases "al_pc (pi_async p)") (auto simp del: worker_step.simps split: prod.splits)

lemma pipe_async_reachable: "pipe_reachable cd db0 p \<Longrightarrow> async_reachable (pi_async p)"
proof (induction rule: pipe_reachable.induct)
  case (new bufferSize perCallTimeout)
  then show ?case by (simp add: NewPipe_def async_reachable.new)
next
  case (step p p')
  from step(2) have "async_step (pi_async p) (pi_async p')"
  proof (cases rule: pipe_step.cases)
    case (worker c)
    then show ?thesis using pipe_worker_step async_step.worker by blast
  qed simp
  with step.IH show ?case by (rule async_reachable.step)
qed

text \<open>The simulation: the database is what synchronous logging of the written events gives, and the
  failures are what is missing.\<close>

definition refines_sync :: "codec \<Rightarrow> pg_db \<Rightarrow> pipe \<Rightarrow> bool" where
  "refines_sync cd db0 p \<longleftrightarrow>
     length (pi_ids p) = length (al_written (pi_async p)) \<and>
     pi_db p = sync_log cd (zip (pi_ids p) (al_written (pi_async p))) db0 \<and>
     length (al_processed (pi_async p)) = length (al_written (pi_async p)) + pi_failed p"

lemma client_history:
  assumes "async_step a a'" and "al_pc a' = al_pc a"
  shows "al_written a' = al_written a \<and> al_processed a' = al_processed a"
  using assms(1)
proof (cases rule: async_step.cases)
  case (worker c)
  then show ?thesis using assms(2) by (cases rule: worker_step_cases) (auto simp: resume_pc_def split: if_splits)
qed (auto simp: async_Log_def async_Close_def async_Subscribe_def Let_def split: if_splits prod.splits)

lemma pipe_worker_other:
  assumes "pipe_worker cd c p = Some p'" and "\<not> (\<exists>ev d. al_pc (pi_async p) = Writing ev d)"
  shows "pi_db p' = pi_db p \<and> pi_ids p' = pi_ids p \<and> pi_failed p' = pi_failed p \<and>
    al_written (pi_async p') = al_written (pi_async p) \<and> al_processed (pi_async p') = al_processed (pi_async p)"
proof -
  have "map_option (\<lambda>a. p\<lparr>pi_async := a\<rparr>) (worker_step \<lparr>pick_recv = pp_pick c, log_ok = True\<rparr> (pi_async p)) = Some p'"
    using assms by (cases "al_pc (pi_async p)") (auto simp: pipe_worker_def simp del: worker_step.simps)
  then obtain a where a: "worker_step \<lparr>pick_recv = pp_pick c, log_ok = True\<rparr> (pi_async p) = Some a" "p' = p\<lparr>pi_async := a\<rparr>" by auto
  from a(1) have "al_written a = al_written (pi_async p) \<and> al_processed a = al_processed (pi_async p)"
    by (cases rule: worker_step_cases) (use assms(2) in auto)
  with a(2) show ?thesis by simp
qed

lemma refines_sync_worker:
  assumes "pipe_worker cd c p = Some p'" and "refines_sync cd db0 p"
  shows "refines_sync cd db0 p'"
proof (cases "\<exists>ev d. al_pc (pi_async p) = Writing ev d")
  case True
  then obtain ev d where pc: "al_pc (pi_async p) = Writing ev d" by blast
  obtain err db where log: "pg_Log cd (pp_io c) (pp_uid c) ev (pi_db p) = (err, db)" by fastforce
  show ?thesis
  proof (cases err)
    case None
    from pg_Log_healthy [OF log [unfolded None]] assms pc log None show ?thesis
      by (auto simp: pipe_worker_def refines_sync_def sync_log_snoc)
  next
    case (Some e)
    then have "db = pi_db p" using log by (auto simp: pg_Log_def Let_def split: sum.splits)
    with assms pc log Some show ?thesis by (auto simp: pipe_worker_def refines_sync_def)
  qed
next
  case False
  with pipe_worker_other [OF assms(1)] assms(2) show ?thesis by (auto simp: refines_sync_def)
qed

text \<open>What one step of the worker does to the histories and the tables.\<close>

lemma pipe_worker_history:
  assumes "pipe_worker cd c p = Some p'"
  shows "pi_failed p' = pi_failed p \<and> (\<exists>d. al_processed (pi_async p') = al_processed (pi_async p) @ d \<and>
      al_written (pi_async p') = al_written (pi_async p) @ d) \<or> pi_failed p' = Suc (pi_failed p)"
proof (cases "\<exists>ev d. al_pc (pi_async p) = Writing ev d")
  case True
  with assms show ?thesis by (auto simp: pipe_worker_def split: prod.splits if_splits)
next
  case False
  with pipe_worker_other [OF assms] show ?thesis by auto
qed

lemma pipe_worker_db:
  assumes "pipe_worker cd c p = Some p'" and "refines_sync cd db0 p"
    and "db_ok (pi_db p) \<and> (\<forall>(uid, ev) \<in> set (zip (pi_ids p) (al_written (pi_async p))). stored cd (pi_db p) uid ev)"
  shows "db_ok (pi_db p') \<and> (\<forall>(uid, ev) \<in> set (zip (pi_ids p') (al_written (pi_async p'))). stored cd (pi_db p') uid ev)"
proof (cases "\<exists>ev d. al_pc (pi_async p) = Writing ev d")
  case True
  then obtain ev d where pc: "al_pc (pi_async p) = Writing ev d" by blast
  obtain err db where log: "pg_Log cd (pp_io c) (pp_uid c) ev (pi_db p) = (err, db)" by fastforce
  have len: "length (pi_ids p) = length (al_written (pi_async p))" using assms(2) by (simp add: refines_sync_def)
  show ?thesis
  proof (cases err)
    case None
    note st = pg_Log_stored [OF conjunct1 [OF assms(3)] log [unfolded None]]
    from assms(1) pc log None have "pi_db p' = db" "pi_ids p' = pi_ids p @ [pp_uid c]"
      "al_written (pi_async p') = al_written (pi_async p) @ [ev]" by (auto simp: pipe_worker_def)
    with len st(1,2) st(3) assms(3) show ?thesis by auto
  next
    case (Some e)
    then have "db = pi_db p" using log by (auto simp: pg_Log_def Let_def split: sum.splits)
    with assms pc log Some show ?thesis by (auto simp: pipe_worker_def)
  qed
next
  case False
  with pipe_worker_other [OF assms(1)] assms(3) show ?thesis by auto
qed

lemma pipe_refines: "pipe_reachable cd db0 p \<Longrightarrow> refines_sync cd db0 p"
proof (induction rule: pipe_reachable.induct)
  case (new bufferSize perCallTimeout)
  then show ?case by (simp add: refines_sync_def NewPipe_def NewAsyncLogger_def sync_log_def Let_def)
next
  case (step p p')
  from step(2) show ?case
  proof (cases rule: pipe_step.cases)
    case (client a)
    with client_history [OF client(2,3)] step.IH show ?thesis by (simp add: refines_sync_def)
  next
    case (worker c)
    with step.IH show ?thesis using refines_sync_worker by blast
  qed
qed

lemma pipe_run_async:
  "\<exists>cs'. length cs' = length cs \<and> pi_async (pipe_run cd cs p) = worker_run cs' (pi_async p)"
proof (induction cs arbitrary: p)
  case (Cons c cs)
  show ?case
  proof (cases "pipe_worker cd c p")
    case None
    then have "worker_step \<lparr>pick_recv = pp_pick c, log_ok = True\<rparr> (pi_async p) = None"
      by (cases "al_pc (pi_async p)") (auto simp: pipe_worker_def simp del: worker_step.simps split: prod.splits, auto split: if_splits)
    with None show ?thesis
      by (intro exI [of _ "replicate (Suc (length cs)) \<lparr>pick_recv = pp_pick c, log_ok = True\<rparr>"]) (simp del: worker_step.simps)
  next
    case (Some p')
    from pipe_worker_step [OF Some] obtain ok where
      ok: "worker_step \<lparr>pick_recv = pp_pick c, log_ok = ok\<rparr> (pi_async p) = Some (pi_async p')" by blast
    from Cons.IH [of p'] obtain cs' where "length cs' = length cs" "pi_async (pipe_run cd cs p') = worker_run cs' (pi_async p')" by blast
    with Some ok show ?thesis
      by (intro exI [of _ "\<lparr>pick_recv = pp_pick c, log_ok = ok\<rparr> # cs'"]) (simp del: worker_step.simps)
  qed
qed simp

lemma pipe_run_reachable: "pipe_reachable cd db0 p \<Longrightarrow> pipe_reachable cd db0 (pipe_run cd cs p)"
proof (induction cs arbitrary: p)
  case (Cons c cs)
  then show ?case using pipe_reachable.step [OF Cons.prems pipe_step.worker] by (auto split: option.splits)
qed simp

text \<open>Every written event is in the tables, under the id its write was given.\<close>

lemma pipe_stored:
  assumes "pipe_reachable cd db0 p" and "db_ok db0"
  shows "db_ok (pi_db p) \<and> (\<forall>(uid, ev) \<in> set (zip (pi_ids p) (al_written (pi_async p))). stored cd (pi_db p) uid ev)"
  using assms(1)
proof (induction rule: pipe_reachable.induct)
  case (new bufferSize perCallTimeout)
  then show ?case using assms(2) by (simp add: NewPipe_def)
next
  case (step p p')
  from step(2) show ?case
  proof (cases rule: pipe_step.cases)
    case (client a)
    with client_history [OF client(2,3)] step.IH show ?thesis by simp
  next
    case (worker c)
    then show ?thesis using pipe_worker_db [OF worker pipe_refines [OF step(1)]] step.IH by blast
  qed
qed

text \<open>A run of the worker in which no write failed has written what it processed.\<close>

lemma pipe_run_failed: "pi_failed p \<le> pi_failed (pipe_run cd cs p)"
proof (induction cs arbitrary: p)
  case (Cons c cs)
  show ?case
  proof (cases "pipe_worker cd c p")
    case (Some p')
    have "pi_failed p \<le> pi_failed p'" using pipe_worker_history [OF Some] by (elim disjE exE conjE) simp_all
    with Cons [of p'] Some show ?thesis by simp
  qed simp
qed simp

lemma pipe_run_written:
  assumes "pi_failed (pipe_run cd cs p) = pi_failed p"
  shows "\<exists>d. al_processed (pi_async (pipe_run cd cs p)) = al_processed (pi_async p) @ d \<and>
    al_written (pi_async (pipe_run cd cs p)) = al_written (pi_async p) @ d"
  using assms
proof (induction cs arbitrary: p)
  case (Cons c cs)
  show ?case
  proof (cases "pipe_worker cd c p")
    case (Some p')
    have le: "pi_failed p' \<le> pi_failed p" using pipe_run_failed [of p' cd cs] Cons.prems Some by simp
    with pipe_worker_history [OF Some] obtain d where f: "pi_failed p' = pi_failed p"
      and d: "al_processed (pi_async p') = al_processed (pi_async p) @ d" "al_written (pi_async p') = al_written (pi_async p) @ d"
      by (elim disjE exE conjE) simp_all
    from Cons.IH [of p'] Cons.prems Some f obtain e where
      "al_processed (pi_async (pipe_run cd cs p')) = al_processed (pi_async p') @ e"
      "al_written (pi_async (pipe_run cd cs p')) = al_written (pi_async p') @ e" by auto
    then show ?thesis using Some d by (intro exI [of _ "d @ e"]) simp
  qed simp
qed simp

section \<open>Properties\<close>

text \<open>C12: The asynchronous pipeline is synchronous logging, later. Whatever the interleaving of callers, the drain
  worker, subscribers and \<open>Close\<close>, and whichever database calls fail: the tables are at every
  moment exactly what logging the events written so far directly to a healthy database, one
  after the other in the order they were accepted, would have produced; those events are a subsequence of the
  accepted ones, and every processed event that is not among them was a reported failure.\<close>

theorem pipeline_refines_sync:
  assumes "pipe_reachable cd db0 p"
  shows "pi_db p = sync_log cd (zip (pi_ids p) (al_written (pi_async p))) db0 \<and>
    length (pi_ids p) = length (al_written (pi_async p)) \<and>
    subseq (al_written (pi_async p)) (al_accepted (pi_async p)) \<and>
    length (al_processed (pi_async p)) = length (al_written (pi_async p)) + pi_failed p"
proof -
  have "queue_ok (pi_async p)" using async_reachable_ok [OF pipe_async_reachable [OF assms]] by simp
  then have "subseq (al_written (pi_async p)) (al_accepted (pi_async p))"
    by (auto simp: queue_ok_def intro: list_emb_append2 subseq_order.trans)
  with pipe_refines [OF assms] show ?thesis by (simp add: refines_sync_def)
qed


section \<open>A concrete run\<close>

definition toy_pipe :: pipe where
  "toy_pipe = (NewPipe 2 1 empty_db)\<lparr>pi_async := fst (async_Log (zero_event\<lparr>ev_Payload := Some one_payload\<rparr>) (NewAsyncLogger 2 1))\<rparr>"

definition toy_choice :: pipe_choice where
  "toy_choice = \<lparr>pp_pick = True, pp_io = (\<lambda>_. None), pp_uid = ''u1''\<rparr>"

lemma toy_pipe_reachable: "pipe_reachable cd empty_db toy_pipe"
proof -
  have "pipe_step cd (NewPipe 2 1 empty_db) toy_pipe"
    unfolding toy_pipe_def
    by (rule pipe_step.client) (simp_all add: NewPipe_def async_step.log, simp add: async_Log_def NewAsyncLogger_def)
  then show ?thesis by (rule pipe_reachable.step [OF pipe_reachable.new])
qed

theorem pipeline_refines_sync_witness:
  "pi_db (pipe_run one_codec (replicate 2 toy_choice) toy_pipe) =
     sync_log one_codec [(''u1'', zero_event\<lparr>ev_Payload := Some one_payload\<rparr>)] empty_db"
proof -
  let ?p = "pipe_run one_codec (replicate 2 toy_choice) toy_pipe"
  have "pi_ids ?p = [''u1''] \<and> al_written (pi_async ?p) = [zero_event\<lparr>ev_Payload := Some one_payload\<rparr>]"
    by (simp add: toy_pipe_def toy_choice_def NewPipe_def NewAsyncLogger_def async_Log_def pipe_worker_def one_log numeral_2_eq_2)
  then show ?thesis
    using pipeline_refines_sync [OF pipe_run_reachable [OF toy_pipe_reachable], of one_codec "replicate 2 toy_choice"] by simp
qed


section \<open>Identifiers in the live tail\<close>

text \<open>The store assigns a missing id to its own copy of the event, the logger broadcasts the event as it
  was queued: an event queued without an id, as the middleware queues every native call, is shown to the live tail
  without the id its row has.\<close>

lemma live_tail_lacks_id:
  assumes "pipe_reachable cd db0 p" and "\<forall>ev \<in> set (al_accepted (pi_async p)). ev_ID ev = []"
    and "hb_mem (al_hub (pi_async p)) i = Some s" and "ev \<in> set (ch_buf (sb_ch s))"
  shows "ev_ID ev = []"
proof -
  have q: "queue_ok (pi_async p)" "tail_ok (pi_async p)" using async_reachable_ok [OF pipe_async_reachable [OF assms(1)]] by simp_all
  moreover from q(2) assms(3) have "subseq (ch_buf (sb_ch s)) (al_written (pi_async p))"
    using tail_okD offered_written subseq_order.trans by blast
  ultimately have "subseq (ch_buf (sb_ch s)) (al_processed (pi_async p))"
    using subseq_order.trans by (auto simp: queue_ok_def)
  then have "set (ch_buf (sb_ch s)) \<subseteq> set (al_accepted (pi_async p))"
    using q(1) by (auto simp: queue_ok_def dest: list_emb_set)
  with assms(2,4) show ?thesis by blast
qed

end
