(* ===== verification/Go_Base64.thy ===== *)
theory Go_Base64
  imports Go_Base
begin

text \<open>
  \<open>encoding/base64\<close> in its URL-safe alphabet, without padding (\<open>RawURLEncoding\<close>), as the
  session cookies and the API keys use it. The decoder skips line breaks and, like the default
  decoder, does not insist on zero trailing bits.
\<close>

section \<open>The alphabet\<close>

definition b64_char :: "nat \<Rightarrow> char" where
  "b64_char n = char_of (if n < 26 then 65 + n else if n < 52 then 71 + n else if n < 62 then n - 4
     else if n = 62 then 45 else 95)"

definition b64_val :: "char \<Rightarrow> nat option" where
  "b64_val c = (let n = (of_char c :: nat) in
     if 65 \<le> n \<and> n \<le> 90 then Some (n - 65)
     else if 97 \<le> n \<and> n \<le> 122 then Some (n - 71)
     else if 48 \<le> n \<and> n \<le> 57 then Some (n + 4)
     else if n = 45 then Some 62
     else if n = 95 then Some 63
     else None)"

lemma b64_val_char [simp]: "n < 64 \<Longrightarrow> b64_val (b64_char n) = Some n"
  by (auto simp: b64_val_def b64_char_def Let_def)

lemma b64_char_special [simp]:
  assumes "n < 64"
  shows "b64_char n \<noteq> CHR ''.''" and "b64_char n \<noteq> CHR 0x0A" and "b64_char n \<noteq> CHR 0x0D" and "b64_char n \<noteq> CHR ''=''"
proof -
  have "b64_val CHR ''.'' = None" "b64_val CHR 0x0A = None" "b64_val CHR 0x0D = None" "b64_val CHR ''='' = None"
    by (simp_all add: b64_val_def)
  with b64_val_char [OF assms] show "b64_char n \<noteq> CHR ''.''" "b64_char n \<noteq> CHR 0x0A"
    "b64_char n \<noteq> CHR 0x0D" "b64_char n \<noteq> CHR ''=''" by auto
qed

section \<open>Encoding\<close>

abbreviation byte :: "char \<Rightarrow> nat" where "byte c \<equiv> of_char c"

fun b64_encode :: "string \<Rightarrow> string" where
  "b64_encode [] = []"
| "b64_encode [a] = [b64_char (byte a div 4), b64_char (byte a mod 4 * 16)]"
| "b64_encode [a, b] =
     [b64_char (byte a div 4), b64_char (byte a mod 4 * 16 + byte b div 16), b64_char (byte b mod 16 * 4)]"
| "b64_encode (a # b # c # r) =
     [b64_char (byte a div 4), b64_char (byte a mod 4 * 16 + byte b div 16),
      b64_char (byte b mod 16 * 4 + byte c div 64), b64_char (byte c mod 64)] @ b64_encode r"

section \<open>Decoding\<close>

fun b64_quads :: "nat list \<Rightarrow> string option" where
  "b64_quads [] = Some []"
| "b64_quads [x] = None"
| "b64_quads [x, y] = Some [char_of (x * 4 + y div 16)]"
| "b64_quads [x, y, z] = Some [char_of (x * 4 + y div 16), char_of (y mod 16 * 16 + z div 4)]"
| "b64_quads (x # y # z # w # r) =
     map_option (\<lambda>s. [char_of (x * 4 + y div 16), char_of (y mod 16 * 16 + z div 4), char_of (z mod 4 * 64 + w)] @ s)
       (b64_quads r)"

definition b64_decode :: "string \<Rightarrow> string option" where
  "b64_decode s =
     (let s = filter (\<lambda>c. c \<noteq> CHR 0x0A \<and> c \<noteq> CHR 0x0D) s
      in if list_all (\<lambda>c. b64_val c \<noteq> None) s then b64_quads (map (\<lambda>c. the (b64_val c)) s) else None)"

section \<open>Round trip\<close>

lemma sextets [simp]:
  "byte a mod 4 * 16 + byte b div 16 < 64" "byte b mod 16 * 4 + byte c div 64 < 64"
  "byte a div 4 < 64" "byte a mod 4 * 16 < 64" "byte b mod 16 * 4 < 64" "byte c mod 64 < 64"
proof -
  have j: "x < 4 \<Longrightarrow> y < 16 \<Longrightarrow> x * 16 + y < 64" "x < 16 \<Longrightarrow> y < 4 \<Longrightarrow> x * 4 + y < 64" for x y :: nat
    by simp_all
  show "byte a mod 4 * 16 + byte b div 16 < 64" "byte b mod 16 * 4 + byte c div 64 < 64"
    by (rule j; simp add: less_mult_imp_div_less)+
qed (simp_all add: less_mult_imp_div_less)

lemma b64_encode_chars: "c \<in> set (b64_encode s) \<Longrightarrow> \<exists>n < 64. c = b64_char n"
  by (induction s rule: b64_encode.induct) (auto intro: sextets)

lemma b64_encode_no_dot: "CHR ''.'' \<notin> set (b64_encode s)"
  using b64_encode_chars [of "CHR ''.''" s] b64_char_special(1) by metis

lemma byte_parts [simp]:
  "byte b div 16 div 16 = 0" "byte b div 16 mod 16 = byte b div 16"
  "byte c div 64 div 4 = 0" "byte c div 64 mod 4 = byte c div 64"
  by (simp_all add: less_mult_imp_div_less)

lemma b64_quads_encode: "b64_quads (map (\<lambda>c. the (b64_val c)) (b64_encode s)) = Some s"
  by (induction s rule: b64_encode.induct) simp_all

lemma b64_decode_encode [simp]: "b64_decode (b64_encode s) = Some s"
proof -
  have ok: "b64_val c \<noteq> None \<and> c \<noteq> CHR 0x0A \<and> c \<noteq> CHR 0x0D" if "c \<in> set (b64_encode s)" for c
    using b64_encode_chars [OF that] by auto
  then have "filter (\<lambda>c. c \<noteq> CHR 0x0A \<and> c \<noteq> CHR 0x0D) (b64_encode s) = b64_encode s"
    by (intro filter_True) auto
  with ok show ?thesis by (simp add: b64_decode_def list_all_iff b64_quads_encode)
qed

lemma b64_encode_inject: "b64_encode s = b64_encode t \<longleftrightarrow> s = t"
  by (metis b64_decode_encode option.inject)

end
