(* ===== verification/Http_Session.thy ===== *)
theory Http_Session
  imports Auth_Context Go_Base64
begin

text \<open>
  \<open>pkg/httpsrv/session.go\<close>: signed cookies. A cookie value is the base64 text of a JSON payload,
  a dot, and the base64 text of the HMAC of that text. \<open>hmac\<close> is HMAC-SHA256 as a function of
  secret and message; the two JSON functions on payloads are the record \<open>session_json\<close>; the clock
  is an argument.
\<close>

section \<open>The store\<close>

record session_payload =
  sp_Identity :: "identity option"
  sp_Expires :: gotime

record session_store =
  ss_cookieName :: string
  ss_secret :: string
  ss_secure :: bool
  ss_maxAge :: duration

record session_json =
  sj_marshal :: "session_payload \<Rightarrow> string result"
  sj_unmarshal :: "string \<Rightarrow> session_payload result"

type_synonym hmac = "string \<Rightarrow> string \<Rightarrow> string"

definition NewSessionStore :: "string \<Rightarrow> string \<Rightarrow> bool \<Rightarrow> duration \<Rightarrow> session_store result" where
  "NewSessionStore cookieName secret secure maxAge =
     (if length secret < 16 then Inl (ErrMsg ''session secret too short (need >= 16 bytes)'')
      else Inr \<lparr>ss_cookieName = (if cookieName = [] then ''mcp_test_session'' else cookieName), ss_secret = secret,
                ss_secure = secure, ss_maxAge = (if maxAge = 0 then 12 * hour else maxAge)\<rparr>)"

datatype same_site = LaxMode

record cookie =
  ck_Name :: string
  ck_Value :: string
  ck_Path :: string
  ck_Expires :: gotime
  ck_MaxAge :: int
  ck_HttpOnly :: bool
  ck_Secure :: bool
  ck_SameSite :: same_site

section \<open>Encoding\<close>

definition ss_encode :: "hmac \<Rightarrow> session_json \<Rightarrow> session_store \<Rightarrow> session_payload \<Rightarrow> string result" where
  "ss_encode hmac sj s pl = rbind (sj_marshal sj pl) (\<lambda>body.
     (let b64 = b64_encode body;
          sig = b64_encode (hmac (ss_secret s) b64)
      in Inr (b64 @ ''.'' @ sig)))"

definition ss_decode :: "hmac \<Rightarrow> session_json \<Rightarrow> session_store \<Rightarrow> string \<Rightarrow> session_payload result" where
  "ss_decode hmac sj s v = (case cut_at CHR ''.'' v of
     None \<Rightarrow> Inl (ErrMsg ''malformed cookie'')
   | Some (p0, p1) \<Rightarrow>
       (let want = b64_encode (hmac (ss_secret s) p0)
        in case b64_decode p1 of
             None \<Rightarrow> Inl (ErrMsg ''decode sig: illegal base64 data'')
           | Some got \<Rightarrow>
               (case b64_decode want of
                  None \<Rightarrow> Inl (ErrMsg ''illegal base64 data'')
                | Some wantBytes \<Rightarrow>
                    if got \<noteq> wantBytes then Inl (ErrMsg ''bad signature'')
                    else case b64_decode p0 of
                           None \<Rightarrow> Inl (ErrMsg ''illegal base64 data'')
                         | Some body \<Rightarrow> sj_unmarshal sj body)))"

section \<open>Cookies\<close>

definition session_Issue :: "hmac \<Rightarrow> session_json \<Rightarrow> gotime \<Rightarrow> session_store \<Rightarrow> identity option \<Rightarrow> cookie result" where
  "session_Issue hmac sj now s i =
     (let pl = \<lparr>sp_Identity = i, sp_Expires = now + ss_maxAge s\<rparr>
      in rbind (ss_encode hmac sj s pl) (\<lambda>enc.
           Inr \<lparr>ck_Name = ss_cookieName s, ck_Value = enc, ck_Path = ''/'', ck_Expires = sp_Expires pl, ck_MaxAge = 0,
                ck_HttpOnly = True, ck_Secure = ss_secure s, ck_SameSite = LaxMode\<rparr>))"

definition session_Clear :: "session_store \<Rightarrow> cookie" where
  "session_Clear s = \<lparr>ck_Name = ss_cookieName s, ck_Value = [], ck_Path = ''/'', ck_Expires = unix_epoch, ck_MaxAge = - 1,
     ck_HttpOnly = True, ck_Secure = ss_secure s, ck_SameSite = LaxMode\<rparr>"

definition session_Read :: "hmac \<Rightarrow> session_json \<Rightarrow> gotime \<Rightarrow> session_store \<Rightarrow> http_request \<Rightarrow> identity option" where
  "session_Read hmac sj now s r = (case map_of (rq_Cookies r) (ss_cookieName s) of
     None \<Rightarrow> None
   | Some v \<Rightarrow>
       if v = [] then None
       else case ss_decode hmac sj s v of
              Inl _ \<Rightarrow> None
            | Inr pl \<Rightarrow> if now > sp_Expires pl then None else sp_Identity pl)"

section \<open>Authenticity\<close>

lemma ss_decode_Inr:
  "ss_decode hmac sj s v = Inr pl \<longleftrightarrow> (\<exists>p0 p1 body. v = p0 @ ''.'' @ p1 \<and> CHR ''.'' \<notin> set p0 \<and>
     b64_decode p1 = Some (hmac (ss_secret s) p0) \<and> b64_decode p0 = Some body \<and> sj_unmarshal sj body = Inr pl)"
  (is "?l \<longleftrightarrow> ?r")
proof
  assume ?l
  then obtain p0 p1 where c: "cut_at CHR ''.'' v = Some (p0, p1)"
    by (cases "cut_at CHR ''.'' v") (auto simp: ss_decode_def)
  with \<open>?l\<close> show ?r
    using cut_at_Some [OF c] by (auto simp: ss_decode_def Let_def split: option.splits if_splits)
next
  assume ?r
  then show ?l by (auto simp: ss_decode_def cut_at_append Let_def)
qed

lemma decode_encode:
  assumes "ss_encode hmac sj s pl = Inr v"
  shows "ss_decode hmac sj s v = (case sj_marshal sj pl of Inr body \<Rightarrow> sj_unmarshal sj body | Inl e \<Rightarrow> Inl e) \<and> v \<noteq> []"
  using assms b64_encode_no_dot
  by (auto simp: ss_encode_def rbind_Inr Let_def ss_decode_def cut_at_append)

text \<open>The bodies that were signed by \<open>Issue\<close>.\<close>

definition issued_body :: "session_json \<Rightarrow> session_payload \<Rightarrow> string \<Rightarrow> bool" where
  "issued_body sj pl p0 \<longleftrightarrow> (\<exists>body. sj_marshal sj pl = Inr body \<and> p0 = b64_encode body)"


lemma one_dot:
  assumes "p0 @ ''.'' @ p1 = a @ ''.'' @ b" and "CHR ''.'' \<notin> set a" and "CHR ''.'' \<notin> set b"
  shows "p0 = a"
proof -
  have "cut_at CHR ''.'' (p0 @ ''.'' @ p1) = Some (a, b)" using assms(1,2) by (simp add: cut_at_append)
  moreover have "CHR ''.'' \<notin> set p0"
  proof
    assume "CHR ''.'' \<in> set p0"
    then obtain x y where "p0 = x @ CHR ''.'' # y" "CHR ''.'' \<notin> set x" by (meson split_list_first)
    then have "cut_at CHR ''.'' (p0 @ ''.'' @ p1) = Some (x, y @ ''.'' @ p1)" by (simp add: cut_at_append)
    with calculation assms(3) show False by auto
  qed
  ultimately show ?thesis by (simp add: cut_at_append)
qed

definition toy_payload :: session_payload where
  "toy_payload = \<lparr>sp_Identity = Some Anonymous, sp_Expires = 5 + 12 * hour\<rparr>"

definition toy_session_json :: session_json where
  "toy_session_json = \<lparr>sj_marshal = (\<lambda>pl. if pl = toy_payload then Inr ''p'' else Inl (ErrMsg ''json'')),
     sj_unmarshal = (\<lambda>_. Inr toy_payload)\<rparr>"

definition toy_store :: session_store where
  "toy_store = \<lparr>ss_cookieName = ''c'', ss_secret = ''0123456789abcdef'', ss_secure = True, ss_maxAge = 12 * hour\<rparr>"


end
