(* ===== verification/Auth_Keys.thy ===== *)
theory Auth_Keys
  imports Auth_Context Go_Base64
begin

text \<open>
  API keys: the plaintext keys of the configuration (\<open>pkg/auth/apikey.go\<close>), the bcrypt-hashed
  keys of the database (\<open>pkg/apikeys/store.go\<close>, \<open>pkg/apikeys/auth.go\<close>) and the wrappers that
  combine them (\<open>pkg/auth/dbkeys.go\<close>). Every store satisfies the contract \<open>api_key_store\<close>,
  interpreted on each. bcrypt is the record \<open>bcrypt\<close> of its two functions; random bytes, uuids
  and the clock are arguments; \<open>io\<close> is what the database call returns as error.
\<close>

section \<open>Keys of the configuration\<close>

record file_api_key =
  fk_Name :: string
  fk_Key :: string
  fk_Description :: string

record file_entry =
  fe_name :: string
  fe_description :: string

type_synonym file_store = "(string \<times> file_entry) list"

definition NewFileAPIKeyStore :: "file_api_key list \<Rightarrow> file_store" where
  "NewFileAPIKeyStore entries = fold (\<lambda>e keys.
     if fk_Key e = [] then keys
     else AList.update (fk_Key e) \<lparr>fe_name = fk_Name e, fe_description = fk_Description e\<rparr> keys) entries []"

definition key_identity :: "string \<Rightarrow> identity" where
  "key_identity name = zero_identity\<lparr>id_Subject := ''apikey:'' @ name, id_Name := name,
     id_AuthType := ''apikey'', id_APIKeyID := name\<rparr>"

text \<open>The loop compares every entry and never stops early.\<close>

definition file_Authenticate :: "file_store \<Rightarrow> string \<Rightarrow> identity result" where
  "file_Authenticate keys key =
     (if key = [] \<or> keys = [] then Inl ErrUnknownAPIKey
      else case fold (\<lambda>(k, entry) matched. if k = key then Some entry else matched) keys None of
             None \<Rightarrow> Inl ErrUnknownAPIKey
           | Some e \<Rightarrow> Inr (key_identity (fe_name e)))"

section \<open>Keys of the database\<close>

record bcrypt =
  bc_generate :: "string \<Rightarrow> string result"
  bc_compare :: "string \<Rightarrow> string \<Rightarrow> bool"

record db_key =
  dk_ID :: string
  dk_Name :: string
  dk_Hash :: string
  dk_Description :: string
  dk_CreatedBy :: string
  dk_CreatedAt :: gotime
  dk_ExpiresAt :: "gotime option"
  dk_LastUsedAt :: "gotime option"

text \<open>\<open>generatePlaintext\<close>: 32 random bytes, or the error of the random source. The padded encoding
  with its \<open>=\<close> signs trimmed is the raw encoding.\<close>

definition generatePlaintext :: "string result \<Rightarrow> string result" where
  "generatePlaintext rnd = rbind rnd (\<lambda>buf. Inr (''mt_'' @ b64_encode buf))"

text \<open>The insert; \<open>name\<close> is unique and \<open>id\<close> the primary key.\<close>

definition keys_insert :: "db_key \<Rightarrow> db_key list \<Rightarrow> db_key list result" where
  "keys_insert k tbl =
     (if dk_Name k \<in> dk_Name ` set tbl \<or> dk_ID k \<in> dk_ID ` set tbl then Inl (ErrMsg ''duplicate key'')
      else Inr (tbl @ [k]))"

definition keys_Create ::
  "bcrypt \<Rightarrow> goerr option \<Rightarrow> string result \<Rightarrow> string \<Rightarrow> gotime \<Rightarrow> string \<Rightarrow> string \<Rightarrow> string \<Rightarrow> gotime option \<Rightarrow>
   db_key list \<Rightarrow> (db_key \<times> string) result \<times> db_key list" where
  "keys_Create bc io rnd uid now name description createdBy expiresAt tbl =
     (if name = [] then (Inl (ErrMsg ''name is required''), tbl)
      else case generatePlaintext rnd of
        Inl e \<Rightarrow> (Inl e, tbl)
      | Inr plaintext \<Rightarrow>
          (case bc_generate bc plaintext of
             Inl e \<Rightarrow> (Inl (ErrMsg (''hash: '' @ err_text e)), tbl)
           | Inr hash \<Rightarrow>
               (let k = \<lparr>dk_ID = uid, dk_Name = name, dk_Hash = hash, dk_Description = description,
                         dk_CreatedBy = createdBy, dk_CreatedAt = now, dk_ExpiresAt = expiresAt,
                         dk_LastUsedAt = None\<rparr>
                in case rcheck io (keys_insert k tbl) of
                     Inl e \<Rightarrow> (Inl (ErrMsg (''insert api key: '' @ err_text e)), tbl)
                   | Inr tbl' \<Rightarrow> (Inr (k\<lparr>dk_Hash := []\<rparr>, plaintext), tbl'))))"

definition keys_List :: "goerr option \<Rightarrow> db_key list \<Rightarrow> db_key list result" where
  "keys_List io tbl = rcheck io (Inr (sort_key (\<lambda>k. - dk_CreatedAt k) (map (\<lambda>k. k\<lparr>dk_Hash := []\<rparr>) tbl)))"

definition keys_Delete :: "goerr option \<Rightarrow> string \<Rightarrow> db_key list \<Rightarrow> goerr option \<times> db_key list" where
  "keys_Delete io name tbl = (case io of
     Some e \<Rightarrow> (Some e, tbl)
   | None \<Rightarrow>
       (let tbl' = filter (\<lambda>k. dk_Name k \<noteq> name) tbl
        in (if length tbl' = length tbl then Some ErrNotFound else None, tbl')))"

definition live :: "gotime \<Rightarrow> db_key \<Rightarrow> bool" where
  "live now k = (case dk_ExpiresAt k of None \<Rightarrow> True | Some t \<Rightarrow> t > now)"

text \<open>\<open>touchLastUsed\<close>, best effort: \<open>touch\<close> says whether the update went through.\<close>

definition touchLastUsed :: "bool \<Rightarrow> gotime \<Rightarrow> string \<Rightarrow> db_key list \<Rightarrow> db_key list" where
  "touchLastUsed touch now i tbl =
     (if touch then map (\<lambda>k. if dk_ID k = i then k\<lparr>dk_LastUsedAt := Some now\<rparr> else k) tbl else tbl)"

definition keys_Authenticate ::
  "bcrypt \<Rightarrow> goerr option \<Rightarrow> bool \<Rightarrow> gotime \<Rightarrow> string \<Rightarrow> db_key list \<Rightarrow> db_key result \<times> db_key list" where
  "keys_Authenticate bc io touch now plaintext tbl =
     (if plaintext = [] then (Inl ErrNotFound, tbl)
      else case io of
        Some e \<Rightarrow> (Inl e, tbl)
      | None \<Rightarrow>
          (case find (\<lambda>k. bc_compare bc (dk_Hash k) plaintext) (filter (live now) tbl) of
             None \<Rightarrow> (Inl ErrNotFound, tbl)
           | Some k \<Rightarrow> (Inr k, touchLastUsed touch now (dk_ID k) tbl)))"

section \<open>Adapters\<close>

text \<open>\<open>authAdapter\<close> projects the key of a match; it never hands out a nil key without an error, so
  the nil check of \<open>dbAPIKeyStore\<close> has no case here.\<close>

record projected_key =
  pk_ID :: string
  pk_Name :: string

definition authAdapter ::
  "bcrypt \<Rightarrow> goerr option \<Rightarrow> bool \<Rightarrow> gotime \<Rightarrow> string \<Rightarrow> db_key list \<Rightarrow> projected_key result \<times> db_key list" where
  "authAdapter bc io touch now plaintext tbl =
     (case keys_Authenticate bc io touch now plaintext tbl of
        (Inl e, tbl') \<Rightarrow> (Inl e, tbl')
      | (Inr k, tbl') \<Rightarrow> (Inr \<lparr>pk_ID = dk_ID k, pk_Name = dk_Name k\<rparr>, tbl'))"

definition db_Authenticate ::
  "bcrypt \<Rightarrow> goerr option \<Rightarrow> bool \<Rightarrow> gotime \<Rightarrow> string \<Rightarrow> db_key list \<Rightarrow> identity result \<times> db_key list" where
  "db_Authenticate bc io touch now key tbl =
     (case authAdapter bc io touch now key tbl of
        (Inl e, tbl') \<Rightarrow> (Inl e, tbl')
      | (Inr k, tbl') \<Rightarrow> (Inr (key_identity (pk_Name k)), tbl'))"

type_synonym 's key_store = "string \<Rightarrow> 's \<Rightarrow> identity result \<times> 's"

definition combined_Authenticate :: "'s key_store \<Rightarrow> 's key_store \<Rightarrow> 's key_store" where
  "combined_Authenticate file db key s = (case file key s of
     (Inr i, s') \<Rightarrow> (Inr i, s')
   | (Inl e, s') \<Rightarrow> db key s')"

definition CombineKeyStores :: "'s key_store option \<Rightarrow> 's key_store option \<Rightarrow> 's key_store option" where
  "CombineKeyStores file db = (case (file, db) of
     (None, None) \<Rightarrow> None
   | (Some f, None) \<Rightarrow> Some f
   | (None, Some d) \<Rightarrow> Some d
   | (Some f, Some d) \<Rightarrow> Some (combined_Authenticate f d))"

section \<open>The contract\<close>

text \<open>A key store rejects the empty key, and an identity it grants is that of a named API key.\<close>

locale api_key_store =
  fixes authenticate :: "'s key_store"
  assumes empty_rejected: "fst (authenticate [] s) \<noteq> Inr i"
    and grants_key: "fst (authenticate key s) = Inr i \<Longrightarrow> \<exists>name. i = key_identity name"
begin

lemma granted_fields:
  "fst (authenticate key s) = Inr i \<Longrightarrow>
     id_AuthType i = ''apikey'' \<and> id_Subject i = ''apikey:'' @ id_APIKeyID i \<and> id_Claims i = None"
  using grants_key by (fastforce simp: key_identity_def zero_identity_def)

lemma granted_nonempty: "fst (authenticate key s) = Inr i \<Longrightarrow> key \<noteq> []"
  using empty_rejected by auto

end

interpretation fks: api_key_store "\<lambda>key s. (file_Authenticate keys key, s)" for keys
  by unfold_locales (auto simp: file_Authenticate_def split: if_splits option.splits)

interpretation dks: api_key_store "db_Authenticate bc io touch now" for bc io touch now
  by unfold_locales
     (auto simp: db_Authenticate_def authAdapter_def keys_Authenticate_def split: if_splits option.splits prod.splits sum.splits)

interpretation cks: api_key_store
    "combined_Authenticate (\<lambda>key s. (file_Authenticate keys key, s)) (db_Authenticate bc io touch now)"
    for keys bc io touch now
proof unfold_locales
  fix s i key
  show "fst (combined_Authenticate (\<lambda>key s. (file_Authenticate keys key, s)) (db_Authenticate bc io touch now) [] s) \<noteq> Inr i"
    using dks.empty_rejected by (auto simp: combined_Authenticate_def file_Authenticate_def)
  assume "fst (combined_Authenticate (\<lambda>key s. (file_Authenticate keys key, s)) (db_Authenticate bc io touch now) key s) = Inr i"
  then show "\<exists>name. i = key_identity name"
    using dks.grants_key fks.grants_key [of keys key s]
    by (cases "file_Authenticate keys key") (auto simp: combined_Authenticate_def)
qed

section \<open>File keys\<close>

lemma fold_match:
  "fold (\<lambda>(k, entry) matched. if k = key then Some entry else matched) keys acc =
     (case map_of (rev keys) key of None \<Rightarrow> acc | Some e \<Rightarrow> Some e)"
proof (induction keys arbitrary: acc)
  case (Cons e keys)
  then show ?case by (cases e) (auto simp: map_add_def split: option.splits)
qed simp

lemma file_store_lookup:
  "map_of (fold (\<lambda>e keys. if fk_Key e = [] then keys
       else AList.update (fk_Key e) \<lparr>fe_name = fk_Name e, fe_description = fk_Description e\<rparr> keys) es acc) key =
     (case find (\<lambda>e. fk_Key e = key \<and> key \<noteq> []) (rev es) of
        Some e \<Rightarrow> Some \<lparr>fe_name = fk_Name e, fe_description = fk_Description e\<rparr>
      | None \<Rightarrow> map_of acc key)"
proof (induction es arbitrary: acc)
  case (Cons e es)
  then show ?case by (auto simp: find_append update_conv' split: option.splits)
qed simp

lemma file_store_distinct:
  "distinct (map fst acc) \<Longrightarrow> distinct (map fst (fold (\<lambda>e keys. if fk_Key e = [] then keys
       else AList.update (fk_Key e) \<lparr>fe_name = fk_Name e, fe_description = fk_Description e\<rparr> keys) es acc))"
  by (induction es arbitrary: acc) (simp_all add: distinct_update)

text \<open>File keys authenticate exactly. A token is accepted by the store built from the
  configuration exactly when it is non-empty and is the key of some entry; the identity is that of
  the last entry with this key. An entry whose key is empty (an unset environment variable) never
  lets anyone in.\<close>

theorem file_keys_exact:
  "file_Authenticate (NewFileAPIKeyStore entries) key =
     (case find (\<lambda>e. fk_Key e = key \<and> key \<noteq> []) (rev entries) of
        Some e \<Rightarrow> Inr (key_identity (fk_Name e))
      | None \<Rightarrow> Inl ErrUnknownAPIKey)"
proof -
  let ?m = "NewFileAPIKeyStore entries"
  have d: "distinct (map fst ?m)" unfolding NewFileAPIKeyStore_def by (rule file_store_distinct) simp
  have r: "map_of (rev ?m) key = map_of ?m key"
    using d map_of_inject_set [of "rev ?m" ?m] by (simp flip: rev_map)
  have l: "map_of ?m key = (case find (\<lambda>e. fk_Key e = key \<and> key \<noteq> []) (rev entries) of
      Some e \<Rightarrow> Some \<lparr>fe_name = fk_Name e, fe_description = fk_Description e\<rparr> | None \<Rightarrow> None)"
    unfolding NewFileAPIKeyStore_def by (subst file_store_lookup) (simp split: option.split)
  show ?thesis
  proof (cases "key = []")
    case True
    then show ?thesis by (simp add: file_Authenticate_def find_None_iff split: option.splits)
  next
    case False
    then show ?thesis using l r
      by (cases "?m = []") (auto simp: file_Authenticate_def fold_match split: option.splits)
  qed
qed

section \<open>Database keys\<close>

definition keys_ok :: "db_key list \<Rightarrow> bool" where
  "keys_ok tbl \<longleftrightarrow> distinct (map dk_Name tbl) \<and> distinct (map dk_ID tbl)"

lemma keys_Create_Inr:
  assumes "keys_Create bc io rnd uid now name desc creator expiry tbl = (Inr (k, plaintext), tbl')"
  shows "name \<noteq> [] \<and> dk_Hash k = [] \<and> dk_Name k = name \<and> dk_ExpiresAt k = expiry \<and> plaintext \<noteq> [] \<and>
    name \<notin> dk_Name ` set tbl \<and> uid \<notin> dk_ID ` set tbl \<and>
    (\<exists>hash. bc_generate bc plaintext = Inr hash \<and> tbl' = tbl @ [k\<lparr>dk_Hash := hash\<rparr>] \<and> dk_ID k = uid)"
  using assms
  by (auto simp: keys_Create_def generatePlaintext_def rbind_Inr rcheck_Inr keys_insert_def Let_def
      split: if_splits sum.splits)

text \<open>The life of a database key. The plaintext handed out by \<open>Create\<close> authenticates as the
  new key's name, at every time before its expiry and never from then on, as long as the key is not
  deleted; deleting the name revokes it at once; the plaintext is not stored and \<open>Create\<close>
  reveals no hash. (bcrypt accepts a password against its own hash, and the plaintext
  matches no other stored hash.)\<close>

lemma db_key_lifecycle:
  assumes "keys_ok tbl" and "keys_Create bc io rnd uid now name desc creator expiry tbl = (Inr (k, plaintext), tbl')"
    and "\<And>h. bc_generate bc plaintext = Inr h \<Longrightarrow> bc_compare bc h plaintext"
    and "\<forall>r \<in> set tbl. \<not> bc_compare bc (dk_Hash r) plaintext"
  shows "keys_ok tbl' \<and>
    fst (db_Authenticate bc None touch t plaintext tbl') =
      (if (case expiry of None \<Rightarrow> True | Some x \<Rightarrow> t < x) then Inr (key_identity name) else Inl ErrNotFound) \<and>
    fst (keys_Delete None name tbl') = None \<and>
    fst (db_Authenticate bc None touch t plaintext (snd (keys_Delete None name tbl'))) = Inl ErrNotFound \<and>
    dk_Hash k = []"
proof -
  note c = keys_Create_Inr [OF assms(2)]
  then obtain hash where h: "bc_generate bc plaintext = Inr hash" "tbl' = tbl @ [k\<lparr>dk_Hash := hash\<rparr>]" "dk_ID k = uid"
    by blast
  have old: "find (\<lambda>r. bc_compare bc (dk_Hash r) plaintext) (filter P tbl) = None" for P
    using assms(4) by (auto simp: find_None_iff)
  have "\<forall>r \<in> set tbl. dk_Name r \<noteq> name" using c by (metis imageI)
  then have del: "filter (\<lambda>r. dk_Name r \<noteq> name) tbl' = tbl"
    using c h(2) by (simp add: filter_id_conv)
  have "keys_ok tbl'" using assms(1) c h by (auto simp: keys_ok_def)
  moreover have "fst (db_Authenticate bc None touch t plaintext tbl') =
      (if (case expiry of None \<Rightarrow> True | Some x \<Rightarrow> t < x) then Inr (key_identity name) else Inl ErrNotFound)"
    using c h old assms(3) [OF h(1)]
    by (auto simp: db_Authenticate_def authAdapter_def keys_Authenticate_def find_append live_def split: option.splits)
  moreover have "fst (keys_Delete None name tbl') = None" "snd (keys_Delete None name tbl') = tbl"
    using del h(2) by (simp_all add: keys_Delete_def)
  moreover have "fst (db_Authenticate bc None touch t plaintext tbl) = Inl ErrNotFound"
    using c old by (simp add: db_Authenticate_def authAdapter_def keys_Authenticate_def)
  ultimately show ?thesis using c by auto
qed

definition toy_bcrypt :: bcrypt where
  "toy_bcrypt = \<lparr>bc_generate = (\<lambda>p. Inr (''h'' @ p)), bc_compare = (\<lambda>h p. h = ''h'' @ p)\<rparr>"

end
