(* ===== verification/Go_Ledger.thy ===== *)
theory Go_Ledger
  imports Go_Base
begin

text \<open>
  A ledger of recent keys with lazy eviction, the pattern of \<open>failureRateLimiter.shouldWarn\<close>
  (\<open>pkg/auth/chain.go\<close>) and \<open>BrowserAuth.consumeNonce\<close> (\<open>pkg/httpsrv/browserauth.go\<close>): every
  call first deletes the entries older than a window, then accepts the key unless it is still
  there, and records it. The contract is the locale \<open>ledger\<close>; both components interpret it.
\<close>

type_synonym book = "(string \<times> gotime) list"

definition evict :: "duration \<Rightarrow> gotime \<Rightarrow> book \<Rightarrow> book" where
  "evict window now m = filter (\<lambda>(k, t). \<not> time_sub now t > window) m"

text \<open>A history of calls, each with its time and key, and the answers it gets.\<close>

fun use_history ::
  "(gotime \<Rightarrow> string \<Rightarrow> book \<Rightarrow> bool \<times> book) \<Rightarrow> (gotime \<times> string) list \<Rightarrow> book \<Rightarrow> bool list" where
  "use_history use [] m = []"
| "use_history use ((t, k) # h) m = fst (use t k m) # use_history use h (snd (use t k m))"

locale ledger =
  fixes use :: "gotime \<Rightarrow> string \<Rightarrow> book \<Rightarrow> bool \<times> book"
    and window :: duration
  assumes use_eq: "key \<noteq> [] \<Longrightarrow> use now key m =
    (let m' = evict window now m
     in if map_of m' key \<noteq> None then (False, m') else (True, AList.update key now m'))"
    and use_empty: "snd (use now [] m) = m"
    and window_bound: "0 \<le> window" "window < max_int64"
begin

abbreviation answers :: "(gotime \<times> string) list \<Rightarrow> book \<Rightarrow> bool list" where
  "answers \<equiv> use_history use"

lemma evict_lookup:
  assumes "distinct (map fst m)"
  shows "map_of (evict window now m) k = (case map_of m k of
    None \<Rightarrow> None | Some t \<Rightarrow> if time_sub now t > window then None else Some t)"
  using assms
proof (induction m)
  case (Cons e m)
  then show ?case
    by (cases e) (auto simp: evict_def map_of_eq_None_iff image_iff split: option.splits dest: map_of_SomeD)
qed (simp add: evict_def)

lemma evict_distinct: "distinct (map fst m) \<Longrightarrow> distinct (map fst (evict window now m))"
  by (auto simp: evict_def distinct_map intro: inj_on_subset)

lemma use_distinct: "distinct (map fst m) \<Longrightarrow> distinct (map fst (snd (use now key m)))"
  by (cases "key = []") (simp_all add: use_empty use_eq Let_def evict_distinct distinct_update)

lemma use_accepts:
  "key \<noteq> [] \<Longrightarrow> distinct (map fst m) \<Longrightarrow>
     fst (use now key m) \<longleftrightarrow> (case map_of m key of None \<Rightarrow> True | Some t \<Rightarrow> time_sub now t > window)"
  by (simp add: use_eq Let_def evict_lookup split: option.splits)

lemma use_records:
  "key \<noteq> [] \<Longrightarrow> fst (use now key m) \<Longrightarrow> map_of (snd (use now key m)) key = Some now"
  by (simp add: use_eq Let_def update_conv' split: if_splits)

lemma use_keeps:
  assumes "distinct (map fst m)" and "map_of m k = Some t" and "\<not> (k = key \<and> fst (use now key m))"
  shows "map_of (snd (use now key m)) k = Some t \<or> time_sub now t > window"
  using assms
  by (cases "key = []") (auto simp: use_empty use_eq Let_def evict_lookup update_conv' split: if_splits option.splits)

text \<open>Every entry that survives a call is within the window: the ledger does not grow with the
  past.\<close>

lemma use_fresh:
  assumes "key \<noteq> []" and "(k, t) \<in> set (snd (use now key m))"
  shows "time_sub now t \<le> window \<or> (k = key \<and> t = now)"
proof (cases "map_of (evict window now m) key")
  case None
  with assms have "(k, t) \<in> set (AList.update key now (evict window now m))" by (simp add: use_eq)
  moreover have "key \<notin> fst ` set (evict window now m)" using None by (simp add: map_of_eq_None_iff)
  then have "AList.update key now (evict window now m) = evict window now m @ [(key, now)]"
    by (rule update_new)
  ultimately show ?thesis by (auto simp: evict_def)
next
  case (Some x)
  with assms show ?thesis by (auto simp: use_eq evict_def)
qed

text \<open>Once a key was accepted at time \<open>t0\<close>, it is next accepted only after the window.\<close>

lemma sub_apart: "time_sub t t0 > window \<longleftrightarrow> t - t0 > window"
  using window_bound by (intro time_sub_greater) simp_all

lemma next_accept:
  assumes "sorted (map fst h)" and "k \<noteq> []" and "distinct (map fst m)"
    and "map_of m k = Some t0 \<or> (\<forall>(t, k') \<in> set h. t - t0 > window)"
    and "j < length h" and "snd (h ! j) = k" and "answers h m ! j"
  shows "fst (h ! j) - t0 > window"
  using assms
proof (induction h arbitrary: m j)
  case (Cons e h)
  obtain t k' where e: "e = (t, k')" by (cases e)
  have head: "t - t0 > window" if "k' = k" "fst (use t k' m)"
    using that Cons.prems(4) use_accepts [OF assms(2) Cons.prems(3), of t] by (auto simp: e sub_apart)
  show ?case
  proof (cases j)
    case 0
    then show ?thesis using Cons.prems(6,7) head by (simp add: e)
  next
    case (Suc j')
    let ?m = "snd (use t k' m)"
    have later: "t \<le> fst (h ! j')" using Cons.prems(1,5) Suc by (simp add: e)
    show ?thesis
    proof (cases "k' = k \<and> fst (use t k' m) \<or> t - t0 > window")
      case True
      then show ?thesis using head later Suc by (auto simp: e)
    next
      case False
      then have "map_of ?m k = Some t0 \<or> (\<forall>(t, k') \<in> set h. t - t0 > window)"
        using Cons.prems(4) use_keeps [OF Cons.prems(3), of k t0 k' t] by (auto simp: e sub_apart)
      then have "fst (h ! j') - t0 > window"
        using Cons.prems Suc use_distinct [OF Cons.prems(3)] by (intro Cons.IH [of ?m]) (auto simp: e)
      then show ?thesis by (simp add: Suc)
    qed
  qed
qed simp

lemma accepted_apart:
  assumes "sorted (map fst h)" and "distinct (map fst m)"
    and "i < j" and "j < length h" and "snd (h ! i) = snd (h ! j)" and "snd (h ! i) \<noteq> []"
    and "answers h m ! i" and "answers h m ! j"
  shows "fst (h ! j) - fst (h ! i) > window"
  using assms
proof (induction h arbitrary: m i j)
  case (Cons e h)
  obtain t k where e: "e = (t, k)" by (cases e)
  obtain j' where j: "j = Suc j'" using Cons.prems(3) by (cases j) auto
  show ?case
  proof (cases i)
    case 0
    then have ne: "k \<noteq> []" using Cons.prems(6) by (simp add: e)
    then have "map_of (snd (use t k m)) k = Some t" using Cons.prems(7) use_records 0 by (simp add: e)
    then have "fst (h ! j') - t > window"
      using Cons.prems use_distinct [OF Cons.prems(2), of t] ne
      by (intro next_accept [of h k "snd (use t k m)" t j']) (simp_all add: e 0 j)
    then show ?thesis by (simp add: e 0 j)
  next
    case (Suc i')
    have "fst (h ! j') - fst (h ! i') > window"
      using Cons.prems use_distinct [OF Cons.prems(2), of t]
      by (intro Cons.IH [of "snd (use t k m)"]) (simp_all add: e Suc j)
    then show ?thesis by (simp add: Suc j)
  qed
qed simp

end

end
