(* ===== verification/Auth_Chain.thy ===== *)
theory Auth_Chain
  imports Auth_Keys Go_Ledger
begin

text \<open>
  \<open>pkg/auth/chain.go\<close>: the authentication chain, its failure log with the redaction of
  JWT-shaped text, and the rate limiter that demotes repeated failures. A store is a function on
  the token and the state \<open>'s\<close> behind it (database table, JWKS cache); the wall clock is
  \<open>clock n\<close> at the n-th logged failure of a call.
\<close>

section \<open>Redaction of token-like text\<close>

definition is_jwt_char :: "char \<Rightarrow> bool" where
  "is_jwt_char c \<longleftrightarrow> (let n = (of_char c :: nat) in
     65 \<le> n \<and> n \<le> 90 \<or> 97 \<le> n \<and> n \<le> 122 \<or> 48 \<le> n \<and> n \<le> 57 \<or> n = 95 \<or> n = 45)"

definition jwt_run :: "string \<Rightarrow> nat" where
  "jwt_run s = length (takeWhile is_jwt_char s)"

text \<open>The length of the match of \<open>jwtPattern\<close> at the start of a string. The dot is in no segment,
  so each of the first two segments is the whole run before its dot; the third is greedy.\<close>

definition jwt_len :: "string \<Rightarrow> nat option" where
  "jwt_len s =
     (let a = jwt_run s; s1 = drop a s
      in if a < 8 \<or> s1 = [] \<or> hd s1 \<noteq> CHR ''.'' then None
         else let b = jwt_run (tl s1); s2 = drop b (tl s1)
              in if b < 8 \<or> s2 = [] \<or> hd s2 \<noteq> CHR ''.'' then None
                 else let c = jwt_run (tl s2)
                      in if c < 8 then None else Some (a + 1 + b + 1 + c))"

text \<open>\<open>ReplaceAllString\<close>: leftmost matches, left to right.\<close>

fun redactTokenLikes :: "string \<Rightarrow> string" where
  "redactTokenLikes [] = []"
| "redactTokenLikes (c # s) = (case jwt_len (c # s) of
     None \<Rightarrow> c # redactTokenLikes s
   | Some n \<Rightarrow> ''[redacted-jwt]'' @ redactTokenLikes (drop (n - 1) s))"

section \<open>The failure rate limiter\<close>

definition newFailureRateLimiter :: "duration \<Rightarrow> duration" where
  "newFailureRateLimiter window = (if window \<le> 0 then minute else window)"

definition shouldWarn :: "duration \<Rightarrow> gotime \<Rightarrow> string \<Rightarrow> book \<Rightarrow> bool \<times> book" where
  "shouldWarn window now key lastLog =
     (if key = [] then (True, lastLog)
      else let lastLog = filter (\<lambda>(k, t). \<not> time_sub now t > window) lastLog
           in case map_of lastLog key of
                Some lastT \<Rightarrow>
                  if time_sub now lastT \<le> window then (False, lastLog)
                  else (True, AList.update key now lastLog)
              | None \<Rightarrow> (True, AList.update key now lastLog))"

section \<open>The chain\<close>

datatype level = Debug | Warn

record log_line =
  ll_level :: level
  ll_method :: string
  ll_error :: string
  ll_request_id :: string
  ll_remote_addr :: string

record 's chain =
  ca_allowAnonymous :: bool
  ca_apiKeys :: "'s key_store option"
  ca_oidc :: "'s key_store option"
  ca_window :: duration

definition NewChain :: "bool \<Rightarrow> 's key_store option \<Rightarrow> 's key_store option \<Rightarrow> 's chain" where
  "NewChain allowAnonymous apiKeys oidc =
     \<lparr>ca_allowAnonymous = allowAnonymous, ca_apiKeys = apiKeys, ca_oidc = oidc,
      ca_window = newFailureRateLimiter minute\<rparr>"

record 's world =
  wd_stores :: 's
  wd_lastLog :: book
  wd_log :: "log_line list"

definition logAuthFailure :: "duration \<Rightarrow> gotime \<Rightarrow> ctx \<Rightarrow> string \<Rightarrow> goerr \<Rightarrow> 's world \<Rightarrow> 's world" where
  "logAuthFailure window now c method err w =
     (let remote = GetRemoteAddr c;
          (warn, lastLog) = shouldWarn window now remote (wd_lastLog w)
      in w\<lparr>wd_lastLog := lastLog,
           wd_log := wd_log w @ [\<lparr>ll_level = (if warn then Warn else Debug), ll_method = method,
             ll_error = redactTokenLikes (err_text err), ll_request_id = GetRequestID c,
             ll_remote_addr = remote\<rparr>]\<rparr>)"

text \<open>One attempt: \<open>if store != nil { id, err := \<dots>; if err == nil { return id, nil }; log }\<close>.\<close>

definition attempt ::
  "bool \<Rightarrow> 's key_store option \<Rightarrow> duration \<Rightarrow> gotime \<Rightarrow> ctx \<Rightarrow> string \<Rightarrow> string \<Rightarrow> 's world \<Rightarrow> identity option \<times> 's world" where
  "attempt guard store window now c method tok w =
     (case store of
        None \<Rightarrow> (None, w)
      | Some authenticate \<Rightarrow>
          if guard then
            (case authenticate tok (wd_stores w) of
               (Inr i, s) \<Rightarrow> (Some i, w\<lparr>wd_stores := s\<rparr>)
             | (Inl e, s) \<Rightarrow> (None, logAuthFailure window now c method e (w\<lparr>wd_stores := s\<rparr>)))
          else (None, w))"

definition chain_Authenticate ::
  "'s chain \<Rightarrow> (nat \<Rightarrow> gotime) \<Rightarrow> ctx \<Rightarrow> 's world \<Rightarrow> identity result \<times> 's world" where
  "chain_Authenticate ch clock c w =
     (let tok = GetToken c
      in if tok = [] then
           (if ca_allowAnonymous ch then (Inr Anonymous, w) else (Inl ErrNotAuthenticated, w))
         else
           let tryOIDCFirst = has_prefix tok ''ey''
           in case attempt tryOIDCFirst (ca_oidc ch) (ca_window ch) (clock 0) c ''oidc'' tok w of
                (Some i, w1) \<Rightarrow> (Inr i, w1)
              | (None, w1) \<Rightarrow>
                  (case attempt True (ca_apiKeys ch) (ca_window ch) (clock 1) c ''apikey'' tok w1 of
                     (Some i, w2) \<Rightarrow> (Inr i, w2)
                   | (None, w2) \<Rightarrow>
                       (case attempt (\<not> tryOIDCFirst) (ca_oidc ch) (ca_window ch) (clock 2) c ''oidc'' tok w2 of
                          (Some i, w3) \<Rightarrow> (Inr i, w3)
                        | (None, w3) \<Rightarrow> (Inl ErrNotAuthenticated, w3))))"

section \<open>No token reaches the log\<close>

text \<open>A string has the shape at its start when three runs of at least eight token characters are
  separated by dots.\<close>

definition jwt_at :: "string \<Rightarrow> bool" where
  "jwt_at s \<longleftrightarrow> (\<exists>a b c q. s = a @ ''.'' @ b @ ''.'' @ c @ q \<and>
     list_all is_jwt_char (a @ b @ c) \<and> 8 \<le> length a \<and> 8 \<le> length b \<and> length c = 8)"

lemma dot_not_jwt [simp]: "\<not> is_jwt_char CHR ''.''" "\<not> is_jwt_char CHR ''[''" "\<not> is_jwt_char CHR '']''"
  by (simp_all add: is_jwt_char_def)

lemma jwt_run_segment:
  "list_all is_jwt_char a \<Longrightarrow> jwt_run (a @ CHR ''.'' # r) = length a"
  by (simp add: jwt_run_def takeWhile_append list_all_iff)

lemma jwt_split: "x = takeWhile is_jwt_char x @ drop (jwt_run x) x" "list_all is_jwt_char (takeWhile is_jwt_char x)"
  by (auto simp: jwt_run_def list_all_iff simp flip: dropWhile_eq_drop dest: set_takeWhileD)

lemma jwt_segment:
  assumes "8 \<le> jwt_run s" and "drop (jwt_run s) s \<noteq> []" and "hd (drop (jwt_run s) s) = CHR ''.''"
  obtains a where "s = a @ CHR ''.'' # tl (drop (jwt_run s) s)" and "list_all is_jwt_char a" and "8 \<le> length a"
proof -
  have "drop (jwt_run s) s = CHR ''.'' # tl (drop (jwt_run s) s)" using assms(2,3) by (metis list.collapse)
  then have "s = takeWhile is_jwt_char s @ CHR ''.'' # tl (drop (jwt_run s) s)" using jwt_split(1) by metis
  then show thesis using that jwt_split(2) [of s] assms(1) unfolding jwt_run_def by blast
qed

lemma jwt_take: "8 \<le> jwt_run y \<Longrightarrow> length (take 8 y) = 8 \<and> list_all is_jwt_char (take 8 y)"
proof -
  assume "8 \<le> jwt_run y"
  moreover have "take 8 (takeWhile is_jwt_char y) = take 8 (take (jwt_run y) y)"
    unfolding jwt_run_def by (subst takeWhile_eq_take) (rule refl)
  ultimately have "take 8 y = take 8 (takeWhile is_jwt_char y)" by (simp add: min_def)
  then show ?thesis using \<open>8 \<le> jwt_run y\<close> jwt_split(2) [of y]
    by (auto simp: jwt_run_def list_all_iff dest: in_set_takeD)
qed

lemma jwt_len_at: "jwt_len s \<noteq> None \<longleftrightarrow> jwt_at s"
proof
  assume "jwt_at s"
  then obtain a b c q where s: "s = a @ ''.'' @ b @ ''.'' @ c @ q"
    and ok: "list_all is_jwt_char a" "list_all is_jwt_char b" "list_all is_jwt_char c"
    and len: "8 \<le> length a" "8 \<le> length b" "length c = 8"
    unfolding jwt_at_def by auto
  have "8 \<le> jwt_run (c @ q)" using ok(3) len(3) by (simp add: jwt_run_def takeWhile_append list_all_iff)
  then show "jwt_len s \<noteq> None" using ok len by (simp add: s jwt_len_def Let_def jwt_run_segment)
next
  assume "jwt_len s \<noteq> None"
  then have *: "8 \<le> jwt_run s" "drop (jwt_run s) s \<noteq> []" "hd (drop (jwt_run s) s) = CHR ''.''"
    unfolding jwt_len_def Let_def by (auto split: if_splits)
  then obtain a where a: "s = a @ CHR ''.'' # tl (drop (jwt_run s) s)" "list_all is_jwt_char a" "8 \<le> length a"
    by (rule jwt_segment)
  define x where "x = tl (drop (jwt_run s) s)"
  from \<open>jwt_len s \<noteq> None\<close> have "8 \<le> jwt_run x" "drop (jwt_run x) x \<noteq> []" "hd (drop (jwt_run x) x) = CHR ''.''"
    unfolding jwt_len_def Let_def x_def by (auto split: if_splits)
  then obtain b where b: "x = b @ CHR ''.'' # tl (drop (jwt_run x) x)" "list_all is_jwt_char b" "8 \<le> length b"
    by (rule jwt_segment)
  define y where "y = tl (drop (jwt_run x) x)"
  from \<open>jwt_len s \<noteq> None\<close> have "8 \<le> jwt_run y"
    unfolding jwt_len_def Let_def x_def y_def by (auto split: if_splits)
  then have y: "length (take 8 y) = 8" "list_all is_jwt_char (take 8 y)" using jwt_take by blast+
  have "s = a @ ''.'' @ b @ ''.'' @ take 8 y @ drop 8 y"
    using a(1) b(1) by (simp add: x_def [symmetric] y_def [symmetric])
  with a b y show "jwt_at s" unfolding jwt_at_def
    by (intro exI [of _ a] exI [of _ b] exI [of _ "take 8 y"] exI [of _ "drop 8 y"]) simp
qed

lemma jwt_at_break:
  assumes "jwt_at (p @ d # q)" and "\<not> is_jwt_char d" and "d \<noteq> CHR ''.''"
  shows "jwt_at p"
proof -
  from assms(1) obtain a b c r where eq: "p @ d # q = (a @ ''.'' @ b @ ''.'' @ c) @ r"
    and ok: "list_all is_jwt_char (a @ b @ c)" "8 \<le> length a" "8 \<le> length b" "length c = 8"
    unfolding jwt_at_def by auto
  have "d \<notin> set (a @ ''.'' @ b @ ''.'' @ c)" using assms(2,3) ok(1) by (auto simp: list_all_iff)
  with eq obtain us where "p = (a @ ''.'' @ b @ ''.'' @ c) @ us" using append_break by metis
  then show ?thesis using ok unfolding jwt_at_def by auto
qed

lemma jwt_at_extend: "jwt_at p \<Longrightarrow> jwt_at (p @ q)"
  unfolding jwt_at_def by (metis append.assoc)

lemma jwt_at_length: "jwt_at p \<Longrightarrow> 26 \<le> length p"
  unfolding jwt_at_def by auto

lemma redact_before: "jwt_at (x @ redactTokenLikes s) \<Longrightarrow> jwt_at (x @ s)"
proof (induction s arbitrary: x rule: redactTokenLikes.induct)
  case (2 c s)
  show ?case
  proof (cases "jwt_len (c # s)")
    case None
    with "2.prems" "2.IH"(1) [OF None, of "x @ [c]"] show ?thesis by simp
  next
    case (Some n)
    with "2.prems" have "jwt_at x" by (auto intro: jwt_at_break)
    then show ?thesis by (rule jwt_at_extend)
  qed
qed simp

lemma redact_clean: "redactTokenLikes s = p @ q \<Longrightarrow> \<not> jwt_at q"
proof (induction s arbitrary: p rule: redactTokenLikes.induct)
  case 1
  then show ?case using jwt_at_length by fastforce
next
  case (2 c s)
  show ?case
  proof (cases "jwt_len (c # s)")
    case None
    show ?thesis
    proof (cases p)
      case Nil
      then have "q = [c] @ redactTokenLikes s" using "2.prems" None by simp
      then show ?thesis using redact_before [of "[c]" s] None jwt_len_at [of "c # s"] by auto
    next
      case (Cons d p')
      then show ?thesis using "2.prems" None "2.IH"(1) [OF None, of p'] by simp
    qed
  next
    case (Some n)
    let ?R = "redactTokenLikes (drop (n - 1) s)"
    from Some "2.prems" have "''[redacted-jwt]'' @ ?R = p @ q" by simp
    from this [unfolded append_eq_append_conv2]
    consider us where "q = us @ ?R" "''[redacted-jwt]'' = p @ us" | us where "p = ''[redacted-jwt]'' @ us" "?R = us @ q"
      by blast
    then show ?thesis
    proof cases
      case (1 us)
      show ?thesis
      proof (cases us rule: rev_cases)
        case Nil
        then show ?thesis using 1 "2.IH"(2) [OF Some, of "[]"] by simp
      next
        case (snoc l d)
        then have "d = CHR '']''" "length l \<le> 13" using 1(2) arg_cong [OF 1(2), of last] arg_cong [OF 1(2), of length] by auto
        then show ?thesis using 1(1) snoc jwt_at_break [of l d ?R] jwt_at_length [of l] by auto
      qed
    next
      case (2 us)
      then show ?thesis using "2.IH"(2) [OF Some, of us] by simp
    qed
  qed
qed



section \<open>At most one warning per window\<close>

interpretation warn: ledger "shouldWarn minute" minute
  by unfold_locales (auto simp: shouldWarn_def evict_def Let_def split: option.splits dest!: map_of_SomeD)

text \<open>A noisy client cannot flood the log. In any sequence of logged failures, two warnings for
  the same known remote address are more than a minute apart; the failures in between are logged at debug
  level.\<close>

theorem warn_once_per_minute:
  assumes "sorted (map fst h)" and "i < j" and "j < length h"
    and "snd (h ! i) = snd (h ! j)" and "snd (h ! i) \<noteq> []"
    and "use_history (shouldWarn (newFailureRateLimiter minute)) h [] ! i"
    and "use_history (shouldWarn (newFailureRateLimiter minute)) h [] ! j"
  shows "fst (h ! j) - fst (h ! i) > minute"
  using assms warn.accepted_apart [of h "[]" i j] by (simp add: newFailureRateLimiter_def)

theorem warn_once_per_minute_witness:
  "use_history (shouldWarn (newFailureRateLimiter minute)) [(0, ''a''), (second, ''a''), (2 * minute, ''a'')] [] =
     [True, False, True] \<and> (2 * minute - 0 :: int) > minute"
proof -
  have u: "use_history (shouldWarn (newFailureRateLimiter minute)) [(0, ''a''), (second, ''a''), (2 * minute, ''a'')] [] =
      [True, False, True]" by code_simp
  show ?thesis
    using warn_once_per_minute [of "[(0, ''a''), (second, ''a''), (2 * minute, ''a'')]" 0 2] u by simp
qed

section \<open>What the chain grants\<close>

lemma attempt_granted:
  "attempt g store window now c m tok w = (Some i, w') \<Longrightarrow>
     \<exists>f. store = Some f \<and> f tok (wd_stores w) = (Inr i, wd_stores w') \<and> wd_log w' = wd_log w"
  by (auto simp: attempt_def split: option.splits if_splits prod.splits sum.splits)

lemma attempt_refused:
  "attempt g store window now c m tok w = (None, w') \<Longrightarrow>
     length (wd_log w') = length (wd_log w) + (if g \<and> store \<noteq> None then 1 else 0)"
  by (auto simp: attempt_def logAuthFailure_def Let_def split: option.splits if_splits prod.splits sum.splits)


end
