(* ===== verification/Config.thy ===== *)
theory Config
  imports Auth_Keys
begin

text \<open>
  \<open>pkg/config/config.go\<close>: the configuration document, its defaults, its validation and the
  expansion of environment references. Reading the file and the YAML decoder are arguments of
  \<open>Load\<close>; the environment is a function from names to optional values.
\<close>

section \<open>The document\<close>

record shutdown_config =
  sh_GracePeriod :: duration
  sh_PreShutdownDelay :: duration

record tls_config =
  tls_Enabled :: bool
  tls_CertFile :: string
  tls_KeyFile :: string

record streamable_http =
  sm_SessionTimeout :: duration
  sm_Stateless :: bool
  sm_JSONResponse :: bool

record server_config =
  sc_Name :: string
  sc_Address :: string
  sc_BaseURL :: string
  sc_Instructions :: string
  sc_ReadHeaderTimeout :: duration
  sc_Shutdown :: shutdown_config
  sc_TLS :: tls_config
  sc_Streamable :: streamable_http

record oidc_config =
  oc_Enabled :: bool
  oc_Issuer :: string
  oc_Audience :: string
  oc_ClientID :: string
  oc_ClientSecret :: string
  oc_AllowedClients :: "string list"
  oc_ClockSkewSeconds :: int
  oc_JWKSCacheTTL :: duration
  oc_SkipSignatureVerification :: bool

record api_keys_config =
  ak_File :: "file_api_key list"
  ak_DBEnabled :: bool

record auth_config =
  ac_AllowAnonymous :: bool
  ac_RequireForMCP :: bool
  ac_RequireForPortal :: bool

record database_config =
  db_URL :: string
  db_MaxOpenConns :: int
  db_MaxIdleConns :: int
  db_ConnMaxLifetime :: duration

record audit_config =
  au_Enabled :: bool
  au_RetentionDays :: int
  au_RedactKeys :: "string list"
  au_CapturePayloads :: "bool option"
  au_CaptureHeaders :: "bool option"
  au_MaxPayloadBytes :: int
  au_MaxNotifications :: int

record portal_config =
  po_Enabled :: bool
  po_CookieName :: string
  po_CookieSecret :: string
  po_CookieSecure :: bool
  po_OIDCRedirectPath :: string

record tools_config =
  to_Identity :: bool
  to_Data :: bool
  to_Failure :: bool
  to_Streaming :: bool

record config =
  cf_Server :: server_config
  cf_OIDC :: oidc_config
  cf_APIKeys :: api_keys_config
  cf_Auth :: auth_config
  cf_Database :: database_config
  cf_Audit :: audit_config
  cf_Portal :: portal_config
  cf_Tools :: tools_config

definition CapturePayloadsEnabled :: "audit_config \<Rightarrow> bool" where
  "CapturePayloadsEnabled a = (case au_CapturePayloads a of None \<Rightarrow> True | Some b \<Rightarrow> b)"

definition CaptureHeadersEnabled :: "audit_config \<Rightarrow> bool" where
  "CaptureHeadersEnabled a = (case au_CaptureHeaders a of None \<Rightarrow> True | Some b \<Rightarrow> b)"

definition DefaultServerInstructions :: string where
  \<open>DefaultServerInstructions = join [CHR 0x0A]
     [''This is mcp-test, a controllable Model Context Protocol server used to'',
      ''exercise MCP gateways (such as Plexara) end-to-end.'',
      [],
      ''The tools it exposes are deliberately simple and deterministic. Their job'',
      ''is not to compute anything useful; their job is to make a gateway's'',
      ''behavior observable. Every tool call is recorded in a Postgres-backed'',
      ''audit log, so a tester can compare what a client sent, what reached this'',
      ''server, and what came back.'',
      [],
      ''Tools are grouped by what they help you test:'',
      ''  - identity:  whoami, echo, headers - verify the gateway forwards'',
      ''               identity, args, and HTTP headers, redacting what's'',
      ''               configured to be redacted.'',
      ''  - data:      fixed_response, sized_response, lorem - deterministic'',
      ''               outputs for testing enrichment dedup, response-size'',
      ''               handling, and caching boundaries. Same input always'',
      ''               returns the same output.'',
      ''  - failure:   error, slow, flaky - controlled failure modes (errors,'',
      ''               latency, probabilistic flakiness) for testing retry and'',
      ''               timeout policy.'',
      ''  - streaming: progress, long_output, chatty - progress notifications'',
      ''               and multi-block content for testing streamable-HTTP'',
      ''               behavior end-to-end.'',
      [],
      ''Reproducibility: tools that take a "seed" (lorem, flaky) produce the'',
      ''same output for the same seed. fixed_response keys deterministically'',
      ''into a SHA-256-derived body. Use these to build assertions that survive'',
      ''across runs.'',
      [],
      ''This server is not a data source. Do not call it for real information.'']\<close>

section \<open>Defaults\<close>

definition portFromAddr :: "string \<Rightarrow> string" where
  "portFromAddr addr = (case last_index CHR '':'' addr of Some i \<Rightarrow> drop i addr | None \<Rightarrow> '':8080'')"

definition or_default :: "'a::zero \<Rightarrow> 'a \<Rightarrow> 'a" where
  "or_default d x = (if x = 0 then d else x)"

definition or_text :: "'a list \<Rightarrow> 'a list \<Rightarrow> 'a list" where
  "or_text d x = (if x = [] then d else x)"

definition default_redact_keys :: "string list" where
  "default_redact_keys =
     [''password'', ''token'', ''secret'', ''authorization'', ''api_key'',
      ''credentials'', ''bearer'', ''cookie'', ''jwt'', ''session_id'', ''private_key'', ''passwd'']"

definition server_defaults :: "server_config \<Rightarrow> server_config" where
  "server_defaults s =
     (let s = s\<lparr>sc_Name := or_text ''mcp-test'' (sc_Name s)\<rparr>;
          s = s\<lparr>sc_Address := or_text '':8080'' (sc_Address s)\<rparr>;
          s = s\<lparr>sc_BaseURL := or_text (''http://localhost'' @ portFromAddr (sc_Address s)) (sc_BaseURL s)\<rparr>;
          s = s\<lparr>sc_Instructions := or_text DefaultServerInstructions (sc_Instructions s)\<rparr>;
          s = s\<lparr>sc_ReadHeaderTimeout := or_default (10 * second) (sc_ReadHeaderTimeout s)\<rparr>;
          s = s\<lparr>sc_Shutdown := (sc_Shutdown s)
                  \<lparr>sh_GracePeriod := or_default (25 * second) (sh_GracePeriod (sc_Shutdown s)),
                   sh_PreShutdownDelay := or_default (2 * second) (sh_PreShutdownDelay (sc_Shutdown s))\<rparr>\<rparr>
      in s\<lparr>sc_Streamable := (sc_Streamable s)
             \<lparr>sm_SessionTimeout := or_default (30 * minute) (sm_SessionTimeout (sc_Streamable s))\<rparr>\<rparr>)"

definition oidc_defaults :: "oidc_config \<Rightarrow> oidc_config" where
  "oidc_defaults o' = o'\<lparr>oc_ClockSkewSeconds := or_default 30 (oc_ClockSkewSeconds o'),
     oc_JWKSCacheTTL := or_default hour (oc_JWKSCacheTTL o')\<rparr>"

definition database_defaults :: "database_config \<Rightarrow> database_config" where
  "database_defaults d = d\<lparr>db_MaxOpenConns := or_default 25 (db_MaxOpenConns d),
     db_MaxIdleConns := or_default 5 (db_MaxIdleConns d),
     db_ConnMaxLifetime := or_default hour (db_ConnMaxLifetime d)\<rparr>"

definition audit_defaults :: "audit_config \<Rightarrow> audit_config" where
  "audit_defaults a = a\<lparr>au_RetentionDays := or_default 30 (au_RetentionDays a),
     au_MaxPayloadBytes := or_default 65536 (au_MaxPayloadBytes a),
     au_MaxNotifications := or_default 100 (au_MaxNotifications a),
     au_RedactKeys := or_text default_redact_keys (au_RedactKeys a)\<rparr>"

definition portal_defaults :: "portal_config \<Rightarrow> portal_config" where
  "portal_defaults p = p\<lparr>po_CookieName := or_text ''mcp_test_session'' (po_CookieName p),
     po_OIDCRedirectPath := or_text ''/portal/auth/callback'' (po_OIDCRedirectPath p)\<rparr>"

definition applyDefaults :: "config \<Rightarrow> config" where
  "applyDefaults c = c\<lparr>cf_Server := server_defaults (cf_Server c), cf_OIDC := oidc_defaults (cf_OIDC c),
     cf_Database := database_defaults (cf_Database c), cf_Audit := audit_defaults (cf_Audit c),
     cf_Portal := portal_defaults (cf_Portal c)\<rparr>"

section \<open>Validation\<close>

definition validation_errors :: "(string \<Rightarrow> string option) \<Rightarrow> config \<Rightarrow> string list" where
  "validation_errors env c =
     (if db_URL (cf_Database c) = [] then [''database.url is required''] else []) @
     (if po_Enabled (cf_Portal c) \<and> po_CookieSecret (cf_Portal c) = []
      then [''portal.cookie_secret is required when portal.enabled=true''] else []) @
     (if oc_Enabled (cf_OIDC c) \<and> oc_Issuer (cf_OIDC c) = []
      then [''oidc.issuer is required when oidc.enabled=true''] else []) @
     (if oc_SkipSignatureVerification (cf_OIDC c) \<and> or_empty (env ''MCPTEST_INSECURE'') \<noteq> ''1''
      then [''oidc.skip_signature_verification requires MCPTEST_INSECURE=1''] else []) @
     (if \<not> oc_Enabled (cf_OIDC c) \<and> ak_File (cf_APIKeys c) = [] \<and> \<not> ak_DBEnabled (cf_APIKeys c) \<and>
         \<not> ac_AllowAnonymous (cf_Auth c)
      then [''no auth method enabled: configure oidc, api_keys, or auth.allow_anonymous''] else [])"

definition Validate :: "(string \<Rightarrow> string option) \<Rightarrow> config \<Rightarrow> goerr option" where
  "Validate env c =
     (let errs = validation_errors env c
      in if length errs > 0 then Some (ErrMsg (''invalid config: '' @ join ''; '' errs)) else None)"

section \<open>Environment references\<close>

definition name_start :: "char \<Rightarrow> bool" where
  "name_start c \<longleftrightarrow> (let n = (of_char c :: nat) in 65 \<le> n \<and> n \<le> 90 \<or> 97 \<le> n \<and> n \<le> 122 \<or> n = 95)"

definition name_char :: "char \<Rightarrow> bool" where
  "name_char c \<longleftrightarrow> name_start c \<or> (let n = (of_char c :: nat) in 48 \<le> n \<and> n \<le> 57)"

text \<open>The match of \<open>envPattern\<close> after a leading dollar sign: name, default and the text after the
  closing brace. The characters that end a name or a default are in neither, so the greedy
  repetitions need no backtracking.\<close>

definition env_ref :: "string \<Rightarrow> (string \<times> string \<times> string) option" where
  "env_ref s = (case s of
     [] \<Rightarrow> None
   | c # s \<Rightarrow>
       if c \<noteq> CHR ''{'' then None
       else let name = takeWhile name_char s; r = dropWhile name_char s
            in if name = [] \<or> \<not> name_start (hd name) then None
               else if has_prefix r ''}'' then Some (name, [], drop 1 r)
               else if has_prefix r '':-'' then
                 let d = takeWhile (\<lambda>c. c \<noteq> CHR ''}'') (drop 2 r);
                     r' = dropWhile (\<lambda>c. c \<noteq> CHR ''}'') (drop 2 r)
                 in if r' = [] then None else Some (name, d, drop 1 r')
               else None)"

lemma env_ref_shorter: "env_ref s = Some (name, d, rest) \<Longrightarrow> length rest < length s"
proof -
  have l: "length (dropWhile P xs) \<le> length xs" for P and xs :: string
    by (rule length_dropWhile_le)
  assume "env_ref s = Some (name, d, rest)"
  then show ?thesis
    using l [of name_char "tl s"] l [of "\<lambda>c. c \<noteq> CHR ''}''" "drop 2 (dropWhile name_char (tl s))"]
    by (cases s) (auto simp: env_ref_def Let_def split: if_splits)
qed

function expandEnv :: "(string \<Rightarrow> string option) \<Rightarrow> string \<Rightarrow> string" where
  "expandEnv env [] = []"
| "expandEnv env (c # s) =
     (if c = CHR ''$'' then
        (case env_ref s of
           None \<Rightarrow> c # expandEnv env s
         | Some (name, d, rest) \<Rightarrow> (case env name of Some v \<Rightarrow> v | None \<Rightarrow> d) @ expandEnv env rest)
      else c # expandEnv env s)"
  by pat_completeness auto
termination
  by (relation "measure (\<lambda>(env, s). length s)") (auto dest: env_ref_shorter)

definition Load ::
  "string result \<Rightarrow> (string \<Rightarrow> config result) \<Rightarrow> (string \<Rightarrow> string option) \<Rightarrow> string \<Rightarrow> config result" where
  "Load raw yaml env path =
     (case raw of
        Inl e \<Rightarrow> Inl (ErrMsg (''read config '' @ path @ '': '' @ err_text e))
      | Inr text \<Rightarrow>
          (case yaml (expandEnv env text) of
             Inl e \<Rightarrow> Inl (ErrMsg (''parse config: '' @ err_text e))
           | Inr cfg \<Rightarrow>
               (let cfg = applyDefaults cfg
                in case Validate env cfg of Some e \<Rightarrow> Inl e | None \<Rightarrow> Inr cfg)))"

section \<open>Defaults are filled in once\<close>

lemma or_default_simps [simp]:
  "d \<noteq> 0 \<Longrightarrow> or_default d (or_default d x) = or_default d x" "d \<noteq> 0 \<Longrightarrow> or_default d x \<noteq> 0"
  "x \<noteq> 0 \<Longrightarrow> or_default d x = x"
  by (simp_all add: or_default_def)

lemma or_text_simps [simp]:
  "d \<noteq> [] \<Longrightarrow> or_text d (or_text d x) = or_text d x" "d \<noteq> [] \<Longrightarrow> or_text d x \<noteq> []"
  "x \<noteq> [] \<Longrightarrow> or_text d x = x"
  by (simp_all add: or_text_def)

lemma instructions_nonempty [simp]: "DefaultServerInstructions \<noteq> []"
  by (simp add: DefaultServerInstructions_def)

lemma redact_keys_nonempty [simp]: "default_redact_keys \<noteq> []"
  by (simp add: default_redact_keys_def)

lemma defaults_idem:
  "server_defaults (server_defaults s) = server_defaults s" "oidc_defaults (oidc_defaults o') = oidc_defaults o'"
  "database_defaults (database_defaults d) = database_defaults d" "audit_defaults (audit_defaults a) = audit_defaults a"
  "portal_defaults (portal_defaults p) = portal_defaults p"
  by (simp_all add: server_defaults_def oidc_defaults_def database_defaults_def audit_defaults_def
      portal_defaults_def Let_def)

text \<open>C38: A loaded configuration is complete and not insecure by accident. Whenever \<open>Load\<close>
  succeeds, for every file, environment and YAML decoder: applying the defaults again changes
  nothing, redaction keys and payload caps are set, the database URL is set, an enabled portal has a
  cookie secret, enabled OIDC has an issuer, signature verification is only skipped under
  \<open>MCPTEST_INSECURE=1\<close>, and at least one way to authenticate (or explicit anonymous access) is
  configured.\<close>

theorem load_complete_and_secure:
  assumes "Load raw yaml env path = Inr cfg"
  shows "applyDefaults cfg = cfg \<and> au_RedactKeys (cf_Audit cfg) \<noteq> [] \<and> au_MaxPayloadBytes (cf_Audit cfg) \<noteq> 0 \<and>
    db_URL (cf_Database cfg) \<noteq> [] \<and>
    (po_Enabled (cf_Portal cfg) \<longrightarrow> po_CookieSecret (cf_Portal cfg) \<noteq> []) \<and>
    (oc_Enabled (cf_OIDC cfg) \<longrightarrow> oc_Issuer (cf_OIDC cfg) \<noteq> []) \<and>
    (oc_SkipSignatureVerification (cf_OIDC cfg) \<longrightarrow> env ''MCPTEST_INSECURE'' = Some ''1'') \<and>
    (oc_Enabled (cf_OIDC cfg) \<or> ak_File (cf_APIKeys cfg) \<noteq> [] \<or> ak_DBEnabled (cf_APIKeys cfg) \<or>
     ac_AllowAnonymous (cf_Auth cfg))"
proof -
  from assms obtain c where c: "cfg = applyDefaults c" and v: "validation_errors env cfg = []"
    by (auto simp: Load_def Validate_def Let_def split: sum.splits option.splits if_splits)
  have "applyDefaults cfg = cfg" by (simp add: c applyDefaults_def defaults_idem)
  moreover have "au_RedactKeys (cf_Audit cfg) \<noteq> []" "au_MaxPayloadBytes (cf_Audit cfg) \<noteq> 0"
    by (simp_all add: c applyDefaults_def audit_defaults_def)
  moreover have "or_empty x = ''1'' \<longleftrightarrow> x = Some ''1''" for x by (cases x) simp_all
  ultimately show ?thesis using v by (auto simp: validation_errors_def split: if_splits)
qed

definition min_config :: config where
  "min_config =
     \<lparr>cf_Server = \<lparr>sc_Name = [], sc_Address = [], sc_BaseURL = [], sc_Instructions = [], sc_ReadHeaderTimeout = 0,
        sc_Shutdown = \<lparr>sh_GracePeriod = 0, sh_PreShutdownDelay = 0\<rparr>,
        sc_TLS = \<lparr>tls_Enabled = False, tls_CertFile = [], tls_KeyFile = []\<rparr>,
        sc_Streamable = \<lparr>sm_SessionTimeout = 0, sm_Stateless = False, sm_JSONResponse = False\<rparr>\<rparr>,
      cf_OIDC = \<lparr>oc_Enabled = False, oc_Issuer = [], oc_Audience = [], oc_ClientID = [], oc_ClientSecret = [],
        oc_AllowedClients = [], oc_ClockSkewSeconds = 0, oc_JWKSCacheTTL = 0, oc_SkipSignatureVerification = False\<rparr>,
      cf_APIKeys = \<lparr>ak_File = [], ak_DBEnabled = False\<rparr>,
      cf_Auth = \<lparr>ac_AllowAnonymous = True, ac_RequireForMCP = False, ac_RequireForPortal = False\<rparr>,
      cf_Database = \<lparr>db_URL = ''postgres://x'', db_MaxOpenConns = 0, db_MaxIdleConns = 0, db_ConnMaxLifetime = 0\<rparr>,
      cf_Audit = \<lparr>au_Enabled = True, au_RetentionDays = 0, au_RedactKeys = [], au_CapturePayloads = None,
        au_CaptureHeaders = None, au_MaxPayloadBytes = 0, au_MaxNotifications = 0\<rparr>,
      cf_Portal = \<lparr>po_Enabled = False, po_CookieName = [], po_CookieSecret = [], po_CookieSecure = False,
        po_OIDCRedirectPath = []\<rparr>,
      cf_Tools = \<lparr>to_Identity = True, to_Data = True, to_Failure = True, to_Streaming = True\<rparr>\<rparr>"

theorem load_complete_and_secure_witness:
  "au_RedactKeys (cf_Audit (applyDefaults min_config)) \<noteq> []"
proof -
  have "Load (Inr []) (\<lambda>_. Inr min_config) (\<lambda>_. None) ''x.yaml'' = Inr (applyDefaults min_config)"
    by (simp add: Load_def Validate_def validation_errors_def min_config_def applyDefaults_def
        database_defaults_def portal_defaults_def oidc_defaults_def)
  then show ?thesis using load_complete_and_secure by blast
qed

section \<open>Expansion is literal outside references\<close>

lemma env_ref_brace: "env_ref s \<noteq> None \<Longrightarrow> has_prefix s ''{''"
  by (cases s) (auto simp: env_ref_def split: if_splits)

lemma expandEnv_none: "\<not> contains s ''${'' \<Longrightarrow> expandEnv env s = s"
proof (induction s)
  case (Cons c s)
  then have "\<not> contains s ''${''" by (meson sublist_Cons_right)
  moreover have "env_ref s = None" if "c = CHR ''$''"
  proof (rule ccontr)
    assume "env_ref s \<noteq> None"
    then have "prefix ''${'' (c # s)" using env_ref_brace [of s] that by simp
    then show False using Cons.prems by (auto simp: sublist_Cons_right)
  qed
  ultimately show ?case using Cons.IH by simp
qed simp

lemma env_ref_form:
  assumes "name \<noteq> []" and "name_start (hd name)" and "list_all name_char name" and "CHR ''}'' \<notin> set d"
  shows "env_ref (''{'' @ name @ '':-'' @ d @ ''}'' @ post) = Some (name, d, post)"
    and "env_ref (''{'' @ name @ ''}'' @ post) = Some (name, [], post)"
proof -
  have nc: "\<not> name_char CHR '':''" "\<not> name_char CHR ''}''" by (simp_all add: name_char_def name_start_def)
  have t: "takeWhile name_char (name @ x # xs) = name" "dropWhile name_char (name @ x # xs) = x # xs"
    if "\<not> name_char x" for x xs
    using assms(3) that by (simp_all add: takeWhile_append dropWhile_append3 list_all_iff)
  have d: "takeWhile (\<lambda>c. c \<noteq> CHR ''}'') (d @ CHR ''}'' # post) = d"
    "dropWhile (\<lambda>c. c \<noteq> CHR ''}'') (d @ CHR ''}'' # post) = CHR ''}'' # post"
    using assms(4) by (induction d) auto
  show "env_ref (''{'' @ name @ '':-'' @ d @ ''}'' @ post) = Some (name, d, post)"
    "env_ref (''{'' @ name @ ''}'' @ post) = Some (name, [], post)"
    using assms(1,2) nc t d by (simp_all add: env_ref_def Let_def)
qed

lemma expandEnv_prefix: "CHR ''$'' \<notin> set pre \<Longrightarrow> expandEnv env (pre @ s) = pre @ expandEnv env s"
  by (induction pre) auto

text \<open>Environment expansion. Text without an opening \<open>${\<close> is unchanged, so a plain \<open>$VAR\<close> in a
  connection string survives; \<open>${NAME:-default}\<close> becomes the variable's value, or the default when
  it is unset, \<open>${NAME}\<close> the value or nothing; the inserted value is not expanded again.\<close>

theorem expandEnv_spec:
  assumes "name \<noteq> []" and "name_start (hd name)" and "list_all name_char name" and "CHR ''}'' \<notin> set d"
    and "CHR ''$'' \<notin> set pre"
  shows "expandEnv env (pre @ ''${'' @ name @ '':-'' @ d @ ''}'' @ post) =
      pre @ (case env name of Some v \<Rightarrow> v | None \<Rightarrow> d) @ expandEnv env post \<and>
    expandEnv env (pre @ ''${'' @ name @ ''}'' @ post) =
      pre @ (case env name of Some v \<Rightarrow> v | None \<Rightarrow> []) @ expandEnv env post \<and>
    (\<not> contains s ''${'' \<longrightarrow> expandEnv env s = s)"
  using env_ref_form [OF assms(1-4), of post] assms(5) expandEnv_none [of s env]
  by (simp add: expandEnv_prefix)

theorem expandEnv_spec_witness:
  "expandEnv (\<lambda>_. None) ''url: ${DB:-pg}!'' = ''url: pg!''"
  using expandEnv_spec [of "''DB''" "''pg''" "''url: ''" "\<lambda>_. None" "''!''" "[]"]
  by (simp add: name_start_def name_char_def env_ref_def)

end
