(* ===== verification/Http_Gates.thy ===== *)
theory Http_Gates
  imports Http_Session Auth_Chain Config
begin

text \<open>
  The middleware and the small handlers of \<open>pkg/httpsrv\<close>: the credential gateway of the MCP
  endpoint (\<open>authgate.go\<close>), portal authentication (\<open>portalauth.go\<close>), the CSRF header
  (\<open>csrf.go\<close>), CORS (\<open>cors.go\<close>), the browser redirect (\<open>browserredirect.go\<close>), health
  (\<open>health.go\<close>), discovery metadata (\<open>wellknown.go\<close>) and the single-page app (\<open>spa.go\<close>). A
  handler is a function of the context, the request and a state; a middleware maps handlers to
  handlers. A response collects the headers set, the status and the body.
\<close>

section \<open>Handlers\<close>

type_synonym 's http_handler = "ctx \<Rightarrow> http_request \<Rightarrow> 's \<Rightarrow> http_response \<times> 's"
type_synonym 's middleware = "'s http_handler \<Rightarrow> 's http_handler"

definition set_headers :: "(string \<times> string) list \<Rightarrow> http_response \<Rightarrow> http_response" where
  "set_headers kvs r = r\<lparr>rs_Header := fold (\<lambda>(k, v) h. header_set h k v) kvs (rs_Header r)\<rparr>"

definition empty_response :: http_response where
  "empty_response = \<lparr>rs_Status = 200, rs_Header = [], rs_Body = NoBody\<rparr>"

definition text_error :: "string \<Rightarrow> int \<Rightarrow> http_response" where
  "text_error msg code = set_headers [(''Content-Type'', ''text/plain; charset=utf-8''), (''X-Content-Type-Options'', ''nosniff'')]
     (empty_response\<lparr>rs_Status := code, rs_Body := Raw (msg @ [CHR 0x0A])\<rparr>)"

definition redirect_to :: "string \<Rightarrow> http_response" where
  "redirect_to url = set_headers [(''Location'', url)] (empty_response\<lparr>rs_Status := 302\<rparr>)"

section \<open>The credential gateway\<close>

definition quoteAuthParam :: "string \<Rightarrow> string" where
  "quoteAuthParam s = concat (map (\<lambda>c. if c = CHR 0x5C \<or> c = CHR 0x22 then [CHR 0x5C, c] else [c]) s)"

definition auth_param :: "string \<Rightarrow> string \<Rightarrow> string" where
  "auth_param name v = name @ ''='' @ [CHR 0x22] @ quoteAuthParam v @ [CHR 0x22]"

definition buildBearerChallenge :: "string \<Rightarrow> string \<Rightarrow> string \<Rightarrow> string" where
  "buildBearerChallenge resourceMetadataURL errCode errDescription = join '', ''
     ([''Bearer realm='' @ [CHR 0x22] @ ''mcp-test'' @ [CHR 0x22]] @
      (if errCode \<noteq> [] then [auth_param ''error'' errCode] else []) @
      (if errDescription \<noteq> [] then [auth_param ''error_description'' errDescription] else []) @
      (if resourceMetadataURL \<noteq> [] then [auth_param ''resource_metadata'' resourceMetadataURL] else []))"

definition hasCredential :: "http_request \<Rightarrow> bool" where
  "hasCredential r =
     (if header_get (rq_Header r) ''X-API-Key'' \<noteq> [] then True
      else let a = header_get (rq_Header r) ''Authorization''
           in if a = [] then False else has_prefix (to_lower a) ''bearer '')"

definition json_text :: "(string \<times> string) list \<Rightarrow> string" where
  "json_text kvs = ''{'' @ join '','' (map (\<lambda>(k, v). [CHR 0x22] @ k @ [CHR 0x22] @ '':'' @ [CHR 0x22] @ v @ [CHR 0x22]) kvs) @ ''}''"

definition MCPAuthGateway :: "string \<Rightarrow> bool \<Rightarrow> 's middleware" where
  "MCPAuthGateway resourceMetadataURL allowAnonymous handler c r s =
     (if allowAnonymous then handler c r s
      else if hasCredential r then handler c r s
      else (set_headers
              [(''WWW-Authenticate'', buildBearerChallenge resourceMetadataURL ''invalid_request''
                 ''missing or unsupported credential; supply X-API-Key or Authorization: Bearer <token>''),
               (''Content-Type'', ''application/json'')]
              (empty_response\<lparr>rs_Status := 401,
                 rs_Body := Raw (json_text [(''error'', ''unauthorized''),
                   (''error_description'', ''missing or unsupported credential'')])\<rparr>), s))"

section \<open>Portal authentication\<close>

definition tokenFromRequest :: "http_request \<Rightarrow> string" where
  "tokenFromRequest r =
     (let k = header_get (rq_Header r) ''X-API-Key''
      in if k \<noteq> [] then k
         else let a = header_get (rq_Header r) ''Authorization''
              in if a = [] then []
                 else if length a > 7 \<and> (take 7 a = ''Bearer '' \<or> take 7 a = ''bearer '') then drop 7 a
                 else [])"

text \<open>The state of a portal request: the authentication world and the handler's own state.\<close>

record ('w, 'h) portal_state =
  ps_world :: "'w world"
  ps_handler :: 'h

record 'w portal_auth =
  pa_sessions :: "session_store option"
  pa_chain :: "'w chain option"

definition portal_unauthorized :: http_response where
  "portal_unauthorized = set_headers
     [(''WWW-Authenticate'', ''Bearer realm='' @ [CHR 0x22] @ ''mcp-test-portal'' @ [CHR 0x22]), (''Content-Type'', ''application/json'')]
     (empty_response\<lparr>rs_Status := 401, rs_Body := Raw (json_text [(''error'', ''unauthorized'')])\<rparr>)"

definition PortalAuth ::
  "hmac \<Rightarrow> session_json \<Rightarrow> (nat \<Rightarrow> gotime) \<Rightarrow> 'w portal_auth \<Rightarrow> 'h http_handler \<Rightarrow> ('w, 'h) portal_state http_handler" where
  "PortalAuth hmac sj clock p handler c r s =
     (let session = (case pa_sessions p of None \<Rightarrow> None | Some st \<Rightarrow> session_Read hmac sj (clock 0) st r);
          serve = (\<lambda>c s. case handler c r (ps_handler s) of (resp, h) \<Rightarrow> (resp, s\<lparr>ps_handler := h\<rparr>))
      in case session of
           Some i \<Rightarrow> serve (WithIdentity c (Some i)) s
         | None \<Rightarrow>
             (let tok = tokenFromRequest r
              in case (tok \<noteq> [], pa_chain p) of
                   (True, Some ch) \<Rightarrow>
                     (let c = WithToken c tok;
                          (res, w) = chain_Authenticate ch (\<lambda>n. clock (n + 1)) c (ps_world s);
                          s = s\<lparr>ps_world := w\<rparr>
                      in case res of
                           Inr i \<Rightarrow> serve (WithIdentity c (Some i)) s
                         | Inl _ \<Rightarrow> (portal_unauthorized, s))
                 | _ \<Rightarrow> (portal_unauthorized, s)))"

section \<open>CSRF, CORS and the browser redirect\<close>

definition requireCSRFHeader :: "'s middleware" where
  "requireCSRFHeader handler c r s =
     (if rq_Method r \<in> {''POST'', ''PUT'', ''PATCH'', ''DELETE''} \<and> header_get (rq_Header r) ''X-Requested-With'' = []
      then (text_error ''missing X-Requested-With header'' 403, s)
      else handler c r s)"

definition cors_headers :: "(string \<times> string) list" where
  "cors_headers =
     [(''Access-Control-Allow-Origin'', ''*''),
      (''Access-Control-Allow-Methods'', ''GET, POST, DELETE, OPTIONS''),
      (''Access-Control-Allow-Headers'',
       ''Authorization, Content-Type, X-API-Key, Mcp-Session-Id, Mcp-Protocol-Version, Last-Event-ID''),
      (''Access-Control-Expose-Headers'', ''Mcp-Session-Id, Mcp-Protocol-Version''),
      (''Access-Control-Max-Age'', ''600'')]"

text \<open>The headers are set before the handler writes; a handler that sets one of them itself wins.\<close>

definition with_default_headers :: "(string \<times> string) list \<Rightarrow> http_response \<Rightarrow> http_response" where
  "with_default_headers kvs r = r\<lparr>rs_Header := fold (\<lambda>(k, v) h. if map_of h (canonical_key k) = None then header_set h k v else h) kvs (rs_Header r)\<rparr>"

definition CORS :: "'s middleware" where
  "CORS handler c r s =
     (if rq_Method r = ''OPTIONS''
      then (set_headers cors_headers (empty_response\<lparr>rs_Status := 204\<rparr>), s)
      else case handler c r s of (resp, s') \<Rightarrow> (with_default_headers cors_headers resp, s'))"

definition isBrowserRoot :: "http_request \<Rightarrow> bool" where
  "isBrowserRoot r =
     (if rq_Method r \<noteq> ''GET'' \<or> rq_Path r \<noteq> ''/'' then False
      else if header_get (rq_Header r) ''Mcp-Session-Id'' \<noteq> [] \<or> header_get (rq_Header r) ''Mcp-Protocol-Version'' \<noteq> [] then False
      else contains (header_get (rq_Header r) ''Accept'') ''text/html'')"

definition BrowserRedirect :: "string \<Rightarrow> 's middleware" where
  "BrowserRedirect portalPath handler c r s =
     (let portalPath = (if portalPath = [] then ''/portal/'' else portalPath)
      in if isBrowserRoot r then (redirect_to portalPath, s) else handler c r s)"

section \<open>Health\<close>

record readiness =
  rd_ready :: bool

definition NewReadiness :: readiness where
  "NewReadiness = \<lparr>rd_ready = True\<rparr>"

definition SetReady :: "bool \<Rightarrow> readiness \<Rightarrow> readiness" where
  "SetReady v r = r\<lparr>rd_ready := v\<rparr>"

definition HealthzHandler :: "'s http_handler" where
  "HealthzHandler c r s = (empty_response\<lparr>rs_Body := Raw ''ok''\<rparr>, s)"

definition ReadyzHandler :: "readiness http_handler" where
  "ReadyzHandler c r s =
     (if rd_ready s then (empty_response\<lparr>rs_Body := Raw ''ready''\<rparr>, s)
      else (empty_response\<lparr>rs_Status := 503, rs_Body := Raw ''draining''\<rparr>, s))"

section \<open>Discovery metadata\<close>

definition ProtectedResourceMetadata :: "config \<Rightarrow> 's http_handler" where
  "ProtectedResourceMetadata cfg c r s =
     (let resource = trim_right CHR ''/'' (sc_BaseURL (cf_Server cfg)) @ ''/'';
          authServers = (if oc_Enabled (cf_OIDC cfg) \<and> oc_Issuer (cf_OIDC cfg) \<noteq> [] then [VStr (oc_Issuer (cf_OIDC cfg))] else [])
      in (json_response 200 (VMap [(''resource'', VStr resource), (''authorization_servers'', VSlice authServers),
            (''bearer_methods_supported'', VSlice [VStr ''header'']), (''scopes_supported'', VSlice [])]), s))"

definition AuthorizationServerStub :: "config \<Rightarrow> 's http_handler" where
  "AuthorizationServerStub cfg c r s =
     (json_response 200 (VMap [(''issuer'', VStr (oc_Issuer (cf_OIDC cfg))),
        (''openid_configuration_url'', VStr (trim_right CHR ''/'' (oc_Issuer (cf_OIDC cfg)) @ ''/.well-known/openid-configuration'')),
        (''note'', VStr ''mcp-test delegates auth to the issuer above; fetch the openid_configuration_url for the real authorization server metadata'')]), s)"

definition ProtectedResourceMetadataURL :: "config \<Rightarrow> string" where
  "ProtectedResourceMetadataURL cfg = trim_right CHR ''/'' (sc_BaseURL (cf_Server cfg)) @ ''/.well-known/oauth-protected-resource''"

section \<open>The single-page app\<close>

text \<open>The files of the app: a path to its bytes; \<open>fileServer\<close> is \<open>http.FileServer\<close>.\<close>

definition isClientRoute :: "string \<Rightarrow> bool" where
  "isClientRoute path =
     (if has_prefix path ''assets/'' then False
      else let path = (case last_index CHR ''/'' path of None \<Rightarrow> path | Some i \<Rightarrow> drop (Suc i) path)
           in CHR ''.'' \<notin> set path)"

definition serveIndex :: "string \<Rightarrow> http_response" where
  "serveIndex bytes = set_headers [(''Content-Type'', ''text/html; charset=utf-8''), (''Cache-Control'', ''no-cache'')]
     (empty_response\<lparr>rs_Body := Raw bytes\<rparr>)"

definition trim_prefix :: "string \<Rightarrow> string \<Rightarrow> string" where
  "trim_prefix p s = (if has_prefix s p then drop (length p) s else s)"

definition SPAHandler :: "(string \<Rightarrow> string option) \<Rightarrow> 's http_handler \<Rightarrow> 's http_handler" where
  "SPAHandler spaFS fileServer c r s =
     (let indexBytes = (case spaFS ''index.html'' of None \<Rightarrow> [] | Some b \<Rightarrow> b);
          path = trim_prefix ''/'' (rq_Path r);
          path = (if path = [] then ''index.html'' else path)
      in if path = ''index.html'' then (serveIndex indexBytes, s)
         else if spaFS path \<noteq> None then fileServer c r s
         else if isClientRoute path then (serveIndex indexBytes, s)
         else (text_error ''404 page not found'' 404, s))"

section \<open>Who gets through\<close>

text \<open>The caller the portal recognises: the identity of a valid session cookie, otherwise what the
  chain makes of the token of the request.\<close>

definition portal_caller ::
  "hmac \<Rightarrow> session_json \<Rightarrow> (nat \<Rightarrow> gotime) \<Rightarrow> 'w portal_auth \<Rightarrow> ctx \<Rightarrow> http_request \<Rightarrow> 'w world \<Rightarrow> identity option" where
  "portal_caller hmac sj clock p c r w =
     (case Option.bind (pa_sessions p) (\<lambda>st. session_Read hmac sj (clock 0) st r) of
        Some i \<Rightarrow> Some i
      | None \<Rightarrow>
          if tokenFromRequest r = [] then None
          else Option.bind (pa_chain p) (\<lambda>ch.
            case fst (chain_Authenticate ch (\<lambda>n. clock (n + 1)) (WithToken c (tokenFromRequest r)) w) of
              Inr i \<Rightarrow> Some i | Inl _ \<Rightarrow> None))"

lemma PortalAuth_refuses:
  assumes "portal_caller hmac sj clock p c r (ps_world s) = None"
  shows "fst (PortalAuth hmac sj clock p handler c r s) = portal_unauthorized"
    and "ps_handler (snd (PortalAuth hmac sj clock p handler c r s)) = ps_handler s"
  using assms
  by (auto simp: PortalAuth_def portal_caller_def Let_def split: option.splits prod.splits sum.splits if_splits)

lemma PortalAuth_serves:
  assumes "portal_caller hmac sj clock p c r (ps_world s) = Some i"
  shows "\<exists>c'. GetIdentity c' = Some i \<and>
    fst (PortalAuth hmac sj clock p handler c r s) = fst (handler c' r (ps_handler s)) \<and>
    ps_handler (snd (PortalAuth hmac sj clock p handler c r s)) = snd (handler c' r (ps_handler s))"
proof (cases "Option.bind (pa_sessions p) (\<lambda>st. session_Read hmac sj (clock 0) st r)")
  case None
  with assms obtain ch where t: "tokenFromRequest r \<noteq> []" and ch: "pa_chain p = Some ch"
    and "(case fst (chain_Authenticate ch (\<lambda>n. clock (n + 1)) (WithToken c (tokenFromRequest r)) (ps_world s)) of
      Inr i \<Rightarrow> Some i | Inl _ \<Rightarrow> None) = Some i"
    by (cases "pa_chain p") (simp_all add: portal_caller_def split: if_splits)
  then obtain w where "chain_Authenticate ch (\<lambda>n. clock (n + 1)) (WithToken c (tokenFromRequest r)) (ps_world s) = (Inr i, w)"
    by (cases "chain_Authenticate ch (\<lambda>n. clock (n + 1)) (WithToken c (tokenFromRequest r)) (ps_world s)")
       (simp split: sum.splits)
  note ch = t ch this
  from None have "(case pa_sessions p of None \<Rightarrow> None | Some st \<Rightarrow> session_Read hmac sj (clock 0) st r) = None"
    by (cases "pa_sessions p") simp_all
  with ch show ?thesis
    by (intro exI [of _ "WithIdentity (WithToken c (tokenFromRequest r)) (Some i)"])
       (simp add: PortalAuth_def Let_def split: prod.splits)
next
  case (Some j)
  with assms show ?thesis
    by (intro exI [of _ "WithIdentity c (Some i)"])
       (auto simp: PortalAuth_def portal_caller_def Let_def bind_eq_Some_conv split: option.splits prod.splits)
qed

text \<open>The gate of the portal's mutating endpoints. Whatever handler is mounted behind the
  authentication and CSRF middlewares: a request with neither a valid session nor a token the chain
  accepts gets the 401 challenge and the handler is not run; an authenticated request with a mutating
  method but no \<open>X-Requested-With\<close> header gets 403 and the handler is not run; any other authenticated
  request gets exactly the handler's response, the handler is run once, and it sees the caller's
  identity on its context.\<close>

theorem portal_gate:
  "case PortalAuth hmac sj clock p (requireCSRFHeader handler) c r s of (resp, s') \<Rightarrow>
   case portal_caller hmac sj clock p c r (ps_world s) of
     None \<Rightarrow> resp = portal_unauthorized \<and> rs_Status resp = 401 \<and> ps_handler s' = ps_handler s
   | Some i \<Rightarrow>
       if rq_Method r \<in> {''POST'', ''PUT'', ''PATCH'', ''DELETE''} \<and> header_get (rq_Header r) ''X-Requested-With'' = []
       then rs_Status resp = 403 \<and> ps_handler s' = ps_handler s
       else \<exists>c'. GetIdentity c' = Some i \<and> (resp, ps_handler s') = handler c' r (ps_handler s)"
proof -
  obtain resp s' where run: "PortalAuth hmac sj clock p (requireCSRFHeader handler) c r s = (resp, s')"
    by (cases "PortalAuth hmac sj clock p (requireCSRFHeader handler) c r s")
  show ?thesis
  proof (cases "portal_caller hmac sj clock p c r (ps_world s)")
    case None
    from PortalAuth_refuses [OF None, of "requireCSRFHeader handler"] show ?thesis
      by (simp add: run None portal_unauthorized_def set_headers_def)
  next
    case (Some i)
    from PortalAuth_serves [OF Some, of "requireCSRFHeader handler"] obtain c' where
      c: "GetIdentity c' = Some i" "resp = fst (requireCSRFHeader handler c' r (ps_handler s))"
        "ps_handler s' = snd (requireCSRFHeader handler c' r (ps_handler s))"
      by (auto simp: run)
    show ?thesis
    proof (cases "rq_Method r \<in> {''POST'', ''PUT'', ''PATCH'', ''DELETE''} \<and> header_get (rq_Header r) ''X-Requested-With'' = []")
      case True
      then have "requireCSRFHeader handler c' r (ps_handler s) =
          (text_error ''missing X-Requested-With header'' 403, ps_handler s)"
        unfolding requireCSRFHeader_def by (rule if_P)
      with True c show ?thesis by (simp add: run Some text_error_def set_headers_def)
    next
      case False
      then have "requireCSRFHeader handler c' r (ps_handler s) = handler c' r (ps_handler s)"
        unfolding requireCSRFHeader_def by (rule if_not_P)
      with c have "(resp, ps_handler s') = handler c' r (ps_handler s)" by simp
      with c(1) show ?thesis unfolding run Some using False by auto
    qed
  qed
qed

end
