(* ===== verification/Http_RateLimit.thy ===== *)
theory Http_RateLimit
  imports Go_Base
begin

text \<open>
  \<open>pkg/httpsrv/ratelimit.go\<close>: the token bucket per identity that limits audit replays. Token
  counts are exact rationals where the code has \<open>float64\<close>; the clock reading is an argument. The
  lock makes each call one step. The shown bound is on the calls let through in any stretch of
  time; it needs the idle time after which a bucket is dropped to be at least the time a bucket
  takes to fill, which the code's constants satisfy.
\<close>

section \<open>The limiter\<close>

record token_bucket =
  tb_tokens :: rat
  tb_lastSeen :: gotime

record limiter =
  rl_burst :: int
  rl_refill :: duration
  rl_buckets :: "(string \<times> token_bucket) list"
  rl_maxIdle :: duration
  rl_lastSwep :: gotime

definition newIdentityRateLimiter :: "int \<Rightarrow> duration \<Rightarrow> limiter" where
  "newIdentityRateLimiter burst refill =
     \<lparr>rl_burst = burst, rl_refill = refill, rl_buckets = [], rl_maxIdle = 10 * minute, rl_lastSwep = 0\<rparr>"

definition gcLocked :: "gotime \<Rightarrow> limiter \<Rightarrow> limiter" where
  "gcLocked now l =
     (if time_sub now (rl_lastSwep l) < rl_maxIdle l then l
      else l\<lparr>rl_buckets := filter (\<lambda>(k, b). \<not> time_sub now (tb_lastSeen b) > rl_maxIdle l) (rl_buckets l),
             rl_lastSwep := now\<rparr>)"

definition bucket_refill :: "int \<Rightarrow> duration \<Rightarrow> gotime \<Rightarrow> token_bucket \<Rightarrow> token_bucket" where
  "bucket_refill burst refill now b =
     (let elapsed = time_sub now (tb_lastSeen b);
          tokens = (if elapsed > 0 \<and> refill > 0
                    then let t = tb_tokens b + of_int elapsed / of_int refill
                         in if t > of_int burst then of_int burst else t
                    else tb_tokens b)
      in \<lparr>tb_tokens = tokens, tb_lastSeen = now\<rparr>)"

definition bucket_of :: "gotime \<Rightarrow> string \<Rightarrow> limiter \<Rightarrow> token_bucket" where
  "bucket_of now key l = (case map_of (rl_buckets l) key of
     None \<Rightarrow> \<lparr>tb_tokens = of_int (rl_burst l), tb_lastSeen = now\<rparr> | Some b \<Rightarrow> b)"

definition Allow :: "gotime \<Rightarrow> string \<Rightarrow> limiter \<Rightarrow> bool \<times> limiter" where
  "Allow now key l =
     (if key = [] then (True, l)
      else let l = gcLocked now l;
               b = bucket_refill (rl_burst l) (rl_refill l) now (bucket_of now key l)
           in if tb_tokens b < 1 then (False, l\<lparr>rl_buckets := AList.update key b (rl_buckets l)\<rparr>)
              else (True, l\<lparr>rl_buckets := AList.update key (b\<lparr>tb_tokens := tb_tokens b - 1\<rparr>) (rl_buckets l)\<rparr>))"

text \<open>\<open>time.Duration\<close> of a float drops the fraction.\<close>

definition RetryAfter :: "string \<Rightarrow> limiter \<Rightarrow> duration" where
  "RetryAfter key l =
     (if key = [] then 0
      else case map_of (rl_buckets l) key of
        None \<Rightarrow> 0
      | Some b \<Rightarrow> if tb_tokens b \<ge> 1 then 0 else \<lfloor>(1 - tb_tokens b) * of_int (rl_refill l)\<rfloor>)"

section \<open>Histories\<close>

fun allow_history :: "(gotime \<times> string) list \<Rightarrow> limiter \<Rightarrow> bool list \<times> limiter" where
  "allow_history [] l = ([], l)"
| "allow_history ((now, key) # h) l =
     (let (a, l') = Allow now key l; (as, l'') = allow_history h l' in (a # as, l''))"

lemma allow_history_Cons:
  "allow_history (e # h) l =
     (fst (Allow (fst e) (snd e) l) # fst (allow_history h (snd (Allow (fst e) (snd e) l))),
      snd (allow_history h (snd (Allow (fst e) (snd e) l))))"
  by (cases e) (simp add: Let_def split_beta)

text \<open>How many calls of a history were let through for a key.\<close>

definition granted :: "string \<Rightarrow> (gotime \<times> string) list \<Rightarrow> bool list \<Rightarrow> nat" where
  "granted key h as = length (filter (\<lambda>((t, k), a). k = key \<and> a) (zip h as))"

lemma granted_Cons:
  "granted key ((t, k) # h) (a # as) = (if k = key \<and> a then 1 else 0) + granted key h as"
  by (simp add: granted_def)

section \<open>The invariant\<close>

definition limiter_ok :: "gotime \<Rightarrow> limiter \<Rightarrow> bool" where
  "limiter_ok now l \<longleftrightarrow> 1 \<le> rl_burst l \<and> 0 < rl_refill l \<and> rl_burst l * rl_refill l \<le> rl_maxIdle l \<and>
     rl_maxIdle l < max_int64 \<and> distinct (map fst (rl_buckets l)) \<and>
     (\<forall>(k, b) \<in> set (rl_buckets l). 0 \<le> tb_tokens b \<and> tb_tokens b \<le> of_int (rl_burst l) \<and> tb_lastSeen b \<le> now)"

text \<open>What a key could spend at time \<open>t\<close> at most: its tokens and what has accrued since.\<close>

definition credit :: "string \<Rightarrow> gotime \<Rightarrow> limiter \<Rightarrow> rat" where
  "credit key t l = (case map_of (rl_buckets l) key of
     None \<Rightarrow> of_int (rl_burst l)
   | Some b \<Rightarrow> min (of_int (rl_burst l)) (tb_tokens b + of_int (t - tb_lastSeen b) / of_int (rl_refill l)))"

lemma bucket_refill_tokens:
  assumes "0 \<le> tb_tokens b" "tb_tokens b \<le> of_int burst" "tb_lastSeen b \<le> now" "0 < refill" "burst * refill \<le> max_int64"
  shows "tb_tokens (bucket_refill burst refill now b) =
    min (of_int burst) (tb_tokens b + of_int (now - tb_lastSeen b) / of_int refill)"
proof (cases "now - tb_lastSeen b \<le> max_int64")
  case True
  then have "time_sub now (tb_lastSeen b) = now - tb_lastSeen b" using assms(3) by (intro time_sub_exact) auto
  then show ?thesis using assms by (auto simp: bucket_refill_def Let_def min_def)
next
  case False
  then have t: "time_sub now (tb_lastSeen b) = max_int64" by (simp add: time_sub_def)
  have "(of_int (burst * refill) :: rat) \<le> of_int max_int64" using assms(5) by (simp only: of_int_le_iff)
  then have m: "(of_int burst :: rat) \<le> of_int max_int64 / of_int refill"
    using assms(4) by (simp add: field_simps)
  moreover have "(of_int max_int64 :: rat) / of_int refill \<le> of_int (now - tb_lastSeen b) / of_int refill"
    using False assms(4) by (intro divide_right_mono) (linarith, simp)
  ultimately have "tb_tokens b + of_int (now - tb_lastSeen b) / of_int refill \<ge> of_int burst" using assms(1) by linarith
  then show ?thesis using assms(1,4) m by (auto simp: bucket_refill_def Let_def t min_def)
qed

lemma limiter_okD:
  assumes "limiter_ok now l" and "map_of (rl_buckets l) k = Some b"
  shows "0 \<le> tb_tokens b" "tb_tokens b \<le> of_int (rl_burst l)" "tb_lastSeen b \<le> now"
  using assms by (auto simp: limiter_ok_def dest!: map_of_SomeD)

lemma limiter_ok_params:
  assumes "limiter_ok now l"
  shows "1 \<le> rl_burst l" "0 < rl_refill l" "rl_burst l * rl_refill l \<le> rl_maxIdle l" "rl_maxIdle l < max_int64"
    "distinct (map fst (rl_buckets l))"
  using assms by (auto simp: limiter_ok_def)

text \<open>Dropping an idle bucket gives its key nothing: the bucket would be full.\<close>

lemma idle_full:
  assumes "limiter_ok now0 l" and "map_of (rl_buckets l) k = Some b" and "now0 \<le> now"
    and "time_sub now (tb_lastSeen b) > rl_maxIdle l" and "now \<le> t"
  shows "of_int (rl_burst l) \<le> tb_tokens b + of_int (t - tb_lastSeen b) / of_int (rl_refill l)"
proof -
  note p = limiter_ok_params [OF assms(1)] and d = limiter_okD [OF assms(1,2)]
  have "rl_maxIdle l < now - tb_lastSeen b"
    using assms(4) p time_sub_greater [of "rl_maxIdle l" now "tb_lastSeen b"] by (simp add: mult_nonneg_nonneg)
       (smt (verit) mult_nonneg_nonneg)
  then have "rl_burst l * rl_refill l \<le> t - tb_lastSeen b" using p(3) assms(5) by linarith
  then have "(of_int (rl_burst l * rl_refill l) :: rat) \<le> of_int (t - tb_lastSeen b)" by (simp only: of_int_le_iff)
  then have "(of_int (rl_burst l) :: rat) \<le> of_int (t - tb_lastSeen b) / of_int (rl_refill l)"
    using p(2) by (simp add: field_simps)
  then show ?thesis using d(1) by linarith
qed

lemma gc_params [simp]:
  "rl_burst (gcLocked now l) = rl_burst l" "rl_refill (gcLocked now l) = rl_refill l" "rl_maxIdle (gcLocked now l) = rl_maxIdle l"
  by (simp_all add: gcLocked_def)

lemma gc_ok: "limiter_ok now0 l \<Longrightarrow> now0 \<le> now \<Longrightarrow> limiter_ok now (gcLocked now l)"
  by (auto simp: limiter_ok_def gcLocked_def distinct_map_filter split: prod.splits)

lemma map_of_filter_distinct:
  "distinct (map fst m) \<Longrightarrow> map_of (filter P m) k = (case map_of m k of None \<Rightarrow> None | Some v \<Rightarrow> if P (k, v) then Some v else None)"
  by (induction m) (auto simp: map_of_eq_None_iff image_iff split: option.splits dest: map_of_SomeD)

lemma credit_gc:
  assumes "limiter_ok now0 l" and "now0 \<le> now" and "now \<le> t"
  shows "credit k t (gcLocked now l) = credit k t l"
proof (cases "time_sub now (rl_lastSwep l) < rl_maxIdle l")
  case True
  then show ?thesis by (simp add: gcLocked_def)
next
  case False
  then show ?thesis
    using idle_full [OF assms(1) _ assms(2) _ assms(3), of k] limiter_ok_params(5) [OF assms(1)]
    by (auto simp: gcLocked_def credit_def map_of_filter_distinct min_def split: option.splits)
qed

section \<open>Calls spend credit\<close>

lemma bucket_credit:
  assumes "limiter_ok now0 l" and "now0 \<le> now"
  shows "tb_tokens (bucket_refill (rl_burst l) (rl_refill l) now (bucket_of now k l)) = credit k now l"
proof -
  note p = limiter_ok_params [OF assms(1)]
  have "rl_burst l * rl_refill l \<le> max_int64" using p by linarith
  then show ?thesis
    using p(1,2) limiter_okD [OF assms(1), of k] assms(2)
      bucket_refill_tokens [of "bucket_of now k l" "rl_burst l" now "rl_refill l"]
    by (auto simp: bucket_of_def credit_def split: option.splits)
qed

lemma refill_lastSeen [simp]: "tb_lastSeen (bucket_refill burst refill now b) = now"
  by (simp add: bucket_refill_def Let_def)

lemma credit_bounds:
  assumes "limiter_ok now0 l" and "now0 \<le> now"
  shows "0 \<le> credit k now l" and "credit k now l \<le> of_int (rl_burst l)"
proof -
  note p = limiter_ok_params [OF assms(1)]
  have "0 \<le> tb_tokens b + of_int (now - tb_lastSeen b) / of_int (rl_refill l)" if "map_of (rl_buckets l) k = Some b" for b
    using limiter_okD [OF assms(1) that] assms(2) p(2) by (intro add_nonneg_nonneg divide_nonneg_pos) simp_all
  then show "0 \<le> credit k now l" and "credit k now l \<le> of_int (rl_burst l)"
    using p(1) by (auto simp: credit_def split: option.splits)
qed

lemma credit_update:
  "credit k t (l\<lparr>rl_buckets := AList.update key b (rl_buckets l)\<rparr>) =
     (if k = key then min (of_int (rl_burst l)) (tb_tokens b + of_int (t - tb_lastSeen b) / of_int (rl_refill l))
      else credit k t l)"
  by (auto simp: credit_def update_conv' split: option.splits)

lemma credit_grows:
  assumes "limiter_ok now0 l" and "t \<le> t'"
  shows "credit k t' l \<le> credit k t l + of_int (t' - t) / of_int (rl_refill l)"
proof -
  note p = limiter_ok_params [OF assms(1)]
  let ?d = "(of_int (t' - t) :: rat) / of_int (rl_refill l)"
  have d: "0 \<le> ?d" using p(2) assms(2) by simp
  have "min B (a + ?d) \<le> min B a + ?d" for a B using d by (simp add: min_def)
  moreover have "a + of_int (t' - s) / of_int (rl_refill l) = (a + of_int (t - s) / of_int (rl_refill l)) + ?d" for a s
    by (simp add: diff_divide_distrib)
  ultimately have "min B (a + of_int (t' - s) / of_int (rl_refill l)) \<le> min B (a + of_int (t - s) / of_int (rl_refill l)) + ?d" for a s B
    by metis
  then show ?thesis using d unfolding credit_def by (cases "map_of (rl_buckets l) k") simp_all
qed

lemma Allow_params [simp]:
  "rl_burst (snd (Allow now key l)) = rl_burst l" "rl_refill (snd (Allow now key l)) = rl_refill l"
  by (simp_all add: Allow_def Let_def)

lemma update_bucket_ok:
  assumes "limiter_ok now l" and "0 \<le> tb_tokens b" and "tb_tokens b \<le> of_int (rl_burst l)" and "tb_lastSeen b \<le> now"
  shows "limiter_ok now (l\<lparr>rl_buckets := AList.update key b (rl_buckets l)\<rparr>)"
proof -
  have "set (AList.update key b m) \<subseteq> insert (key, b) (set m)" for m :: "(string \<times> token_bucket) list"
    by (induction m) auto
  then show ?thesis using assms by (fastforce simp: limiter_ok_def distinct_update)
qed

lemma Allow_step:
  assumes ok: "limiter_ok now0 l" "now0 \<le> now" and ne: "key \<noteq> []"
  shows "fst (Allow now key l) \<longleftrightarrow> 1 \<le> credit key now l"
    and "limiter_ok now (snd (Allow now key l))"
    and "now \<le> t \<Longrightarrow> credit k t (snd (Allow now key l)) =
      (if k = key then min (of_int (rl_burst l)) (credit key now l - (if fst (Allow now key l) then 1 else 0) + of_int (t - now) / of_int (rl_refill l))
       else credit k t l)"
proof -
  let ?g = "gcLocked now l" and ?b = "bucket_refill (rl_burst l) (rl_refill l) now (bucket_of now key (gcLocked now l))"
  have g: "limiter_ok now ?g" using ok by (rule gc_ok)
  have b: "tb_tokens ?b = credit key now l"
    using bucket_credit [OF g order_refl, of key] credit_gc [OF ok order_refl, of key] by simp
  show a: "fst (Allow now key l) \<longleftrightarrow> 1 \<le> credit key now l"
    using ne by (auto simp: Allow_def Let_def b)
  have c: "0 \<le> credit key now l" "credit key now l \<le> of_int (rl_burst l)" using credit_bounds [OF ok] by auto
  show "limiter_ok now (snd (Allow now key l))"
    using ne c update_bucket_ok [OF g, of ?b key] update_bucket_ok [OF g, of "?b\<lparr>tb_tokens := tb_tokens ?b - 1\<rparr>" key]
    by (auto simp: Allow_def Let_def b)
  assume "now \<le> t"
  then have "credit k t ?g = credit k t l" using credit_gc [OF ok] by simp
  then show "credit k t (snd (Allow now key l)) =
      (if k = key then min (of_int (rl_burst l)) (credit key now l - (if fst (Allow now key l) then 1 else 0) + of_int (t - now) / of_int (rl_refill l))
       else credit k t l)"
    using ne by (auto simp: Allow_def Let_def b credit_update)
qed

section \<open>The bound\<close>

lemma granted_credit:
  assumes "limiter_ok t0 l" and "sorted (t0 # map fst h)" and "\<forall>(t, k) \<in> set h. k \<noteq> [] \<and> t \<le> T" and "t0 \<le> T"
  shows "of_nat (granted key h (fst (allow_history h l))) \<le> credit key t0 l + of_int (T - t0) / of_int (rl_refill l)"
  using assms
proof (induction h arbitrary: t0 l)
  case Nil
  then show ?case
    using credit_bounds(1) [OF Nil(1) order_refl, of key] limiter_ok_params(2) [OF Nil(1)] by (simp add: granted_def)
next
  case (Cons e h)
  obtain t k where e: "e = (t, k)" by (cases e)
  let ?l = "snd (Allow t k l)"
  have t: "t0 \<le> t" "t \<le> T" "k \<noteq> []" using Cons.prems by (auto simp: e)
  note s = Allow_step [OF Cons.prems(1) t(1,3)]
  have "of_nat (granted key h (fst (allow_history h ?l))) \<le> credit key t ?l + of_int (T - t) / of_int (rl_refill ?l)"
    using Cons.prems s(2) t by (intro Cons.IH) (auto simp: e)
  moreover have "credit key t ?l \<le> credit key t l - (if key = k \<and> fst (Allow t k l) then 1 else 0)"
    using s(3) [of t key] by auto
  moreover have "credit key t l \<le> credit key t0 l + of_int (t - t0) / of_int (rl_refill l)"
    by (rule credit_grows [OF Cons.prems(1) t(1)])
  moreover have "(of_int (T - t0) :: rat) / of_int (rl_refill l) =
      of_int (t - t0) / of_int (rl_refill l) + of_int (T - t) / of_int (rl_refill l)"
    by (simp add: diff_divide_distrib)
  ultimately show ?case
    by (auto simp: e Let_def granted_Cons split: prod.splits if_splits)
qed

lemma new_limiter_ok:
  "1 \<le> burst \<Longrightarrow> 0 < refill \<Longrightarrow> burst * refill \<le> 10 * minute \<Longrightarrow> limiter_ok t (newIdentityRateLimiter burst refill)"
  by (simp add: limiter_ok_def newIdentityRateLimiter_def)

lemma limiter_ok_later: "limiter_ok t l \<Longrightarrow> t \<le> t' \<Longrightarrow> limiter_ok t' l"
  by (fastforce simp: limiter_ok_def)

lemma history_params [simp]:
  "rl_burst (snd (allow_history h l)) = rl_burst l" "rl_refill (snd (allow_history h l)) = rl_refill l"
  by (induction h arbitrary: l) (auto simp: allow_history_Cons)

lemma history_ok:
  assumes "limiter_ok t0 l" and "sorted (t0 # map fst h)" and "\<forall>(t, k) \<in> set h. k \<noteq> [] \<and> t \<le> T" and "t0 \<le> T"
  shows "limiter_ok T (snd (allow_history h l))"
  using assms
proof (induction h arbitrary: t0 l)
  case Nil
  then show ?case by (auto intro: limiter_ok_later)
next
  case (Cons e h)
  obtain t k where e: "e = (t, k)" by (cases e)
  have "limiter_ok t (snd (Allow t k l))" using Cons.prems by (intro Allow_step(2)) (auto simp: e)
  then have "limiter_ok T (snd (allow_history h (snd (Allow t k l))))"
    using Cons.prems by (intro Cons.IH [of t]) (auto simp: e)
  then show ?case by (simp add: e allow_history_Cons)
qed

text \<open>A refused caller that waits longer than \<open>RetryAfter\<close> says is served.\<close>

lemma retry_enough:
  assumes "limiter_ok now0 l" and "now0 \<le> now" and "key \<noteq> []" and "\<not> fst (Allow now key l)"
    and "now + RetryAfter key (snd (Allow now key l)) < t"
  shows "fst (Allow t key (snd (Allow now key l)))"
proof -
  let ?l = "snd (Allow now key l)"
  note s = Allow_step [OF assms(1-3)] and p = limiter_ok_params [OF assms(1)]
  have c: "credit key now l < 1" "0 \<le> credit key now l" using s(1) assms(4) credit_bounds(1) [OF assms(1,2)] by auto
  have tb: "tb_tokens (bucket_refill (rl_burst l) (rl_refill l) now (bucket_of now key (gcLocked now l))) = credit key now l"
    using bucket_credit [OF gc_ok [OF assms(1,2)] order_refl, of key] credit_gc [OF assms(1,2) order_refl, of key] by simp
  then have "\<exists>b. map_of (rl_buckets ?l) key = Some b \<and> tb_tokens b = credit key now l"
    using c(1) assms(3) by (auto simp: Allow_def Let_def update_conv')
  then have r: "RetryAfter key ?l = \<lfloor>(1 - credit key now l) * of_int (rl_refill l)\<rfloor>"
    using c(1) assms(3) by (auto simp: RetryAfter_def)
  have "(1 - credit key now l) * of_int (rl_refill l) < of_int (t - now)"
    using assms(5) unfolding r by linarith
  then have "1 - credit key now l \<le> of_int (t - now) / of_int (rl_refill l)"
    using p(2) by (simp add: field_simps)
  moreover have nt: "now \<le> t"
  proof -
    have "0 \<le> RetryAfter key ?l" unfolding r using c(1) p(2) by (simp add: mult_nonneg_nonneg)
    then show ?thesis using assms(5) by linarith
  qed
  ultimately have "1 \<le> credit key t ?l" using s(3) [OF nt, of key] assms(4) p(1) by (auto simp: min_def)
  then show ?thesis using Allow_step(1) [OF s(2) nt assms(3)] by simp
qed

text \<open>Replays are rate limited. For a limiter whose buckets fill within the ten minutes after
  which idle ones are dropped (the portal's: five tokens, one every twelve seconds), and any calls by
  any callers before: in any further stretch of calls, the number of calls let through for one
  identity is at most the burst plus one per refill time of the stretch, whatever other identities
  do and whenever idle buckets are collected; and a refused caller that waits longer than the
  announced time is let through.\<close>

theorem replay_rate_limited:
  assumes "1 \<le> burst" and "0 < refill" and "burst * refill \<le> 10 * minute"
    and "sorted (map fst (pre @ h))" and "\<forall>(t, k) \<in> set (pre @ h). k \<noteq> []"
    and "\<forall>(t, k) \<in> set pre. t \<le> t1" and "\<forall>(t, k) \<in> set h. t1 \<le> t \<and> t \<le> T" and "t1 \<le> T"
    and "l1 = snd (allow_history pre (newIdentityRateLimiter burst refill))" and "l2 = snd (allow_history h l1)"
  shows "of_nat (granted key h (fst (allow_history h l1))) \<le> (of_int burst + of_int (T - t1) / of_int refill :: rat) \<and>
    (key \<noteq> [] \<and> T \<le> now \<and> \<not> fst (Allow now key l2) \<and> now + RetryAfter key (snd (Allow now key l2)) < t \<longrightarrow>
     fst (Allow t key (snd (Allow now key l2))))"
proof -
  let ?l0 = "newIdentityRateLimiter burst refill"
  let ?t0 = "if pre = [] then t1 else fst (hd pre)"
  have "sorted (?t0 # map fst pre)" using assms(4) by (cases pre) (auto simp: sorted_append)
  moreover have "?t0 \<le> t1" using assms(6) by (cases pre) auto
  ultimately have ok1: "limiter_ok t1 l1"
    using new_limiter_ok [OF assms(1-3)] assms(5,6) unfolding assms(9) by (intro history_ok [of ?t0]) auto
  have h: "sorted (t1 # map fst h)" using assms(4,7) by (auto simp: sorted_append)
  have p: "rl_refill l1 = refill" "rl_burst l1 = burst" by (simp_all add: assms(9) newIdentityRateLimiter_def)
  have "of_nat (granted key h (fst (allow_history h l1))) \<le> credit key t1 l1 + of_int (T - t1) / of_int refill"
    using granted_credit [OF ok1 h _ assms(8), of key] assms(5,7) by (auto simp: p)
  moreover have "credit key t1 l1 \<le> of_int burst" using credit_bounds(2) [OF ok1 order_refl, of key] by (simp add: p)
  moreover have ok2: "limiter_ok T l2"
    using assms(5,7) unfolding assms(10) by (intro history_ok [OF ok1 h _ assms(8)]) auto
  ultimately show ?thesis using retry_enough [OF ok2, of now key t] by auto
qed

theorem replay_rate_limited_witness:
  "of_nat (granted ''u'' (replicate 9 (0, ''u'')) (fst (allow_history (replicate 9 (0, ''u'')) (newIdentityRateLimiter 5 (12 * second))))) \<le> (5 :: rat)"
  using replay_rate_limited [of 5 "12 * second" "[]" "replicate 9 (0, ''u'')" 0 0 "newIdentityRateLimiter 5 (12 * second)"
      "snd (allow_history (replicate 9 (0, ''u'')) (newIdentityRateLimiter 5 (12 * second)))" "''u''"]
  by (simp add: sorted_replicate)

section \<open>Refinement of ideal buckets\<close>

text \<open>The ideal limiter has a bucket for every key from the start, drops none, and says for every
  later time how many tokens a key has.\<close>

type_synonym levels = "string \<Rightarrow> gotime \<Rightarrow> rat"

definition ideal_allow :: "int \<Rightarrow> duration \<Rightarrow> gotime \<Rightarrow> string \<Rightarrow> levels \<Rightarrow> bool \<times> levels" where
  "ideal_allow burst refill now key lv =
     (let ok = (1 \<le> lv key now)
      in (ok, \<lambda>k t. if k = key then min (of_int burst) (lv key now - (if ok then 1 else 0) + of_int (t - now) / of_int refill)
                    else lv k t))"

fun ideal_history :: "int \<Rightarrow> duration \<Rightarrow> (gotime \<times> string) list \<Rightarrow> levels \<Rightarrow> bool list" where
  "ideal_history burst refill [] lv = []"
| "ideal_history burst refill ((now, key) # h) lv =
     (let (a, lv') = ideal_allow burst refill now key lv in a # ideal_history burst refill h lv')"

text \<open>The simulation: from now on both agree on what every key can spend.\<close>

definition simulates :: "gotime \<Rightarrow> limiter \<Rightarrow> levels \<Rightarrow> bool" where
  "simulates now l lv \<longleftrightarrow> limiter_ok now l \<and> (\<forall>k t. now \<le> t \<longrightarrow> credit k t l = lv k t)"

lemma simulates_step:
  assumes "simulates now0 l lv" and "now0 \<le> now" and "key \<noteq> []"
  shows "fst (Allow now key l) = fst (ideal_allow (rl_burst l) (rl_refill l) now key lv)"
    and "simulates now (snd (Allow now key l)) (snd (ideal_allow (rl_burst l) (rl_refill l) now key lv))"
proof -
  have ok: "limiter_ok now0 l" and eq: "credit k t l = lv k t" if "now0 \<le> t" for k t
    using assms(1) that by (auto simp: simulates_def)
  note s = Allow_step [OF ok [OF order_refl] assms(2,3)]
  show a: "fst (Allow now key l) = fst (ideal_allow (rl_burst l) (rl_refill l) now key lv)"
    by (simp add: s(1) ideal_allow_def eq [OF assms(2)] Let_def)
  show "simulates now (snd (Allow now key l)) (snd (ideal_allow (rl_burst l) (rl_refill l) now key lv))"
    unfolding simulates_def
    using s(2) s(3) eq assms(2) a by (auto simp: ideal_allow_def Let_def)
qed

lemma simulates_history:
  assumes "simulates now0 l lv" and "sorted (now0 # map fst h)" and "list_all (\<lambda>(t, k). k \<noteq> []) h"
  shows "fst (allow_history h l) = ideal_history (rl_burst l) (rl_refill l) h lv"
  using assms
proof (induction h arbitrary: now0 l lv)
  case (Cons e h)
  obtain t k where e: "e = (t, k)" by (cases e)
  have t: "now0 \<le> t" "k \<noteq> []" using Cons.prems by (auto simp: e)
  note s = simulates_step [OF Cons.prems(1) t]
  have "fst (allow_history h (snd (Allow t k l))) =
      ideal_history (rl_burst l) (rl_refill l) h (snd (ideal_allow (rl_burst l) (rl_refill l) t k lv))"
    using Cons.IH [OF s(2)] Cons.prems by (auto simp: e)
  then show ?case by (simp add: e allow_history_Cons s(1) Let_def split_beta)
qed simp



end
