(* ===== verification/Mcp_Audit.thy ===== *)
theory Mcp_Audit
  imports Auth_Chain Audit_Postgres
begin

text \<open>
  \<open>pkg/mcpmw\<close>: the receiving middleware that audits every tool call and the sending one that
  records notifications. \<open>encoding/json\<close> is the \<open>codec\<close> of the audit store; SDK requests,
  results and content blocks are the data the code reads of them. A handler (\<open>next\<close>) is a
  function on the context, the recorder it can reach, the method and request and a state of its
  own; besides its result it returns what it sent to the client meanwhile, in the order in which
  the recorder's lock was taken. \<open>clock n\<close> is the n-th reading of the wall clock in one call, \<open>uid\<close>
  the fresh request id.
\<close>

section \<open>Requests and results of the SDK\<close>

datatype call_params =
    CallToolParams string goval
  | CallToolParamsRaw string string
  | OtherParams

text \<open>\<open>mq_header\<close> is nil for in-memory connections; a session that is absent or panics is \<open>None\<close>.\<close>

record mcp_request =
  mq_header :: "header option"
  mq_params :: call_params
  mq_session :: "string option"

datatype content =
    TextContent string
  | ImageContent string string
  | AudioContent string string
  | OtherContent goval

record call_tool_result =
  cr_Content :: "content list"
  cr_IsError :: bool
  cr_StructuredContent :: goval

datatype mcp_result = NilResult | CallResult "call_tool_result option" | OtherResult

section \<open>Options\<close>

record audit_options =
  ao_capturePayloads :: bool
  ao_captureHeaders :: bool
  ao_maxPayloadBytes :: int
  ao_maxNotifications :: int

definition defaultAuditOptions :: audit_options where
  "defaultAuditOptions = \<lparr>ao_capturePayloads = False, ao_captureHeaders = False,
     ao_maxPayloadBytes = 65536, ao_maxNotifications = 100\<rparr>"

definition WithPayloadCapture :: "int \<Rightarrow> audit_options \<Rightarrow> audit_options" where
  "WithPayloadCapture maxBytes o' =
     (let o' = o'\<lparr>ao_capturePayloads := True\<rparr>
      in if maxBytes > 0 then o'\<lparr>ao_maxPayloadBytes := maxBytes\<rparr> else o')"

definition WithHeaderCapture :: "audit_options \<Rightarrow> audit_options" where
  "WithHeaderCapture o' = o'\<lparr>ao_captureHeaders := True\<rparr>"

definition WithMaxNotifications :: "int \<Rightarrow> audit_options \<Rightarrow> audit_options" where
  "WithMaxNotifications n o' = (if n > 0 then o'\<lparr>ao_maxNotifications := n\<rparr> else o')"

section \<open>The notification recorder\<close>

record recorder =
  rc_items :: "notification list"
  rc_max :: int
  rc_redactKeys :: "string list"

definition newNotificationRecorder :: "int \<Rightarrow> string list \<Rightarrow> recorder" where
  "newNotificationRecorder mx redactKeys = \<lparr>rc_items = [], rc_max = mx, rc_redactKeys = redactKeys\<rparr>"

definition unmarshal_map :: "codec \<Rightarrow> string \<Rightarrow> gomap result" where
  "unmarshal_map cd b = (case cd_unmarshal cd b of
     Some (VMap m) \<Rightarrow> Inr (Some m)
   | Some VNil \<Rightarrow> Inr None
   | _ \<Rightarrow> Inl (ErrMsg ''json''))"

definition paramsToMap :: "codec \<Rightarrow> goval \<Rightarrow> gomap" where
  "paramsToMap cd params =
     (if params = VNil then None
      else case cd_marshal cd params of
        None \<Rightarrow> Some [(''_marshal_error'', VStr ''json'')]
      | Some b \<Rightarrow> (case unmarshal_map cd b of
            Inl e \<Rightarrow> Some [(''_unmarshal_error'', VStr (err_text e)), (''_raw'', VStr b)]
          | Inr m \<Rightarrow> m))"

text \<open>\<open>Append\<close> takes the lock twice; other appends may run in between, so that the second test is
  made on a later recorder. \<open>recorder_full\<close> and \<open>recorder_commit\<close> are the two locked parts.\<close>

definition recorder_full :: "recorder \<Rightarrow> bool" where
  "recorder_full r \<longleftrightarrow> rc_max r > 0 \<and> int (length (rc_items r)) \<ge> rc_max r"

definition recorder_commit :: "notification \<Rightarrow> recorder \<Rightarrow> recorder" where
  "recorder_commit note r = (if recorder_full r then r else r\<lparr>rc_items := rc_items r @ [note]\<rparr>)"

definition recorder_note :: "codec \<Rightarrow> gotime \<Rightarrow> string \<Rightarrow> goval \<Rightarrow> recorder \<Rightarrow> notification" where
  "recorder_note cd now method params r =
     \<lparr>nt_Timestamp = now, nt_Method = method,
      nt_Params = SanitizeParameters (box_map (paramsToMap cd params)) (rc_redactKeys r)\<rparr>"

definition recorder_Append :: "codec \<Rightarrow> gotime \<Rightarrow> string \<Rightarrow> goval \<Rightarrow> recorder \<Rightarrow> recorder" where
  "recorder_Append cd now method params r =
     (if recorder_full r then r else recorder_commit (recorder_note cd now method params r) r)"

definition recorder_Snapshot :: "recorder option \<Rightarrow> notification list" where
  "recorder_Snapshot r = (case r of None \<Rightarrow> [] | Some r \<Rightarrow> rc_items r)"

definition isNotification :: "string \<Rightarrow> bool" where
  "isNotification method \<longleftrightarrow> has_prefix method ''notifications/''"

text \<open>A message sent by the server: when, which method, with which parameters. \<open>Notifications\<close> is
  the effect of the sending middleware on the recorder of the call.\<close>

type_synonym sent = "gotime \<times> string \<times> goval"

definition Notifications :: "codec \<Rightarrow> sent \<Rightarrow> recorder option \<Rightarrow> recorder option" where
  "Notifications cd s r = (case s of (now, method, params) \<Rightarrow>
     if isNotification method
     then (case r of None \<Rightarrow> None | Some r \<Rightarrow> Some (recorder_Append cd now method params r))
     else r)"

section \<open>Reading the request\<close>

definition tokenFromHeader :: "header \<Rightarrow> string" where
  "tokenFromHeader h =
     (let k = header_get h ''X-API-Key''
      in if k \<noteq> [] then k
         else let a = header_get h ''Authorization''
              in if a = [] then []
                 else if has_prefix (to_lower a) ''bearer '' then trim_space (drop 7 a)
                 else [])"

definition firstAddr :: "string \<Rightarrow> string" where
  "firstAddr xff = trim_space (takeWhile (\<lambda>c. c \<noteq> CHR '','') xff)"

definition enrichContext :: "string \<Rightarrow> ctx \<Rightarrow> mcp_request \<Rightarrow> ctx" where
  "enrichContext uid c req =
     (let c = WithRequestID c uid
      in case mq_header req of
           None \<Rightarrow> c
         | Some h \<Rightarrow>
             (let c = WithHeaders c (Some h);
                  tok = tokenFromHeader h;
                  c = (if tok \<noteq> [] then WithToken c tok else c);
                  ra = header_get h ''X-Forwarded-For''
              in if ra \<noteq> [] then WithRemoteAddr c (firstAddr ra) else c))"

definition sessionID :: "mcp_request \<Rightarrow> string" where
  "sessionID req = or_empty (mq_session req)"

definition userAgent :: "mcp_request \<Rightarrow> string" where
  "userAgent req = (case mq_header req of None \<Rightarrow> [] | Some h \<Rightarrow> header_get h ''User-Agent'')"

definition jsonUnmarshal :: "codec \<Rightarrow> string \<Rightarrow> gomap result" where
  "jsonUnmarshal cd data = (if data = [] then Inl (ErrMsg ''empty'') else unmarshal_map cd data)"

definition extractCallParams :: "codec \<Rightarrow> mcp_request \<Rightarrow> string \<times> gomap" where
  "extractCallParams cd req = (case mq_params req of
     CallToolParams name args \<Rightarrow> (name, case args of VMap m \<Rightarrow> Some m | _ \<Rightarrow> None)
   | CallToolParamsRaw name raw \<Rightarrow> (name, case jsonUnmarshal cd raw of Inr m \<Rightarrow> m | Inl _ \<Rightarrow> None)
   | OtherParams \<Rightarrow> ([], None))"

definition errString :: "goerr option \<Rightarrow> string" where
  "errString err = (case err of None \<Rightarrow> [] | Some e \<Rightarrow> err_text e)"

definition measureResult :: "call_tool_result \<Rightarrow> int \<times> int" where
  "measureResult cr =
     (fold (\<lambda>c chars. case c of TextContent t \<Rightarrow> chars + int (length t) | _ \<Rightarrow> chars) (cr_Content cr) 0,
      int (length (cr_Content cr)))"

section \<open>Building the payload\<close>

text \<open>A content of the SDK encodes as an object. (Decoding \<open>null\<close> would leave a nil map, on which the
  code's assignment panics; it is taken as the empty map here.) The text of an encoding error is left
  abstract.\<close>

definition contentToGenericMap :: "codec \<Rightarrow> goval \<Rightarrow> (string \<times> goval) list" where
  "contentToGenericMap cd c = (case cd_marshal cd c of
     None \<Rightarrow> [(''type'', VStr ''_marshal_error''), (''marshal_error'', VStr ''json'')]
   | Some b \<Rightarrow>
       (case unmarshal_map cd b of
          Inl e \<Rightarrow> [(''type'', VStr ''_unmarshal_error''), (''unmarshal_error'', VStr (err_text e)), (''raw'', VStr b)]
        | Inr m \<Rightarrow>
            (let m = (case m of None \<Rightarrow> [] | Some m \<Rightarrow> m)
             in if map_of m ''type'' = None then AList.update ''type'' (VStr ''_no_type'') m else m)))"

definition content_block :: "codec \<Rightarrow> content \<Rightarrow> goval" where
  "content_block cd c = VMap (case c of
     TextContent t \<Rightarrow> [(''type'', VStr ''text''), (''text'', VStr t)]
   | ImageContent mime d \<Rightarrow> [(''type'', VStr ''image''), (''mimeType'', VStr mime), (''data'', VBytes d)]
   | AudioContent mime d \<Rightarrow> [(''type'', VStr ''audio''), (''mimeType'', VStr mime), (''data'', VBytes d)]
   | OtherContent v \<Rightarrow> contentToGenericMap cd v)"

definition callToolResultToMap :: "codec \<Rightarrow> call_tool_result \<Rightarrow> (string \<times> goval) list" where
  "callToolResultToMap cd cr =
     [(''isError'', VBool (cr_IsError cr)), (''content'', VSlice (map (content_block cd) (cr_Content cr)))] @
     (if cr_StructuredContent cr \<noteq> VNil then [(''structuredContent'', cr_StructuredContent cr)] else [])"

text \<open>\<open>jsonSizeWithin\<close> sees an interface: a nil map in it is not nil and encodes as \<open>null\<close>.\<close>

definition jsonSizeWithin :: "codec \<Rightarrow> goval \<Rightarrow> int \<Rightarrow> int \<times> bool" where
  "jsonSizeWithin cd v mx =
     (if v = VNil then (0, True)
      else case cd_marshal cd v of
        None \<Rightarrow> (0, False)
      | Some b \<Rightarrow>
          (let size = int (length b)
           in if mx \<le> 0 then (size, True) else (size, size \<le> mx)))"

text \<open>The loop of \<open>fitNotifications\<close>: \<open>i\<close> entries are kept so far and take \<open>running\<close> bytes.\<close>

fun fit_from :: "codec \<Rightarrow> int \<Rightarrow> int \<Rightarrow> nat \<Rightarrow> notification list \<Rightarrow> nat option" where
  "fit_from cd mx running i [] = None"
| "fit_from cd mx running i (n # ns) =
     (case cd_marshal cd (notification_val cd n) of
        None \<Rightarrow> Some i
      | Some b \<Rightarrow>
          (let running = running + (if i > 0 then 1 else 0) + int (length b)
           in if running > mx then Some i else fit_from cd mx running (Suc i) ns))"

definition fitNotifications :: "codec \<Rightarrow> notification list \<Rightarrow> int \<Rightarrow> notification list \<times> bool" where
  "fitNotifications cd ns mx =
     (if ns = [] \<or> mx \<le> 0 then (ns, False)
      else case fit_from cd mx 2 0 ns of None \<Rightarrow> (ns, False) | Some i \<Rightarrow> (take i ns, True))"

definition error_payload :: "goerr option \<Rightarrow> string \<Rightarrow> gomap" where
  "error_payload callErr errCategory = (case callErr of
     None \<Rightarrow> None
   | Some e \<Rightarrow> Some ([(''message'', VStr (err_text e))] @
       (if errCategory \<noteq> [] then [(''category'', VStr errCategory)] else [])))"

definition buildPayload ::
  "codec \<Rightarrow> ctx \<Rightarrow> string \<Rightarrow> gomap \<Rightarrow> string list \<Rightarrow> call_tool_result option \<Rightarrow> goerr option \<Rightarrow> string \<Rightarrow>
   audit_options \<Rightarrow> notification list \<Rightarrow> payload" where
  "buildPayload cd c method rawParams redactKeys cr callErr errCategory opts notifications =
     (let p = zero_payload\<lparr>pl_JSONRPCMethod := method, pl_RequestRemoteAddr := GetRemoteAddr c\<rparr>;
          sanitized = SanitizeParameters (box_map rawParams) redactKeys;
          (size, ok) = jsonSizeWithin cd (box_map sanitized) (ao_maxPayloadBytes opts);
          p = (if ok then p\<lparr>pl_RequestParams := sanitized, pl_RequestSizeBytes := size\<rparr>
               else p\<lparr>pl_RequestTruncated := True, pl_RequestSizeBytes := size\<rparr>);
          p = (if ao_captureHeaders opts \<and> GetHeaders c \<noteq> None then p\<lparr>pl_RequestHeaders := GetHeaders c\<rparr> else p);
          p = (case cr of
                 None \<Rightarrow> p
               | Some cr \<Rightarrow>
                   (let result = callToolResultToMap cd cr;
                        (size, ok) = jsonSizeWithin cd (VMap result) (ao_maxPayloadBytes opts)
                    in if ok then p\<lparr>pl_ResponseResult := Some result, pl_ResponseSizeBytes := size\<rparr>
                       else p\<lparr>pl_ResponseTruncated := True, pl_ResponseSizeBytes := size\<rparr>));
          p = p\<lparr>pl_ResponseError := error_payload callErr errCategory\<rparr>
      in if notifications = [] then p
         else let (kept, truncated) = fitNotifications cd notifications (ao_maxPayloadBytes opts)
              in p\<lparr>pl_NotificationsTruncated := truncated, pl_Notifications := kept\<rparr>)"

section \<open>The middleware\<close>

text \<open>\<open>Duration.Milliseconds\<close> drops the fraction, towards zero.\<close>

definition to_millis :: "duration \<Rightarrow> int" where
  "to_millis d = sgn d * (\<bar>d\<bar> div millisecond)"

type_synonym 'h handler =
  "ctx \<Rightarrow> recorder option \<Rightarrow> string \<Rightarrow> mcp_request \<Rightarrow> 'h \<Rightarrow> (mcp_result \<times> goerr option) \<times> sent list \<times> 'h"

record ('s, 'l, 'h) mw_state =
  ms_world :: "'s world"
  ms_log :: 'l
  ms_handler :: 'h

definition base_event ::
  "codec \<Rightarrow> (string \<times> string) list \<Rightarrow> gotime \<Rightarrow> ctx \<Rightarrow> mcp_request \<Rightarrow> identity option \<Rightarrow> event" where
  "base_event cd toolGroups now c req i =
     (let toolName = fst (extractCallParams cd req);
          ev = WithSource ''mcp'' (WithUserAgent (userAgent req) (EvRemoteAddr (GetRemoteAddr c)
                 (WithUser i (WithSessionID (sessionID req) (EvRequestID (GetRequestID c) (NewEvent now toolName))))))
      in case map_of toolGroups toolName of None \<Rightarrow> ev | Some g \<Rightarrow> WithToolGroup g ev)"

definition auth_event ::
  "codec \<Rightarrow> string list \<Rightarrow> audit_options \<Rightarrow> ctx \<Rightarrow> string \<Rightarrow> mcp_request \<Rightarrow> goerr \<Rightarrow> int \<Rightarrow> event \<Rightarrow> event" where
  "auth_event cd redactKeys opts c method req authErr ms ev =
     (let ev = (WithResult False (err_text authErr) ms ev)\<lparr>ev_ErrorCategory := ''auth''\<rparr>
      in if ao_capturePayloads opts
         then WithPayload (Some (buildPayload cd c method (snd (extractCallParams cd req)) redactKeys None (Some authErr)
                ''auth'' opts [])) ev
         else ev)"

definition result_event ::
  "codec \<Rightarrow> string list \<Rightarrow> audit_options \<Rightarrow> ctx \<Rightarrow> string \<Rightarrow> mcp_request \<Rightarrow> mcp_result \<Rightarrow> goerr option \<Rightarrow>
   recorder option \<Rightarrow> int \<Rightarrow> event \<Rightarrow> event" where
  "result_event cd redactKeys opts c method req res err recorder ms ev =
     (let params = snd (extractCallParams cd req);
          ev = WithResult (err = None) (errString err) ms
                 (WithParameters (SanitizeParameters (box_map params) redactKeys) ev);
          cr = (case res of CallResult r \<Rightarrow> r | _ \<Rightarrow> None);
          (ev, errCategory) =
            (case cr of
               None \<Rightarrow> (ev, [])
             | Some r \<Rightarrow>
                 (let (chars, blocks) = measureResult r; ev = WithResponseSize chars blocks ev
                  in if cr_IsError r \<and> err = None then (ev\<lparr>ev_Success := False\<rparr>, ''tool'') else (ev, [])));
          errCategory = (if errCategory = [] \<and> err \<noteq> None then ''handler'' else errCategory);
          ev = ev\<lparr>ev_ErrorCategory := errCategory\<rparr>
      in if ao_capturePayloads opts
         then WithPayload (Some (buildPayload cd c method params redactKeys cr err errCategory opts
                (recorder_Snapshot recorder))) ev
         else ev)"

definition call_recorder :: "audit_options \<Rightarrow> string list \<Rightarrow> recorder option" where
  "call_recorder opts redactKeys =
     (if ao_capturePayloads opts then Some (newNotificationRecorder (ao_maxNotifications opts) redactKeys) else None)"

definition Audit ::
  "codec \<Rightarrow> 's chain \<Rightarrow> (event \<Rightarrow> 'l \<Rightarrow> 'l) \<Rightarrow> string list \<Rightarrow> (string \<times> string) list \<Rightarrow> audit_options \<Rightarrow>
   'h handler \<Rightarrow> (nat \<Rightarrow> gotime) \<Rightarrow> string \<Rightarrow> ctx \<Rightarrow> string \<Rightarrow> mcp_request \<Rightarrow> ('s, 'l, 'h) mw_state \<Rightarrow>
   (mcp_result \<times> goerr option) \<times> ('s, 'l, 'h) mw_state" where
  "Audit cd chain logf redactKeys toolGroups opts nxt clock uid c method req st =
     (if method \<noteq> ''tools/call'' then
        (case nxt c None method req (ms_handler st) of (r, _, h) \<Rightarrow> (r, st\<lparr>ms_handler := h\<rparr>))
      else if mq_header req = None then
        (let c = (if GetIdentity c = None then WithIdentity c (Some Anonymous) else c)
         in case nxt c None method req (ms_handler st) of (r, _, h) \<Rightarrow> (r, st\<lparr>ms_handler := h\<rparr>))
      else
        let c = enrichContext uid c req;
            (auth, w) = chain_Authenticate chain (\<lambda>n. clock (n + 1)) c (ms_world st);
            st = st\<lparr>ms_world := w\<rparr>
        in case auth of
             Inl authErr \<Rightarrow>
               (let ev = auth_event cd redactKeys opts c method req authErr (to_millis (time_sub (clock 5) (clock 0)))
                           (base_event cd toolGroups (clock 4) c req None)
                in ((NilResult, Some authErr), st\<lparr>ms_log := logf ev (ms_log st)\<rparr>))
           | Inr i \<Rightarrow>
               (let c = WithIdentity c (Some i);
                    ev = base_event cd toolGroups (clock 4) c req (Some i);
                    recorder = call_recorder opts redactKeys;
                    ((res, err), sends, h) = nxt c recorder method req (ms_handler st);
                    recorder = fold (Notifications cd) sends recorder;
                    ev = result_event cd redactKeys opts c method req res err recorder
                           (to_millis (time_sub (clock 5) (clock 0))) ev
                in ((res, err), st\<lparr>ms_handler := h, ms_log := logf ev (ms_log st)\<rparr>)))"

section \<open>One row per call\<close>

lemma WithUser_frame [simp]:
  "ev_ToolName (WithUser i e) = ev_ToolName e" "ev_Source (WithUser i e) = ev_Source e"
  "ev_RequestID (WithUser i e) = ev_RequestID e" "ev_Parameters (WithUser i e) = ev_Parameters e"
  "ev_Payload (WithUser i e) = ev_Payload e"
  "ev_UserSubject (WithUser i e) = (case i of None \<Rightarrow> ev_UserSubject e | Some i \<Rightarrow> id_Subject i)"
  by (auto simp: WithUser_def Let_def split: option.splits)

lemma base_event_fields:
  "ev_ToolName (base_event cd tg now c req i) = fst (extractCallParams cd req)"
  "ev_Source (base_event cd tg now c req i) = ''mcp''"
  "ev_Parameters (base_event cd tg now c req i) = None"
  "ev_UserSubject (base_event cd tg now c req i) = (case i of None \<Rightarrow> [] | Some i \<Rightarrow> id_Subject i)"
  by (simp_all add: base_event_def Let_def event_builder_defs NewEvent_def zero_event_def split: option.splits)

lemma auth_event_fields:
  "ev_ToolName (auth_event cd ks opts c m req e ms ev) = ev_ToolName ev"
  "ev_Source (auth_event cd ks opts c m req e ms ev) = ev_Source ev"
  "ev_Parameters (auth_event cd ks opts c m req e ms ev) = ev_Parameters ev"
  "ev_UserSubject (auth_event cd ks opts c m req e ms ev) = ev_UserSubject ev"
  "\<not> ev_Success (auth_event cd ks opts c m req e ms ev)"
  "ev_ErrorCategory (auth_event cd ks opts c m req e ms ev) = ''auth''"
  by (simp_all add: auth_event_def Let_def event_builder_defs)

definition tool_failed :: "mcp_result \<Rightarrow> bool" where
  "tool_failed res = (case res of CallResult (Some r) \<Rightarrow> cr_IsError r | _ \<Rightarrow> False)"

lemma result_event_fields:
  "ev_ToolName (result_event cd ks opts c m req res err rcd ms ev) = ev_ToolName ev"
  "ev_Source (result_event cd ks opts c m req res err rcd ms ev) = ev_Source ev"
  "ev_UserSubject (result_event cd ks opts c m req res err rcd ms ev) = ev_UserSubject ev"
  "ev_Parameters (result_event cd ks opts c m req res err rcd ms ev) =
     SanitizeParameters (box_map (snd (extractCallParams cd req))) ks"
  "ev_Success (result_event cd ks opts c m req res err rcd ms ev) \<longleftrightarrow> err = None \<and> \<not> tool_failed res"
  "ev_ErrorCategory (result_event cd ks opts c m req res err rcd ms ev) =
     (if err \<noteq> None then ''handler'' else if tool_failed res then ''tool'' else [])"
  by (auto simp: result_event_def Let_def event_builder_defs tool_failed_def split: mcp_result.splits option.splits prod.splits)

lemma Audit_denied:
  assumes "method = ''tools/call''" and "mq_header req = Some hdr"
    and "chain_Authenticate chain (\<lambda>n. clock (n + 1)) (enrichContext uid c req) (ms_world st) = (Inl e, w)"
  shows "Audit cd chain logf ks groups opts nxt clock uid c method req st =
    ((NilResult, Some e), st\<lparr>ms_world := w, ms_log := logf
       (auth_event cd ks opts (enrichContext uid c req) method req e (to_millis (time_sub (clock 5) (clock 0)))
         (base_event cd groups (clock 4) (enrichContext uid c req) req None)) (ms_log st)\<rparr>)"
  using assms by (simp add: Audit_def Let_def)

lemma Audit_granted:
  assumes "method = ''tools/call''" and "mq_header req = Some hdr"
    and "chain_Authenticate chain (\<lambda>n. clock (n + 1)) (enrichContext uid c req) (ms_world st) = (Inr i, w)"
    and "nxt (WithIdentity (enrichContext uid c req) (Some i)) (call_recorder opts ks) method req (ms_handler st) =
      ((res, err), sends, h)"
  shows "Audit cd chain logf ks groups opts nxt clock uid c method req st =
    ((res, err), st\<lparr>ms_world := w, ms_handler := h, ms_log := logf
       (result_event cd ks opts (WithIdentity (enrichContext uid c req) (Some i)) method req res err
         (fold (Notifications cd) sends (call_recorder opts ks)) (to_millis (time_sub (clock 5) (clock 0)))
         (base_event cd groups (clock 4) (WithIdentity (enrichContext uid c req) (Some i)) req (Some i))) (ms_log st)\<rparr>)"
  using assms by (simp add: Audit_def Let_def)


section \<open>Bounds of the captured payload\<close>

text \<open>The JSON text of an array, from the texts of its elements.\<close>

definition json_array :: "string list \<Rightarrow> string" where
  "json_array bs = ''['' @ join '','' bs @ '']''"

definition note_texts :: "codec \<Rightarrow> notification list \<Rightarrow> string list \<Rightarrow> bool" where
  "note_texts cd ns bs \<longleftrightarrow> list_all2 (\<lambda>n b. cd_marshal cd (notification_val cd n) = Some b) ns bs"

text \<open>The bytes of a tail of the array, separators included, when \<open>i\<close> elements precede it.\<close>

fun tail_bytes :: "nat \<Rightarrow> string list \<Rightarrow> int" where
  "tail_bytes i [] = 0"
| "tail_bytes i (b # bs) = (if i > 0 then 1 else 0) + int (length b) + tail_bytes (Suc i) bs"

lemma tail_bytes_Suc: "bs \<noteq> [] \<Longrightarrow> tail_bytes (Suc i) bs = 1 + int (length (join '','' bs))"
proof (induction bs arbitrary: i)
  case (Cons b bs)
  then show ?case by (cases bs) simp_all
qed simp

lemma json_array_bytes: "int (length (json_array bs)) = 2 + tail_bytes 0 bs"
proof (cases bs)
  case (Cons b r)
  then show ?thesis by (cases r) (simp_all add: json_array_def tail_bytes_Suc del: tail_bytes.simps(2) add: tail_bytes.simps(2) [of 0])
qed (simp add: json_array_def)

lemma fit_from_kept:
  assumes "fit_from cd mx running i ns = r" and "running \<le> mx"
  shows "\<exists>bs. note_texts cd (case r of None \<Rightarrow> ns | Some k \<Rightarrow> take (k - i) ns) bs \<and> running + tail_bytes i bs \<le> mx \<and>
    (case r of None \<Rightarrow> True | Some k \<Rightarrow> i \<le> k \<and> k < i + length ns)"
  using assms
proof (induction ns arbitrary: running i)
  case (Cons n ns)
  show ?case
  proof (cases "cd_marshal cd (notification_val cd n)")
    case None
    then show ?thesis using Cons.prems by (auto simp: note_texts_def)
  next
    case (Some b)
    let ?run = "running + (if i > 0 then 1 else 0) + int (length b)"
    show ?thesis
    proof (cases "?run > mx")
      case True
      then show ?thesis using Cons.prems Some by (auto simp: note_texts_def Let_def)
    next
      case False
      then have r: "fit_from cd mx ?run (Suc i) ns = r" using Cons.prems Some by (simp add: Let_def)
      then obtain bs where bs: "note_texts cd (case r of None \<Rightarrow> ns | Some k \<Rightarrow> take (k - Suc i) ns) bs"
        "?run + tail_bytes (Suc i) bs \<le> mx" "case r of None \<Rightarrow> True | Some k \<Rightarrow> Suc i \<le> k \<and> k < Suc i + length ns"
        using Cons.IH [of ?run "Suc i"] False by auto
      then have "note_texts cd (case r of None \<Rightarrow> n # ns | Some k \<Rightarrow> take (k - i) (n # ns)) (b # bs)"
        using Some by (auto simp: note_texts_def take_Cons' split: option.splits)
      with bs show ?thesis by (intro exI [of _ "b # bs"]) (auto split: option.splits)
    qed
  qed
qed (auto simp: note_texts_def)

lemma fitNotifications_spec:
  assumes "2 \<le> mx" and "fitNotifications cd ns mx = (kept, truncated)"
  shows "prefix kept ns \<and> (truncated \<longleftrightarrow> kept \<noteq> ns) \<and>
    (\<exists>bs. note_texts cd kept bs \<and> int (length (json_array bs)) \<le> mx)"
proof (cases "ns = []")
  case True
  then show ?thesis using assms by (auto simp: fitNotifications_def note_texts_def json_array_def)
next
  case False
  obtain r where r: "fit_from cd mx 2 0 ns = r" by simp
  from fit_from_kept [OF this assms(1)] obtain bs where
    bs: "note_texts cd (case r of None \<Rightarrow> ns | Some k \<Rightarrow> take k ns) bs" "2 + tail_bytes 0 bs \<le> mx"
    "case r of None \<Rightarrow> True | Some k \<Rightarrow> k < length ns" by (cases r) auto
  have "kept = (case r of None \<Rightarrow> ns | Some k \<Rightarrow> take k ns)" "truncated \<longleftrightarrow> r \<noteq> None"
    using assms False r by (auto simp: fitNotifications_def split: option.splits)
  with bs show ?thesis
    by (auto simp: json_array_bytes take_is_prefix split: option.splits intro!: exI [of _ bs])
qed

lemma recorder_bound:
  assumes "0 < rc_max r" and "int (length (rc_items r)) \<le> rc_max r"
  shows "int (length (rc_items (recorder_Append cd now m ps r))) \<le> rc_max r"
    and "int (length (rc_items (recorder_commit note r))) \<le> rc_max r"
  using assms by (auto simp: recorder_Append_def recorder_commit_def recorder_full_def)

lemma recorder_frame:
  "rc_max (recorder_Append cd now m ps r) = rc_max r"
  "rc_redactKeys (recorder_Append cd now m ps r) = rc_redactKeys r"
  by (simp_all add: recorder_Append_def recorder_commit_def)

lemma recorded_bound:
  assumes "0 < rc_max r" and "int (length (rc_items r)) \<le> rc_max r"
  shows "\<exists>r'. fold (Notifications cd) sends (Some r) = Some r' \<and> rc_max r' = rc_max r \<and> int (length (rc_items r')) \<le> rc_max r"
  using assms
proof (induction sends arbitrary: r)
  case (Cons s sends)
  obtain now m ps where s: "s = (now, m, ps)" by (cases s)
  show ?case
    using Cons.IH [of "recorder_Append cd now m ps r"] Cons.IH [of r] Cons.prems recorder_bound(1) [of r cd now m ps]
    by (auto simp: s Notifications_def recorder_frame)
qed simp

lemma recorded_none: "fold (Notifications cd) sends None = None"
  by (induction sends) (auto simp: Notifications_def split: prod.splits)

definition within_cap :: "codec \<Rightarrow> int \<Rightarrow> gomap \<Rightarrow> int \<Rightarrow> bool \<Rightarrow> bool" where
  "within_cap cd mx m n truncated \<longleftrightarrow>
     (if truncated then m = None
      else \<exists>b. cd_marshal cd (box_map m) = Some b \<and> n = int (length b) \<and> n \<le> mx)"

lemma jsonSizeWithin_spec:
  "0 < mx \<Longrightarrow> jsonSizeWithin cd (box_map m) mx = (n, ok) \<Longrightarrow>
     within_cap cd mx (if ok then m else None) n (\<not> ok)"
  by (cases m) (auto simp: jsonSizeWithin_def within_cap_def Let_def split: option.splits)

lemma buildPayload_fields:
  assumes "jsonSizeWithin cd (box_map (SanitizeParameters (box_map ps) ks)) (ao_maxPayloadBytes opts) = (n, ok)"
    and "fitNotifications cd ns (ao_maxPayloadBytes opts) = (kept, truncated)"
  shows "pl_RequestParams (buildPayload cd c m ps ks cr e cat opts ns) = (if ok then SanitizeParameters (box_map ps) ks else None)"
    and "pl_RequestSizeBytes (buildPayload cd c m ps ks cr e cat opts ns) = n"
    and "pl_RequestTruncated (buildPayload cd c m ps ks cr e cat opts ns) = (\<not> ok)"
    and "pl_Notifications (buildPayload cd c m ps ks cr e cat opts ns) = kept"
    and "pl_NotificationsTruncated (buildPayload cd c m ps ks cr e cat opts ns) = truncated"
  using assms
  by (auto simp: buildPayload_def Let_def zero_payload_def fitNotifications_def split: option.splits prod.splits if_splits)

lemma buildPayload_response:
  assumes "jsonSizeWithin cd (VMap (callToolResultToMap cd cr)) (ao_maxPayloadBytes opts) = (n, ok)"
  shows "pl_ResponseResult (buildPayload cd c m ps ks (Some cr) e cat opts ns) = (if ok then Some (callToolResultToMap cd cr) else None)"
    and "pl_ResponseSizeBytes (buildPayload cd c m ps ks (Some cr) e cat opts ns) = n"
    and "pl_ResponseTruncated (buildPayload cd c m ps ks (Some cr) e cat opts ns) = (\<not> ok)"
  using assms
  by (auto simp: buildPayload_def Let_def zero_payload_def split: option.splits prod.splits)


text \<open>An instance: a codec whose texts are a letter per value.\<close>

definition toy_codec :: codec where
  "toy_codec = \<lparr>cd_marshal = (\<lambda>v. case v of VMap m \<Rightarrow> Some (''{'' @ concat (map fst m) @ ''}'') | VNilMap \<Rightarrow> Some ''null'' | _ \<Rightarrow> None),
     cd_unmarshal = (\<lambda>_. Some (VMap [])), cd_jsonb = (\<lambda>_. None), cd_showtime = (\<lambda>_. []), cd_parsetime = (\<lambda>_. None)\<rparr>"


section \<open>No secret reaches the audit row\<close>

lemma same_creds_lookup:
  "same_but_credentials h g \<Longrightarrow> canonical_key K \<notin> set sensitiveHeaders \<Longrightarrow> map_of h K = map_of g K"
  unfolding same_but_credentials_def by (induction rule: list_all2_induct) auto

lemma same_creds_get:
  "same_but_credentials h g \<Longrightarrow> canonical_key (canonical_key k) \<notin> set sensitiveHeaders \<Longrightarrow> header_get h k = header_get g k"
  by (simp add: header_get_def same_creds_lookup)

lemma plain_headers:
  "canonical_key (canonical_key ''X-Forwarded-For'') \<notin> set sensitiveHeaders"
  "canonical_key (canonical_key ''User-Agent'') \<notin> set sensitiveHeaders"
  by code_simp+

lemma enrich_agree:
  assumes "mq_header req = Some h" and "mq_header req' = Some g" and "same_but_credentials h g"
  shows "GetRemoteAddr (enrichContext uid c req) = GetRemoteAddr (enrichContext uid c req')"
    and "GetRequestID (enrichContext uid c req) = GetRequestID (enrichContext uid c req')"
    and "GetHeaders (enrichContext uid c req) = GetHeaders (enrichContext uid c req')"
    and "userAgent req = userAgent req'"
  using assms(1,2) RedactHeaders_low_eq [OF assms(3)] same_creds_get [OF assms(3) plain_headers(1)]
    same_creds_get [OF assms(3) plain_headers(2)]
  by (simp_all add: enrichContext_def userAgent_def Let_def)

lemma base_event_agree:
  assumes "GetRemoteAddr c = GetRemoteAddr c'" and "GetRequestID c = GetRequestID c'" and "userAgent req = userAgent req'"
    and "mq_session req = mq_session req'" and "fst (extractCallParams cd req) = fst (extractCallParams cd req')"
  shows "base_event cd groups now c req i = base_event cd groups now c' req' i"
  using assms by (simp add: base_event_def sessionID_def Let_def)

lemma buildPayload_agree:
  assumes "GetRemoteAddr c = GetRemoteAddr c'" and "GetHeaders c = GetHeaders c'"
    and "SanitizeParameters (box_map ps) ks = SanitizeParameters (box_map ps') ks"
  shows "buildPayload cd c m ps ks cr e cat opts ns = buildPayload cd c' m ps' ks cr e cat opts ns"
  unfolding buildPayload_def assms by (rule refl)

lemma auth_event_agree:
  assumes "GetRemoteAddr c = GetRemoteAddr c'" and "GetHeaders c = GetHeaders c'"
    and "SanitizeParameters (box_map (snd (extractCallParams cd req))) ks = SanitizeParameters (box_map (snd (extractCallParams cd req'))) ks"
  shows "auth_event cd ks opts c m req e ms ev = auth_event cd ks opts c' m req' e ms ev"
  unfolding auth_event_def buildPayload_agree [OF assms] by (rule refl)

lemma result_event_agree:
  assumes "GetRemoteAddr c = GetRemoteAddr c'" and "GetHeaders c = GetHeaders c'"
    and "SanitizeParameters (box_map (snd (extractCallParams cd req))) ks = SanitizeParameters (box_map (snd (extractCallParams cd req'))) ks"
  shows "result_event cd ks opts c m req res e rcd ms ev = result_event cd ks opts c' m req' res e rcd ms ev"
  unfolding result_event_def Let_def buildPayload_agree [OF assms] assms(3) by (rule refl)

text \<open>C6: No secret reaches the audit row. Take two audited calls of the same tool that differ only
  in argument values below redacted keys and in the values of credential headers, and that end alike
  (the same authentication outcome; the same result and notifications from the tool). Then the very
  same event, payload, headers and notifications included, is logged for both: nothing in the row
  depends on a redacted argument or on a credential.\<close>

theorem audit_row_hides_secrets:
  assumes "mq_header req = Some h" and "mq_header req' = Some g" and "same_but_credentials h g"
    and "mq_session req = mq_session req'"
    and "extractCallParams cd req = (tool, Some m)" and "extractCallParams cd req' = (tool, Some n)"
    and "low_eq ks (VMap m) (VMap n)" and "ks \<noteq> []"
    and "fst (chain_Authenticate chain (\<lambda>n. clock (n + 1)) (enrichContext uid c req) (ms_world st)) =
      fst (chain_Authenticate chain (\<lambda>n. clock (n + 1)) (enrichContext uid c req') (ms_world st'))"
    and "\<And>i. \<exists>r sends h1 h2.
      nxt (WithIdentity (enrichContext uid c req) (Some i)) (call_recorder opts ks) ''tools/call'' req (ms_handler st) = (r, sends, h1) \<and>
      nxt (WithIdentity (enrichContext uid c req') (Some i)) (call_recorder opts ks) ''tools/call'' req' (ms_handler st') = (r, sends, h2)"
  shows "\<exists>ev. ms_log (snd (Audit cd chain logf ks groups opts nxt clock uid c ''tools/call'' req st)) = logf ev (ms_log st) \<and>
    ms_log (snd (Audit cd chain logf ks groups opts nxt clock uid c ''tools/call'' req' st')) = logf ev (ms_log st')"
proof -
  note ctx = enrich_agree(1-3) [OF assms(1-3), of uid c] enrich_agree(4) [OF assms(1-3)]
  have p: "SanitizeParameters (box_map (snd (extractCallParams cd req))) ks = SanitizeParameters (box_map (snd (extractCallParams cd req'))) ks"
    using low_eq_sanitizeVal [OF assms(7)] assms(5,6,8) by (simp add: SanitizeParameters_def)
  have b: "base_event cd groups now (enrichContext uid c req) req i = base_event cd groups now (enrichContext uid c req') req' i"
    "base_event cd groups now (WithIdentity (enrichContext uid c req) j) req i =
     base_event cd groups now (WithIdentity (enrichContext uid c req') j) req' i" for now i j
    using assms(4-6) by (auto intro!: base_event_agree simp: ctx)
  obtain auth w w' where a: "chain_Authenticate chain (\<lambda>n. clock (n + 1)) (enrichContext uid c req) (ms_world st) = (auth, w)"
    "chain_Authenticate chain (\<lambda>n. clock (n + 1)) (enrichContext uid c req') (ms_world st') = (auth, w')"
    using assms(9) by (metis prod.collapse)
  show ?thesis
  proof (cases auth)
    case (Inl e)
    show ?thesis
      using auth_event_agree [OF ctx(1,3) p] b(1)
      by (simp add: Audit_denied [OF refl assms(1) a(1) [unfolded Inl]] Audit_denied [OF refl assms(2) a(2) [unfolded Inl]])
         blast
  next
    case (Inr i)
    obtain res err sends h1 h2 where
      n: "nxt (WithIdentity (enrichContext uid c req) (Some i)) (call_recorder opts ks) ''tools/call'' req (ms_handler st) = ((res, err), sends, h1)"
      "nxt (WithIdentity (enrichContext uid c req') (Some i)) (call_recorder opts ks) ''tools/call'' req' (ms_handler st') = ((res, err), sends, h2)"
      using assms(10) [of i] by auto
    show ?thesis
      using result_event_agree [OF _ _ p, of "WithIdentity (enrichContext uid c req) (Some i)" "WithIdentity (enrichContext uid c req') (Some i)"]
        b(2) [of _ "Some i"] ctx
      by (simp add: Audit_granted [where nxt = nxt, OF refl assms(1) a(1) [unfolded Inr] n(1)]
          Audit_granted [where nxt = nxt, OF refl assms(2) a(2) [unfolded Inr] n(2)]) blast
  qed
qed

definition toy_request :: "string \<Rightarrow> string \<Rightarrow> mcp_request" where
  "toy_request key secret = \<lparr>mq_header = Some [(''X-Api-Key'', [key])],
     mq_params = CallToolParams ''echo'' (VMap [(''token'', VStr secret)]), mq_session = None\<rparr>"

theorem audit_row_hides_secrets_witness:
  "\<exists>ev. [ev] = ms_log (snd (Audit toy_codec (NewChain True (Some (\<lambda>_ s. (Inr Anonymous, s))) None) (\<lambda>ev l. l @ [ev]) [''token''] []
      (WithPayloadCapture 0 defaultAuditOptions) (\<lambda>c r m q h. ((NilResult, None), [], h)) (\<lambda>_. 0) ''u'' background_ctx
      ''tools/call'' (toy_request ''k1'' ''s1'') \<lparr>ms_world = \<lparr>wd_stores = (), wd_lastLog = [], wd_log = []\<rparr>, ms_log = [], ms_handler = ()\<rparr>)) \<and>
    [ev] = ms_log (snd (Audit toy_codec (NewChain True (Some (\<lambda>_ s. (Inr Anonymous, s))) None) (\<lambda>ev l. l @ [ev]) [''token''] []
      (WithPayloadCapture 0 defaultAuditOptions) (\<lambda>c r m q h. ((NilResult, None), [], h)) (\<lambda>_. 0) ''u'' background_ctx
      ''tools/call'' (toy_request ''k2'' ''s2'') \<lparr>ms_world = \<lparr>wd_stores = (), wd_lastLog = [], wd_log = []\<rparr>, ms_log = [], ms_handler = ()\<rparr>))"
proof -
  let ?st = "\<lparr>ms_world = \<lparr>wd_stores = (), wd_lastLog = [], wd_log = []\<rparr>, ms_log = [], ms_handler = ()\<rparr>"
  let ?chain = "NewChain True (Some (\<lambda>_ s. (Inr Anonymous, s))) None"
  have s: "same_but_credentials [(''X-Api-Key'', [''k1''])] [(''X-Api-Key'', [''k2''])]" by code_simp
  have k: "matchesRedactKey ''token'' [''token'']" by code_simp
  have l: "low_eq [''token''] (VMap [(''token'', VStr ''s1'')]) (VMap [(''token'', VStr ''s2'')])"
    using k by (intro low_eq.maps) simp
  have a: "fst (chain_Authenticate ?chain (\<lambda>n. 0) (enrichContext ''u'' background_ctx (toy_request ''k1'' ''s1'')) (ms_world ?st)) =
      fst (chain_Authenticate ?chain (\<lambda>n. 0) (enrichContext ''u'' background_ctx (toy_request ''k2'' ''s2'')) (ms_world ?st))"
    by code_simp
  show ?thesis
    using audit_row_hides_secrets [of "toy_request ''k1'' ''s1''" _ "toy_request ''k2'' ''s2''" _ toy_codec "''echo''"
        "[(''token'', VStr ''s1'')]" "[(''token'', VStr ''s2'')]" "[''token'']" ?chain "\<lambda>_. 0" "''u''" background_ctx ?st ?st
        "\<lambda>c r m q h. ((NilResult, None), [], h)" "WithPayloadCapture 0 defaultAuditOptions" "\<lambda>ev l. l @ [ev]" "[]",
        OF _ _ s _ _ _ l _ a]
    by (simp add: toy_request_def extractCallParams_def) metis
qed

end
