(* ===== verification/Tools.thy ===== *)
theory Tools
  imports Mcp_Audit Config
begin

text \<open>
  \<open>pkg/tools\<close>: the registry and the four toolkits, with one definition per tool handler. A
  handler returns the result block list and flag where it builds one, its typed output and an
  error. \<open>RegisterTools\<close> of a toolkit is the list of \<open>mcp.AddTool\<close> calls it makes; the SDK decodes the
  arguments of a call and runs the handler registered under its name. The generator of \<open>math/rand/v2\<close> is the record \<open>prng\<close> (its
  draws as functions of the two seed words, and of the call number); FNV-1a is modelled on 64-bit
  words; SHA-256 is an argument.
\<close>

section \<open>Registry\<close>

record tool_meta =
  tm_Name :: string
  tm_Group :: string
  tm_Description :: string

text \<open>One \<open>mcp.AddTool\<close>: name, description, the two hints, and which handler; the headers tool has
  the redaction list of its toolkit.\<close>

datatype tool_handler =
    HandleWhoami
  | HandleEcho
  | HandleHeaders "string list"
  | HandleFixed
  | HandleSized
  | HandleLorem
  | HandleError
  | HandleSlow
  | HandleFlaky
  | HandleProgress
  | HandleLongOutput
  | HandleChatty

record mcp_tool =
  mt_Name :: string
  mt_Description :: string
  mt_ReadOnlyHint :: bool
  mt_IdempotentHint :: bool
  mt_Handler :: tool_handler

definition add_tool :: "string \<Rightarrow> string \<Rightarrow> bool \<Rightarrow> bool \<Rightarrow> tool_handler \<Rightarrow> mcp_tool" where
  "add_tool name desc readOnly idempotent h =
     \<lparr>mt_Name = name, mt_Description = desc, mt_ReadOnlyHint = readOnly, mt_IdempotentHint = idempotent, mt_Handler = h\<rparr>"

record toolkit =
  tk_Name :: string
  tk_Tools :: "tool_meta list"
  tk_RegisterTools :: "mcp_tool list"

record registry =
  rg_toolkits :: "toolkit list"
  rg_byName :: "(string \<times> string) list"

definition NewRegistry :: registry where
  "NewRegistry = \<lparr>rg_toolkits = [], rg_byName = []\<rparr>"

definition Registry_Add :: "toolkit \<Rightarrow> registry \<Rightarrow> registry" where
  "Registry_Add tk r = r\<lparr>rg_toolkits := rg_toolkits r @ [tk],
     rg_byName := fold (\<lambda>t m. AList.update (tm_Name t) (tk_Name tk) m) (tk_Tools tk) (rg_byName r)\<rparr>"

definition Registry_Toolkits :: "registry \<Rightarrow> toolkit list" where
  "Registry_Toolkits r = rg_toolkits r"

definition Registry_Groups :: "registry \<Rightarrow> (string \<times> string) list" where
  "Registry_Groups r = rg_byName r"

definition Registry_All :: "registry \<Rightarrow> tool_meta list" where
  "Registry_All r = concat (map tk_Tools (rg_toolkits r))"

section \<open>Identity tools\<close>

definition meta :: "string \<Rightarrow> string \<Rightarrow> string \<Rightarrow> tool_meta" where
  "meta g name desc = \<lparr>tm_Name = name, tm_Group = g, tm_Description = desc\<rparr>"

definition identity_New :: "string list \<Rightarrow> string list" where
  "identity_New redactHeaders = map to_lower redactHeaders"

definition identity_RegisterTools :: "string list \<Rightarrow> mcp_tool list" where
  "identity_RegisterTools redactHeaders =
     [add_tool ''whoami'' ''Return the authenticated identity for the calling MCP session.'' True False HandleWhoami,
      add_tool ''echo'' ''Echo back the arguments object exactly as received.'' True False HandleEcho,
      add_tool ''headers'' ''Return the HTTP headers received by this MCP server, with sensitive values redacted.'' True False
        (HandleHeaders redactHeaders)]"

definition identity_toolkit :: "string list \<Rightarrow> toolkit" where
  "identity_toolkit redactHeaders = \<lparr>tk_Name = ''identity'', tk_Tools = map (\<lambda>(n, d). meta ''identity'' n d)
     [(''whoami'', ''Return the authenticated identity for the calling MCP session.''),
      (''echo'', ''Echo the provided arguments back to the caller.''),
      (''headers'', ''Return the HTTP headers received by this server, with sensitive values redacted.'')],
     tk_RegisterTools = identity_RegisterTools (identity_New redactHeaders)\<rparr>"

record whoami_output =
  wo_Subject :: string
  wo_Email :: string
  wo_Name :: string
  wo_AuthType :: string
  wo_Claims :: gomap

definition handleWhoami :: "ctx \<Rightarrow> whoami_output result" where
  "handleWhoami c = (case GetIdentity c of
     None \<Rightarrow> Inl (ErrMsg ''no identity on context'')
   | Some i \<Rightarrow> Inr \<lparr>wo_Subject = id_Subject i, wo_Email = id_Email i, wo_Name = id_Name i,
       wo_AuthType = id_AuthType i, wo_Claims = id_Claims i\<rparr>)"

record echo_io =
  ei_Message :: string
  ei_Extras :: gomap

definition handleEcho :: "echo_io \<Rightarrow> echo_io" where
  "handleEcho inp = inp"

definition shouldRedact :: "string list \<Rightarrow> string \<Rightarrow> bool" where
  "shouldRedact redactHeaders headerLower = list_ex (\<lambda>r. contains headerLower r) redactHeaders"

definition handleHeaders :: "string list \<Rightarrow> mcp_request \<Rightarrow> header \<times> int" where
  "handleHeaders redactHeaders req = (case mq_header req of
     None \<Rightarrow> ([], 0)
   | Some h \<Rightarrow>
       (let out = map (\<lambda>(k, vs). (k, if shouldRedact redactHeaders (to_lower k) then [redacted] else vs)) h
        in (out, int (length out))))"

section \<open>Data tools\<close>

definition data_RegisterTools :: "mcp_tool list" where
  "data_RegisterTools =
     [add_tool ''fixed_response''
        ''Return a deterministic body derived from a key. Calling with the same key always returns the same body.'' True True HandleFixed,
      add_tool ''sized_response''
        ''Return exactly the requested number of characters. The body is the lowercase ASCII alphabet repeated; not random.''
        True True HandleSized,
      add_tool ''lorem''
        ''Return N words of lorem-ipsum text. With a seed, output is deterministic; without one, every call differs.''
        True False HandleLorem]"

definition data_toolkit :: toolkit where
  "data_toolkit = \<lparr>tk_Name = ''data'', tk_Tools = map (\<lambda>(n, d). meta ''data'' n d)
     [(''fixed_response'', ''Return a deterministic body for a given key. Same key, same body; every time.''),
      (''sized_response'', ''Return exactly N bytes of deterministic content. For testing size limits and chunking.''),
      (''lorem'', ''Return seeded lorem-ipsum text. Same seed produces the same output.'')],
     tk_RegisterTools = data_RegisterTools\<rparr>"

definition hex_string :: "string \<Rightarrow> string" where
  "hex_string s = concat (map (\<lambda>c. [hex_digit (of_char c div 16), hex_digit (of_char c mod 16)]) s)"

definition handleFixed :: "(string \<Rightarrow> string) \<Rightarrow> string \<Rightarrow> string \<times> string \<times> string" where
  "handleFixed sha256 key =
     (let hex = hex_string (sha256 key) in (key, hex, ''fixed['' @ key @ '']: '' @ hex))"

abbreviation sizedMax :: int where "sizedMax \<equiv> 1048576"

definition sizedAlphabet :: string where
  "sizedAlphabet = ''abcdefghijklmnopqrstuvwxyz''"

definition handleSized :: "int \<Rightarrow> (int \<times> string) result" where
  "handleSized size' =
     (if size' < 0 then Inl (ErrMsg (''size must be >= 0, got '' @ show_int size'))
      else if size' > sizedMax then Inl (ErrMsg (''size '' @ show_int size' @ '' exceeds max '' @ show_int sizedMax))
      else if size' = 0 then Inr (0, [])
      else Inr (size', map (\<lambda>i. sizedAlphabet ! (i mod length sizedAlphabet)) [0..<nat size']))"

definition loremDict :: "string list" where
  "loremDict =
     [''lorem'', ''ipsum'', ''dolor'', ''sit'', ''amet'', ''consectetur'', ''adipiscing'',
      ''elit'', ''sed'', ''do'', ''eiusmod'', ''tempor'', ''incididunt'', ''ut'', ''labore'',
      ''et'', ''dolore'', ''magna'', ''aliqua'', ''enim'', ''ad'', ''minim'', ''veniam'',
      ''quis'', ''nostrud'', ''exercitation'', ''ullamco'', ''laboris'', ''nisi'',
      ''aliquip'', ''ex'', ''ea'', ''commodo'', ''consequat'', ''duis'', ''aute'', ''irure'',
      ''in'', ''reprehenderit'', ''voluptate'', ''velit'', ''esse'', ''cillum'', ''fugiat'',
      ''nulla'', ''pariatur'', ''excepteur'', ''sint'', ''occaecat'', ''cupidatat'',
      ''non'', ''proident'', ''sunt'', ''culpa'', ''qui'', ''officia'', ''deserunt'',
      ''mollit'', ''anim'', ''id'', ''est'', ''laborum'']"

text \<open>FNV-1a with 64 bits.\<close>

definition fnv64a :: "string \<Rightarrow> 64 word" where
  "fnv64a s = fold (\<lambda>c h. xor h (of_nat (of_char c)) * 1099511628211) s 14695981039346656037"

type_synonym seeds = "64 word \<times> 64 word"

text \<open>\<open>pr_IntN seeds i n\<close> is the i-th draw below \<open>n\<close>, \<open>pr_Float64 seeds\<close> the first draw in the unit
  interval.\<close>

record prng =
  pr_IntN :: "seeds \<Rightarrow> nat \<Rightarrow> nat \<Rightarrow> nat"
  pr_Float64 :: "seeds \<Rightarrow> rat"

text \<open>Without a seed string the two words are random: the argument \<open>rnd\<close>.\<close>

definition newRand :: "seeds \<Rightarrow> string \<Rightarrow> seeds" where
  "newRand rnd seed = (if seed = [] then rnd else (fnv64a seed, fnv64a (''salt:'' @ seed)))"

definition capitalize :: "string \<Rightarrow> string" where
  "capitalize s = map upper_char (take 1 s) @ drop 1 s"

definition handleLorem :: "prng \<Rightarrow> seeds \<Rightarrow> int \<Rightarrow> string \<Rightarrow> int \<times> string" where
  "handleLorem pr rnd words seed =
     (let n = words;
          n = (if n \<le> 0 then 50 else n);
          n = (if n > 5000 then 5000 else n);
          r = newRand rnd seed;
          ws = map (\<lambda>i. loremDict ! pr_IntN pr r i (length loremDict)) [0..<nat n];
          ws = (case ws of [] \<Rightarrow> [] | w # rest \<Rightarrow> capitalize w # rest)
      in (n, join '' '' ws @ ''.''))"

section \<open>Failure tools\<close>

definition failure_RegisterTools :: "mcp_tool list" where
  "failure_RegisterTools =
     [add_tool ''error''
        (''Return an error with a caller-specified message. Optionally categorize as protocol|tool|timeout|auth '' @
         ''so audit rows are easy to filter.'') False False HandleError,
      add_tool ''slow''
        ''Sleep for the specified number of milliseconds, then return. Returns ctx.Err() if cancelled mid-sleep.''
        False False HandleSlow,
      add_tool ''flaky''
        (''Return success or a synthetic failure based on the supplied probability and seed. '' @
         ''Useful for retry-policy testing.'') False False HandleFlaky]"

definition failure_toolkit :: toolkit where
  "failure_toolkit = \<lparr>tk_Name = ''failure'', tk_Tools = map (\<lambda>(n, d). meta ''failure'' n d)
     [(''error'', ''Return an error with a caller-specified message and category.''),
      (''slow'', ''Sleep for the specified milliseconds before returning. Honors context cancellation.''),
      (''flaky'', ''Fail with probability P (seeded). Same seed + same call number always gives the same outcome.'')],
     tk_RegisterTools = failure_RegisterTools\<rparr>"

record error_input =
  ei_message :: string
  ei_category :: string
  ei_asTool :: bool

definition handleError :: "error_input \<Rightarrow> call_tool_result option \<times> goerr option" where
  "handleError inp =
     (let msg = (if ei_message inp = [] then ''synthetic error'' else ei_message inp)
      in if ei_asTool inp
         then (Some \<lparr>cr_Content = [TextContent msg], cr_IsError = True, cr_StructuredContent = VNil\<rparr>, None)
         else (None, Some (ErrMsg msg)))"

text \<open>The length of the sleep; the multiplication is in 64 bits.\<close>

definition slow_duration :: "int \<Rightarrow> duration" where
  "slow_duration ms =
     (let d = wrap64 (ms * millisecond);
          d = (if d < 0 then 0 else d)
      in if d > 60 * second then 60 * second else d)"

text \<open>\<open>wait d\<close> is the select on a timer of length \<open>d\<close> and the context: the error of the context if that
  was first, and the measured time.\<close>

definition handleSlow :: "(duration \<Rightarrow> goerr option \<times> duration) \<Rightarrow> int \<Rightarrow> int \<times> goerr option" where
  "handleSlow wait ms = (case wait (slow_duration ms) of (e, elapsed) \<Rightarrow> (to_millis elapsed, e))"

record flaky_output =
  fo_Failed :: bool
  fo_Roll :: rat
  fo_FailRate :: rat

definition flakyRand :: "seeds \<Rightarrow> string \<Rightarrow> int \<Rightarrow> seeds" where
  "flakyRand rnd seed callID =
     (if seed = [] then rnd
      else (fnv64a (seed @ ''|'' @ show_int callID), fnv64a (''salt|'' @ seed @ ''|'' @ show_int callID)))"

text \<open>The error names roll and rate with four digits; \<open>fmt\<close> formats them. A rate that is not a
  number is not modelled: JSON has none.\<close>

definition handleFlaky :: "(rat \<Rightarrow> string) \<Rightarrow> prng \<Rightarrow> seeds \<Rightarrow> rat \<Rightarrow> string \<Rightarrow> int \<Rightarrow> flaky_output \<times> goerr option" where
  "handleFlaky fmt pr rnd failRate seed callID =
     (let rate = (if failRate < 0 then 0 else failRate);
          rate = (if rate > 1 then 1 else rate);
          roll = pr_Float64 pr (flakyRand rnd seed callID)
      in if roll < rate
         then (\<lparr>fo_Failed = True, fo_Roll = roll, fo_FailRate = rate\<rparr>,
               Some (ErrMsg (''flaky failure (roll='' @ fmt roll @ '' < rate='' @ fmt rate @ '')'')))
         else (\<lparr>fo_Failed = False, fo_Roll = roll, fo_FailRate = rate\<rparr>, None))"

section \<open>Streaming tools\<close>

definition streaming_RegisterTools :: "mcp_tool list" where
  "streaming_RegisterTools =
     [add_tool ''progress''
        (''Emit N progress notifications spaced step_ms apart, then return. '' @
         ''The client must include a progressToken in _meta to receive notifications.'') False False HandleProgress,
      add_tool ''long_output''
        (''Return one CallToolResult containing '' @ [CHR 0x60] @ ''blocks'' @ [CHR 0x60] @ '' text content items, each of '' @
         [CHR 0x60] @ ''chars'' @ [CHR 0x60] @ '' characters.'') True False HandleLongOutput,
      add_tool ''chatty''
        (''Return a CallToolResult with several diverse text content blocks. '' @
         ''Useful for verifying the gateway preserves block ordering and types.'') True False HandleChatty]"

definition streaming_toolkit :: toolkit where
  "streaming_toolkit = \<lparr>tk_Name = ''streaming'', tk_Tools = map (\<lambda>(n, d). meta ''streaming'' n d)
     [(''progress'', ''Emit N progress notifications, then return.''),
      (''long_output'', ''Return one CallToolResult containing M text blocks of K characters each.''),
      (''chatty'', ''Return a CallToolResult with multiple, varied content blocks (mix of texts).'')],
     tk_RegisterTools = streaming_RegisterTools\<rparr>"

definition clamp_to :: "int \<Rightarrow> int \<Rightarrow> int \<Rightarrow> int" where
  "clamp_to dflt mx n = (let n = (if n \<le> 0 then dflt else n) in if n > mx then mx else n)"

record progress_output =
  po_Steps :: int
  po_Notified :: bool
  po_Done :: bool

definition progress_params :: "goval \<Rightarrow> int \<Rightarrow> int \<Rightarrow> goval" where
  "progress_params token i steps = VMap [(''progressToken'', token), (''message'', VStr (''step '' @ show_int i @ ''/'' @ show_int steps)),
     (''progress'', VFloat (float_of_int i)), (''total'', VFloat (float_of_int steps))]"

text \<open>The loop from step \<open>i\<close>: \<open>send i\<close> is what \<open>NotifyProgress\<close> returns in step \<open>i\<close>, \<open>done i\<close> the
  error of the context if it ends during the pause of that step. The notifications dispatched are
  returned in order.\<close>

fun progress_loop ::
  "(nat \<Rightarrow> goerr option) \<Rightarrow> (nat \<Rightarrow> goerr option) \<Rightarrow> goval option \<Rightarrow> nat \<Rightarrow> nat \<Rightarrow> nat \<Rightarrow>
   goval list \<times> nat \<times> goerr option" where
  "progress_loop send done token steps i 0 = ([], i, None)"
| "progress_loop send done token steps i (Suc k) =
     (let out = (case token of None \<Rightarrow> [] | Some t \<Rightarrow> [progress_params t (int i + 1) (int steps)])
      in case (if token = None then None else send i) of
           Some e \<Rightarrow> (out, i, Some e)
         | None \<Rightarrow>
             (case done i of
                Some e \<Rightarrow> (out, i, Some e)
              | None \<Rightarrow>
                  (case progress_loop send done token steps (Suc i) k of (rest, j, e) \<Rightarrow> (out @ rest, j, e))))"

definition handleProgress ::
  "(nat \<Rightarrow> goerr option) \<Rightarrow> (nat \<Rightarrow> goerr option) \<Rightarrow> goval option \<Rightarrow> int \<Rightarrow> goval list \<times> progress_output \<times> goerr option" where
  "handleProgress send done token inSteps =
     (let steps = nat (clamp_to 5 100 inSteps);
          (out, j, e) = progress_loop send done token steps 0 steps
      in (out, \<lparr>po_Steps = int j, po_Notified = (token \<noteq> None), po_Done = (e = None)\<rparr>, e))"

definition progress_pause :: "int \<Rightarrow> duration" where
  "progress_pause stepMS = clamp_to 200 5000 stepMS * millisecond"

definition filler :: "int \<Rightarrow> int \<Rightarrow> string" where
  "filler seq n =
     (let hdr = ''[block '' @ show_int seq @ ''] ''
      in if n \<le> int (length hdr) then take (nat n) hdr
         else let body = concat (replicate (nat ((n - int (length hdr) + 9) div 10)) ''abcdefghij'')
              in hdr @ take (nat (n - int (length hdr))) body)"

definition handleLongOutput :: "int \<Rightarrow> int \<Rightarrow> call_tool_result" where
  "handleLongOutput inBlocks inChars =
     (let blocks = clamp_to 3 50 inBlocks; chars = clamp_to 256 65536 inChars
      in \<lparr>cr_Content = map (\<lambda>i. TextContent (filler (int i) chars)) [0..<nat blocks], cr_IsError = False,
          cr_StructuredContent = VNil\<rparr>)"

text \<open>The last text is in UTF-8; its accented letters are two bytes each.\<close>

definition handleChatty :: call_tool_result where
  "handleChatty = \<lparr>cr_Content =
     [TextContent ''first block: short'',
      TextContent ''second block: a slightly longer string with multiple words'',
      TextContent ''third block: numbers 1 2 3 4 5'',
      TextContent (''fourth block: unicode; caf'' @ [CHR 0xC3, CHR 0xA9] @ '' r'' @ [CHR 0xC3, CHR 0xA9] @ ''sum'' @
        [CHR 0xC3, CHR 0xA9] @ '' na'' @ [CHR 0xC3, CHR 0xAF] @ ''ve'')],
     cr_IsError = False, cr_StructuredContent = VNil\<rparr>"

section \<open>Outputs\<close>

lemma clamp_to_bounds: "0 < dflt \<Longrightarrow> dflt \<le> mx \<Longrightarrow> 0 < clamp_to dflt mx n \<and> clamp_to dflt mx n \<le> mx"
  by (auto simp: clamp_to_def Let_def)

lemma filler_length:
  assumes "0 \<le> n"
  shows "int (length (filler seq n)) = n"
proof -
  let ?hdr = "''[block '' @ show_int seq @ ''] ''"
  have c: "length (concat (replicate k ''abcdefghij'')) = 10 * k" for k by (induction k) simp_all
  show ?thesis
  proof (cases "n \<le> int (length ?hdr)")
    case True
    then show ?thesis using assms by (simp add: filler_def Let_def)
  next
    case False
    then have "nat (n - int (length ?hdr)) \<le> 10 * nat ((n - int (length ?hdr) + 9) div 10)" by simp
    then show ?thesis using False by (simp add: filler_def Let_def c min_def)
  qed
qed

lemma progress_loop_all:
  "progress_loop (\<lambda>_. None) (\<lambda>_. None) (Some t) steps i k =
     (map (\<lambda>j. progress_params t (int j + 1) (int steps)) [i..<i + k], i + k, None)"
proof (induction k arbitrary: i)
  case (Suc k)
  have "[i..<i + Suc k] = i # [Suc i..<Suc i + k]" by (simp add: upt_conv_Cons del: upt_Suc)
  with Suc show ?case by (simp del: upt_Suc)
qed simp

lemma progress_loop_bound:
  "progress_loop send done token steps i k = (out, j, e) \<Longrightarrow> length out \<le> k \<and> i \<le> j \<and> j \<le> i + k"
proof (induction k arbitrary: i out j e)
  case (Suc k)
  then show ?case
    by (fastforce simp: Let_def split: option.splits prod.splits if_splits)
qed auto

lemma handleSized_spec:
  "handleSized n = (if 0 \<le> n \<and> n \<le> sizedMax then Inr (n, map (\<lambda>i. sizedAlphabet ! (i mod 26)) [0..<nat n])
     else Inl (if n < 0 then ErrMsg (''size must be >= 0, got '' @ show_int n)
               else ErrMsg (''size '' @ show_int n @ '' exceeds max '' @ show_int sizedMax)))"
  by (auto simp: handleSized_def sizedAlphabet_def)

text \<open>The tools keep to their documented sizes for every input, however large or negative.
  \<open>sized_response\<close> returns exactly the requested number of bytes up to one mebibyte and an error
  otherwise; \<open>long_output\<close> returns at most fifty blocks of exactly the (clamped) number of characters
  each; \<open>slow\<close> never sleeps longer than a minute; \<open>progress\<close> dispatches at most a hundred
  notifications, and, undisturbed, exactly the (clamped) number of steps, numbered from one in order.\<close>

theorem tool_outputs_bounded:
  "(if 0 \<le> n \<and> n \<le> sizedMax then \<exists>b. handleSized n = Inr (n, b) \<and> int (length b) = n else \<exists>e. handleSized n = Inl e) \<and>
   int (length (cr_Content (handleLongOutput blocks chars))) = clamp_to 3 50 blocks \<and> clamp_to 3 50 blocks \<le> 50 \<and>
   list_all (\<lambda>c. \<exists>t. c = TextContent t \<and> int (length t) = clamp_to 256 65536 chars) (cr_Content (handleLongOutput blocks chars)) \<and>
   0 \<le> slow_duration ms \<and> slow_duration ms \<le> 60 * second \<and>
   length (fst (handleProgress send done token steps)) \<le> 100 \<and>
   handleProgress (\<lambda>_. None) (\<lambda>_. None) (Some t) steps =
     (map (\<lambda>j. progress_params t (int j + 1) (clamp_to 5 100 steps)) [0..<nat (clamp_to 5 100 steps)],
      \<lparr>po_Steps = clamp_to 5 100 steps, po_Notified = True, po_Done = True\<rparr>, None)"
proof -
  have b: "0 < clamp_to 3 50 blocks" "clamp_to 3 50 blocks \<le> 50" "0 < clamp_to 256 65536 chars"
    "0 < clamp_to 5 100 steps" "clamp_to 5 100 steps \<le> 100"
    using clamp_to_bounds [of 3 50 blocks] clamp_to_bounds [of 256 65536 chars] clamp_to_bounds [of 5 100 steps] by simp_all
  have "if 0 \<le> n \<and> n \<le> sizedMax then \<exists>b. handleSized n = Inr (n, b) \<and> int (length b) = n else \<exists>e. handleSized n = Inl e"
    by (simp add: handleSized_spec)
  moreover have "int (length (cr_Content (handleLongOutput blocks chars))) = clamp_to 3 50 blocks"
    using b(1) by (simp add: handleLongOutput_def Let_def)
  moreover have "list_all (\<lambda>c. \<exists>t. c = TextContent t \<and> int (length t) = clamp_to 256 65536 chars) (cr_Content (handleLongOutput blocks chars))"
    using b(3) by (simp add: handleLongOutput_def Let_def list_all_iff filler_length)
  moreover have "0 \<le> slow_duration ms" "slow_duration ms \<le> 60 * second" by (simp_all add: slow_duration_def Let_def)
  moreover have "length (fst (handleProgress send done token steps)) \<le> 100"
  proof -
    obtain out j e where p: "progress_loop send done token (nat (clamp_to 5 100 steps)) 0 (nat (clamp_to 5 100 steps)) = (out, j, e)"
      using prod_cases3 by blast
    from progress_loop_bound [OF p] b(5) have "length out \<le> 100" by linarith
    then show ?thesis by (simp add: handleProgress_def Let_def p)
  qed
  moreover have "handleProgress (\<lambda>_. None) (\<lambda>_. None) (Some t) steps =
     (map (\<lambda>j. progress_params t (int j + 1) (clamp_to 5 100 steps)) [0..<nat (clamp_to 5 100 steps)],
      \<lparr>po_Steps = clamp_to 5 100 steps, po_Notified = True, po_Done = True\<rparr>, None)"
    using b(4) progress_loop_all [of t "nat (clamp_to 5 100 steps)" 0 "nat (clamp_to 5 100 steps)"]
    by (simp add: handleProgress_def Let_def)
  ultimately show ?thesis using b(2) by blast
qed

section \<open>The headers tool and the default redaction list\<close>

text \<open>The default list spells the key with an underscore, header names have a hyphen, and the tool
  reads the headers of the request rather than the redacted ones of the context: the API key of the
  caller is returned as it came.\<close>

lemma headers_tool_returns_api_key:
  "mq_header req = Some [(''X-Api-Key'', [k])] \<Longrightarrow>
     handleHeaders (identity_New default_redact_keys) req = ([(''X-Api-Key'', [k])], 1)"
proof -
  have "\<not> shouldRedact (identity_New default_redact_keys) (to_lower ''X-Api-Key'')" by code_simp
  moreover assume "mq_header req = Some [(''X-Api-Key'', [k])]"
  ultimately show ?thesis by (simp add: handleHeaders_def)
qed

text \<open>The product in \<open>slow\<close> overflows: some huge requests do not sleep at all.\<close>

lemma slow_overflow: "slow_duration 18446744073710 = 448384 \<and> slow_duration 9223372036855 = 0"
  by (simp add: slow_duration_def wrap64_def Let_def)

end
