(* ===== verification/Http_Portal.thy ===== *)
theory Http_Portal
  imports Http_Gates Http_RateLimit Tools Audit_Async
begin

text \<open>
  The reading half of \<open>pkg/httpsrv/portal_api.go\<close>: query filters parsed from a URL, the event
  list, event detail, the capped JSON-lines export, the live tail, the aggregates, the tool
  catalogue and the redacted configuration. The audit backend is a record of its methods, with
  the optional interfaces (\<open>PayloadLogger\<close>, \<open>StreamingLogger\<close>, \<open>SubscribingLogger\<close>) as options;
  the in-memory logger is one instance of it. \<open>uuid.Parse\<close>, \<open>time.Parse\<close>, \<open>time.ParseDuration\<close>
  and the JSON encoding of the configuration are arguments; a path value is an argument of the
  handler it belongs to. An object of \<open>encoding/json\<close> is a list of its members.
\<close>

section \<open>JSON of the response types\<close>

definition opt_str :: "string \<Rightarrow> string \<Rightarrow> (string \<times> goval) list" where
  "opt_str k v = (if v = [] then [] else [(k, VStr v)])"

definition opt_int :: "string \<Rightarrow> int \<Rightarrow> (string \<times> goval) list" where
  "opt_int k v = (if v = 0 then [] else [(k, VInt v)])"

definition opt_bool :: "string \<Rightarrow> bool \<Rightarrow> (string \<times> goval) list" where
  "opt_bool k v = (if v then [(k, VBool True)] else [])"

definition opt_map :: "string \<Rightarrow> gomap \<Rightarrow> (string \<times> goval) list" where
  "opt_map k m = (case m of None \<Rightarrow> [] | Some [] \<Rightarrow> [] | Some es \<Rightarrow> [(k, VMap es)])"

definition payload_val :: "codec \<Rightarrow> payload \<Rightarrow> goval" where
  "payload_val cd p = VMap (opt_str ''jsonrpc_method'' (pl_JSONRPCMethod p) @
     opt_map ''request_params'' (pl_RequestParams p) @
     opt_int ''request_size_bytes'' (pl_RequestSizeBytes p) @
     opt_bool ''request_truncated'' (pl_RequestTruncated p) @
     (case pl_RequestHeaders p of None \<Rightarrow> [] | Some [] \<Rightarrow> [] | Some h \<Rightarrow> [(''request_headers'', headers_val (Some h))]) @
     opt_str ''request_remote_addr'' (pl_RequestRemoteAddr p) @
     opt_map ''response_result'' (pl_ResponseResult p) @
     opt_map ''response_error'' (pl_ResponseError p) @
     opt_int ''response_size_bytes'' (pl_ResponseSizeBytes p) @
     opt_bool ''response_truncated'' (pl_ResponseTruncated p) @
     (if pl_Notifications p = [] then [] else [(''notifications'', notifications_val cd (pl_Notifications p))]) @
     opt_bool ''notifications_truncated'' (pl_NotificationsTruncated p) @
     opt_str ''replayed_from'' (pl_ReplayedFrom p))"

definition event_val :: "codec \<Rightarrow> event \<Rightarrow> goval" where
  "event_val cd e = VMap ([(''id'', VStr (ev_ID e)), (''timestamp'', VStr (cd_showtime cd (ev_Timestamp e))),
     (''duration_ms'', VInt (ev_DurationMS e))] @
     opt_str ''request_id'' (ev_RequestID e) @ opt_str ''session_id'' (ev_SessionID e) @
     opt_str ''user_subject'' (ev_UserSubject e) @ opt_str ''user_email'' (ev_UserEmail e) @
     opt_str ''auth_type'' (ev_AuthType e) @ opt_str ''api_key_name'' (ev_APIKeyName e) @
     [(''tool_name'', VStr (ev_ToolName e))] @ opt_str ''tool_group'' (ev_ToolGroup e) @
     opt_map ''parameters'' (ev_Parameters e) @ [(''success'', VBool (ev_Success e))] @
     opt_str ''error_message'' (ev_ErrorMessage e) @ opt_str ''error_category'' (ev_ErrorCategory e) @
     opt_int ''request_chars'' (ev_RequestChars e) @ opt_int ''response_chars'' (ev_ResponseChars e) @
     opt_int ''content_blocks'' (ev_ContentBlocks e) @
     [(''transport'', VStr (ev_Transport e)), (''source'', VStr (ev_Source e))] @
     opt_str ''remote_addr'' (ev_RemoteAddr e) @ opt_str ''user_agent'' (ev_UserAgent e) @
     (case ev_Payload e of None \<Rightarrow> [] | Some p \<Rightarrow> [(''payload'', payload_val cd p)]))"

definition identity_val :: "identity option \<Rightarrow> goval" where
  "identity_val i = (case i of
     None \<Rightarrow> VNil
   | Some i \<Rightarrow> VMap ([(''subject'', VStr (id_Subject i))] @ opt_str ''email'' (id_Email i) @ opt_str ''name'' (id_Name i) @
       [(''auth_type'', VStr (id_AuthType i))] @ opt_map ''claims'' (id_Claims i) @ opt_str ''api_key_id'' (id_APIKeyID i)))"

definition meta_val :: "tool_meta \<Rightarrow> goval" where
  "meta_val m = VMap [(''name'', VStr (tm_Name m)), (''group'', VStr (tm_Group m)), (''description'', VStr (tm_Description m))]"

definition point_val :: "codec \<Rightarrow> time_point \<Rightarrow> goval" where
  "point_val cd p = VMap [(''time'', VStr (cd_showtime cd (tp_Time p))), (''count'', VInt (tp_Count p)),
     (''errors'', VInt (tp_Errors p)), (''avg_duration_ms'', VFloat (Fin (tp_AvgDurMS p)))]"

definition breakdown_val :: "breakdown_point \<Rightarrow> goval" where
  "breakdown_val p = VMap [(''key'', VStr (bp_Key p)), (''count'', VInt (bp_Count p)), (''errors'', VInt (bp_Errors p))]"

definition stats_val :: "stats \<Rightarrow> goval" where
  "stats_val s = VMap [(''total'', VInt (st_Total s)), (''errors'', VInt (st_Errors s)),
     (''error_rate'', VFloat (Fin (st_ErrorRate s))), (''avg_duration_ms'', VFloat (Fin (st_AvgDurationMS s))),
     (''p50_duration_ms'', VInt (st_P50DurationMS s)), (''p95_duration_ms'', VInt (st_P95DurationMS s)),
     (''unique_subjects'', VInt (st_UniqueSubjects s)), (''unique_tools'', VInt (st_UniqueTools s))]"

text \<open>\<open>writeJSON\<close> is \<open>json_response\<close>.\<close>

definition writeError :: "int \<Rightarrow> goerr \<Rightarrow> http_response" where
  "writeError status err = json_response status (VMap [(''error'', VStr (err_text err))])"

section \<open>Durations as text\<close>

text \<open>\<open>Duration.Round\<close> for a positive unit: to the nearest multiple, halves away from zero.\<close>

definition duration_round :: "duration \<Rightarrow> duration \<Rightarrow> duration" where
  "duration_round m d =
     (let a = \<bar>d\<bar>; r = a mod m
      in sgn d * (if 2 * r < m then a - r else a - r + m))"

definition frac_digits :: "nat \<Rightarrow> nat \<Rightarrow> string" where
  "frac_digits prec v =
     (let ds = show_nat v;
          padded = replicate (prec - length ds) CHR ''0'' @ ds;
          trimmed = trim_right CHR ''0'' padded
      in if trimmed = [] then [] else CHR ''.'' # trimmed)"

definition with_unit :: "nat \<Rightarrow> nat \<Rightarrow> string \<Rightarrow> string" where
  "with_unit u prec unit = show_nat (u div 10 ^ prec) @ frac_digits prec (u mod 10 ^ prec) @ unit"

definition duration_String :: "duration \<Rightarrow> string" where
  "duration_String d =
     (let u = nat \<bar>d\<bar>;
          s = u div 10 ^ 9;
          text = (if u = 0 then ''0s''
                  else if u < 10 ^ 3 then with_unit u 0 ''ns''
                  else if u < 10 ^ 6 then with_unit u 3 [CHR 0xC2, CHR 0xB5, CHR ''s'']
                  else if u < 10 ^ 9 then with_unit u 6 ''ms''
                  else (if s \<ge> 3600 then show_nat (s div 3600) @ ''h'' else []) @
                       (if s \<ge> 60 then show_nat (s div 60 mod 60) @ ''m'' else []) @
                       with_unit (u - s div 60 * 60 * 10 ^ 9) 9 ''s'')
      in (if d < 0 then ''-'' else []) @ text)"

section \<open>The audit backend\<close>

record export =
  ex_written :: int
  ex_headerWritten :: bool
  ex_lines :: "goval list"

type_synonym 'a stream_fn = "(event \<Rightarrow> 'a \<Rightarrow> goerr option \<times> 'a) \<Rightarrow> 'a \<Rightarrow> goerr option \<times> 'a"

record 'l audit_api =
  aa_Log :: "event \<Rightarrow> 'l \<Rightarrow> goerr option \<times> 'l"
  aa_Query :: "'l \<Rightarrow> query_filter \<Rightarrow> event list result"
  aa_Count :: "'l \<Rightarrow> query_filter \<Rightarrow> int result"
  aa_TimeSeries :: "'l \<Rightarrow> gotime \<Rightarrow> gotime \<Rightarrow> duration \<Rightarrow> time_point list result"
  aa_Breakdown :: "'l \<Rightarrow> gotime \<Rightarrow> gotime \<Rightarrow> string \<Rightarrow> breakdown_point list result"
  aa_Stats :: "'l \<Rightarrow> gotime \<Rightarrow> gotime \<Rightarrow> stats result"
  aa_GetPayload :: "('l \<Rightarrow> string \<Rightarrow> payload option result) option"
  aa_Stream :: "('l \<Rightarrow> query_filter \<Rightarrow> export stream_fn) option"
  aa_Subscribe :: "(int \<Rightarrow> 'l \<Rightarrow> nat \<times> 'l) option"
  aa_cancel :: "nat \<Rightarrow> 'l \<Rightarrow> 'l"

record portal_parsers =
  pp_uuid :: "string \<Rightarrow> string option"
  pp_rfc3339 :: "string \<Rightarrow> gotime option"
  pp_duration :: "string \<Rightarrow> duration option"

text \<open>The in-memory logger as such a backend. Its \<open>Log\<close> and \<open>cancel\<close> cannot panic on a reachable
  hub (\<open>mem_Log_total\<close>, \<open>mem_cancel_total\<close>).\<close>

definition memory_api :: "float_parser \<Rightarrow> marshaler \<Rightarrow> string \<Rightarrow> (nat \<Rightarrow> goerr option) \<Rightarrow> memory_logger audit_api" where
  "memory_api pf marshal uid ctxErr =
     \<lparr>aa_Log = (\<lambda>ev m. (None, case mem_Log uid ev m of Some m' \<Rightarrow> m' | None \<Rightarrow> m)),
      aa_Query = (\<lambda>m f. Inr (mem_Query pf marshal m f)), aa_Count = (\<lambda>m f. Inr (mem_Count pf marshal m f)),
      aa_TimeSeries = (\<lambda>m frm to b. Inr (mem_TimeSeries m frm to b)),
      aa_Breakdown = (\<lambda>m frm to d. Inr (mem_Breakdown m frm to d)), aa_Stats = (\<lambda>m frm to. Inr (mem_Stats m frm to)),
      aa_GetPayload = Some (\<lambda>m i. Inr (mem_GetPayload m i)),
      aa_Stream = Some (\<lambda>m f. mem_Stream pf marshal m ctxErr f),
      aa_Subscribe = Some mem_Subscribe,
      aa_cancel = (\<lambda>a m. case mem_cancel a m of Some m' \<Rightarrow> m' | None \<Rightarrow> m)\<rparr>"

section \<open>Query filters\<close>

definition plain_byte :: "char \<Rightarrow> bool" where
  "plain_byte c \<longleftrightarrow> (let n = (of_char c :: nat) in \<not> (n < 32 \<or> n = 127))"

definition validPath :: "string list \<Rightarrow> bool" where
  "validPath path =
     (if path = [] then False
      else list_all (\<lambda>seg. seg \<noteq> [] \<and> list_all plain_byte seg) path)"

text \<open>\<open>strconv.Atoi\<close> with its error dropped: a numeral out of range counts as the nearest bound.\<close>

definition atoi_value :: "string \<Rightarrow> int" where
  "atoi_value s =
     (let neg = (case s of c # _ \<Rightarrow> c = CHR ''-'' | [] \<Rightarrow> False);
          body = (case s of c # cs \<Rightarrow> if c = CHR ''-'' \<or> c = CHR ''+'' then cs else s | [] \<Rightarrow> [])
      in if body = [] then 0
         else case parse_digits 0 body of
                None \<Rightarrow> 0
              | Some n \<Rightarrow> (let v = (if neg then - int n else int n) in max min_int64 (min max_int64 v)))"

text \<open>One iteration of the loop over the query parameters.\<close>

definition json_param_key :: "string \<Rightarrow> bool" where
  "json_param_key k \<longleftrightarrow> has_prefix k ''param.'' \<or> has_prefix k ''response.'' \<or> has_prefix k ''header.''"

definition json_filters_of :: "string \<times> string list \<Rightarrow> json_path_filter list" where
  "json_filters_of kv =
     (case kv of (k, vs) \<Rightarrow>
        if json_param_key k then
          (case cut_at CHR ''.'' k of
             None \<Rightarrow> []
           | Some (source, rest) \<Rightarrow>
               if rest = [] \<or> \<not> IsAllowedJSONSource source then []
               else let path = SplitJSONPath rest
                    in if \<not> validPath path then []
                       else if source = ''header'' \<and> length path \<noteq> 1 then []
                       else let path = (if source = ''header'' then [canonical_key (path ! 0)] else path)
                            in map (\<lambda>v. \<lparr>jf_Source = source, jf_Path = path, jf_Value = v\<rparr>) (filter (\<lambda>v. v \<noteq> []) vs))
        else [])"

definition has_keys_of :: "string \<times> string list \<Rightarrow> string list" where
  "has_keys_of kv =
     (case kv of (k, vs) \<Rightarrow>
        if json_param_key k then []
        else if k = ''has'' then filter IsAllowedHasKey vs else [])"

definition parseQueryFilter :: "portal_parsers \<Rightarrow> http_request \<Rightarrow> query_filter" where
  "parseQueryFilter pp r =
     (let time = (\<lambda>k. let v = query_get r k in if v \<noteq> [] then (case pp_rfc3339 pp v of Some t \<Rightarrow> t | None \<Rightarrow> 0) else 0);
          number = (\<lambda>k. let v = atoi_value (query_get r k) in if v > 0 then v else 0)
      in \<lparr>qf_From = time ''from'', qf_To = time ''to'', qf_ToolName = query_get r ''tool'',
          qf_UserID = query_get r ''user'', qf_SessionID = query_get r ''session'', qf_EventID = [],
          qf_Success = (if query_get r ''success'' = ''true'' then Some True
                        else if query_get r ''success'' = ''false'' then Some False else None),
          qf_Search = query_get r ''q'', qf_Limit = number ''limit'', qf_Offset = number ''offset'', qf_OrderDesc = False,
          qf_JSONFilters = concat (map json_filters_of (rq_Query r)),
          qf_HasKeys = concat (map has_keys_of (rq_Query r))\<rparr>)"

section \<open>Read-only handlers\<close>

abbreviation replayBurst :: int where "replayBurst \<equiv> 5"
abbreviation replayRefill :: duration where "replayRefill \<equiv> 12 * second"
abbreviation maxExportEvents :: int where "maxExportEvents \<equiv> 100000"
abbreviation maxTimeseriesWindow :: duration where "maxTimeseriesWindow \<equiv> 30 * 24 * hour"

definition auditMeta :: "'l http_handler" where
  "auditMeta c r l = (json_response 200 (VMap
     [(''has_keys'', VSlice (map VStr AllowedHasKeysList)), (''json_sources'', VSlice (map VStr AllowedJSONSourcesList)),
      (''replay'', VMap [(''burst'', VInt replayBurst), (''refill_secs'', VInt (replayRefill div second)),
                         (''sustained_min'', VInt (minute div replayRefill))]),
      (''export'', VMap [(''max_rows'', VInt maxExportEvents)])]), l)"

definition auditEvents :: "portal_parsers \<Rightarrow> codec \<Rightarrow> 'l audit_api \<Rightarrow> 'l http_handler" where
  "auditEvents pp cd au c r l =
     (let f = parseQueryFilter pp r;
          f = (if qf_Limit f = 0 then f\<lparr>qf_Limit := 50\<rparr> else f)
      in case aa_Query au l f of
           Inl e \<Rightarrow> (writeError 500 e, l)
         | Inr events \<Rightarrow>
             (let total = (case aa_Count au l f of Inr n \<Rightarrow> n | Inl _ \<Rightarrow> 0)
              in (json_response 200 (VMap [(''events'', VSlice (map (event_val cd) events)), (''total'', VInt total),
                    (''limit'', VInt (qf_Limit f)), (''offset'', VInt (qf_Offset f))]), l)))"

definition auditEventDetail :: "portal_parsers \<Rightarrow> codec \<Rightarrow> 'l audit_api \<Rightarrow> string \<Rightarrow> 'l http_handler" where
  "auditEventDetail pp cd au rawID c r l =
     (if rawID = [] then (writeError 400 (ErrMsg ''event id required''), l)
      else case pp_uuid pp rawID of
        None \<Rightarrow> (writeError 400 (ErrMsg ''event id is not a valid uuid''), l)
      | Some i \<Rightarrow>
          (case aa_Query au l (zero_filter\<lparr>qf_EventID := i, qf_Limit := 1\<rparr>) of
             Inl e \<Rightarrow> (writeError 500 e, l)
           | Inr [] \<Rightarrow> (writeError 404 (ErrMsg (''event '' @ go_quote i @ '' not found'')), l)
           | Inr (ev # _) \<Rightarrow>
               (let ev = ev\<lparr>ev_Payload := None\<rparr>;
                    ev = (case aa_GetPayload au of
                            None \<Rightarrow> ev
                          | Some getPayload \<Rightarrow>
                              (case getPayload l i of Inl _ \<Rightarrow> ev | Inr payload \<Rightarrow> ev\<lparr>ev_Payload := payload\<rparr>))
                in (json_response 200 (event_val cd ev), l))))"

definition auditTimeseries :: "portal_parsers \<Rightarrow> codec \<Rightarrow> 'l audit_api \<Rightarrow> 'l http_handler" where
  "auditTimeseries pp cd au c r l =
     (let f = parseQueryFilter pp r;
          v = query_get r ''bucket'';
          bucket = (if v \<noteq> [] then (case pp_duration pp v of Some d \<Rightarrow> if d > 0 then d else minute | None \<Rightarrow> minute) else minute);
          bucket = (if bucket < second then second else bucket)
      in if \<not> is_zero_time (qf_From f) \<and> \<not> is_zero_time (qf_To f) \<and> time_sub (qf_To f) (qf_From f) > maxTimeseriesWindow
         then (writeError 400 (ErrMsg (''time window exceeds '' @ duration_String maxTimeseriesWindow)), l)
         else case aa_TimeSeries au l (qf_From f) (qf_To f) bucket of
           Inl e \<Rightarrow> (writeError 400 e, l)
         | Inr pts \<Rightarrow> (json_response 200 (VMap [(''points'', VSlice (map (point_val cd) pts)),
                        (''bucket'', VStr (duration_String bucket))]), l))"

definition auditBreakdown :: "portal_parsers \<Rightarrow> 'l audit_api \<Rightarrow> 'l http_handler" where
  "auditBreakdown pp au c r l =
     (let f = parseQueryFilter pp r;
          d = query_get r ''by'';
          d = (if d = [] then ''tool'' else d)
      in case aa_Breakdown au l (qf_From f) (qf_To f) d of
           Inl e \<Rightarrow> (writeError 500 e, l)
         | Inr pts \<Rightarrow> (json_response 200 (VMap [(''breakdown'', VSlice (map breakdown_val pts)), (''by'', VStr d)]), l))"

definition dashboard :: "codec \<Rightarrow> gotime \<Rightarrow> 'l audit_api \<Rightarrow> 'l http_handler" where
  "dashboard cd now au c r l =
     (let frm = now - hour
      in case aa_Stats au l frm now of
           Inl e \<Rightarrow> (writeError 500 e, l)
         | Inr st \<Rightarrow>
             (let recent = (case aa_Query au l (zero_filter\<lparr>qf_From := frm, qf_To := now, qf_Limit := 20\<rparr>) of
                              Inr evs \<Rightarrow> VSlice (map (event_val cd) evs) | Inl _ \<Rightarrow> VNil)
              in (json_response 200 (VMap [(''window_from'', VStr (cd_showtime cd frm)), (''window_to'', VStr (cd_showtime cd now)),
                    (''stats'', stats_val st), (''recent'', recent)]), l)))"

definition wellknown :: "config \<Rightarrow> 'l http_handler" where
  "wellknown cfg c r l = (json_response 200 (VMap
     [(''protected_resource_url'', VStr (ProtectedResourceMetadataURL cfg)), (''authorization_server'', VStr (oc_Issuer (cf_OIDC cfg))),
      (''oidc_enabled'', VBool (oc_Enabled (cf_OIDC cfg))), (''audience'', VStr (oc_Audience (cf_OIDC cfg))),
      (''mcp_endpoint'', VStr (trim_right CHR ''/'' (sc_BaseURL (cf_Server cfg)) @ ''/''))]), l)"

definition me :: "'l http_handler" where
  "me c r l = (json_response 200 (identity_val (GetIdentity c)), l)"

definition instructions :: "config \<Rightarrow> 'l http_handler" where
  "instructions cfg c r l = (json_response 200 (VMap [(''instructions'', VStr (sc_Instructions (cf_Server cfg)))]), l)"

definition portal_tools :: "registry \<Rightarrow> 'l http_handler" where
  "portal_tools reg c r l =
     (json_response 200 (VMap [(''tools'', if Registry_All reg = [] then VNil else VSlice (map meta_val (Registry_All reg)))]), l)"

definition toolDetail :: "registry \<Rightarrow> string \<Rightarrow> 'l http_handler" where
  "toolDetail reg name c r l = (case find (\<lambda>m. tm_Name m = name) (Registry_All reg) of
     Some m \<Rightarrow> (json_response 200 (meta_val m), l)
   | None \<Rightarrow> (text_error (json_text [(''error'', ''not found'')]) 404, l))"

section \<open>The redacted configuration\<close>

definition redactIfSet :: "string \<Rightarrow> string" where
  "redactIfSet v = (if v = [] then [] else redacted)"

record build_info =
  bi_Version :: string
  bi_Commit :: string
  bi_Date :: string

definition redact_config :: "config \<Rightarrow> config" where
  "redact_config cfg =
     (let p = cf_Portal cfg; o' = cf_OIDC cfg; k = cf_APIKeys cfg; d = cf_Database cfg;
          url = (case last_index CHR ''@'' (db_URL d) of
                   Some i \<Rightarrow> if i > 0 then redacted @ drop i (db_URL d) else db_URL d
                 | None \<Rightarrow> db_URL d)
      in cfg\<lparr>cf_Portal := p\<lparr>po_CookieSecret := redactIfSet (po_CookieSecret p)\<rparr>,
             cf_OIDC := o'\<lparr>oc_ClientSecret := redactIfSet (oc_ClientSecret o')\<rparr>,
             cf_APIKeys := k\<lparr>ak_File := map (\<lambda>e. e\<lparr>fk_Key := redactIfSet (fk_Key e)\<rparr>) (ak_File k)\<rparr>,
             cf_Database := d\<lparr>db_URL := url\<rparr>\<rparr>)"

text \<open>\<open>render\<close> is the encoding of a \<open>config.Config\<close>.\<close>

definition sanitizedConfig :: "build_info \<Rightarrow> (config \<Rightarrow> goval) \<Rightarrow> config \<Rightarrow> goval" where
  "sanitizedConfig b render cfg = VMap [(''version'', VStr (bi_Version b)), (''commit'', VStr (bi_Commit b)),
     (''date'', VStr (bi_Date b)), (''config'', render (redact_config cfg))]"

definition server :: "build_info \<Rightarrow> (config \<Rightarrow> goval) \<Rightarrow> config \<Rightarrow> 'l http_handler" where
  "server b render cfg c r l = (json_response 200 (sanitizedConfig b render cfg), l)"

section \<open>Export\<close>

text \<open>The callback of the stream: \<open>ctxErr n\<close> is what \<open>r.Context().Err()\<close> returns once \<open>n\<close> lines are out,
  \<open>encErr n\<close> what encoding the next one returns.\<close>

definition export_row ::
  "codec \<Rightarrow> (int \<Rightarrow> goerr option) \<Rightarrow> (int \<Rightarrow> goerr option) \<Rightarrow> int \<Rightarrow> event \<Rightarrow> export \<Rightarrow> goerr option \<times> export" where
  "export_row cd ctxErr encErr exportCap ev x =
     (case ctxErr (ex_written x) of
        Some e \<Rightarrow> (Some e, x)
      | None \<Rightarrow>
          if ex_written x \<ge> exportCap then (Some ErrExportCapped, x)
          else let ev = ev\<lparr>ev_Payload := None\<rparr>;
                   x = x\<lparr>ex_headerWritten := True\<rparr>
               in case encErr (ex_written x) of
                    Some e \<Rightarrow> (Some e, x)
                  | None \<Rightarrow> (None, x\<lparr>ex_written := ex_written x + 1, ex_lines := ex_lines x @ [event_val cd ev]\<rparr>))"

definition export_response :: "export \<Rightarrow> http_response" where
  "export_response x = set_headers
     [(''Content-Type'', ''application/x-ndjson''),
      (''Content-Disposition'', ''attachment; filename='' @ [CHR 0x22] @ ''audit.jsonl'' @ [CHR 0x22]),
      (''Cache-Control'', ''no-store'')]
     (empty_response\<lparr>rs_Body := JsonLines (ex_lines x)\<rparr>)"

text \<open>The switch on the error of the stream. A context that ended before the first line leaves the
  response unwritten.\<close>

definition export_end :: "goerr option \<Rightarrow> export \<Rightarrow> http_response" where
  "export_end err x =
     (if err = None \<or> err = Some ErrExportCapped then export_response x
      else if err = Some ErrCanceled \<or> err = Some ErrDeadlineExceeded
      then (if ex_headerWritten x then export_response x else empty_response)
      else if \<not> ex_headerWritten x then writeError 500 (ErrMsg ''export stream failed (see server logs)'')
      else export_response x)"

definition auditExport ::
  "portal_parsers \<Rightarrow> codec \<Rightarrow> (int \<Rightarrow> goerr option) \<Rightarrow> (int \<Rightarrow> goerr option) \<Rightarrow> 'l audit_api \<Rightarrow> 'l http_handler" where
  "auditExport pp cd ctxErr encErr au c r l =
     (let got = query_get r ''format''
      in if got \<noteq> [] \<and> got \<noteq> ''jsonl''
         then (writeError 400 (ErrMsg (''unsupported format '' @ go_quote got @ '' (only jsonl is supported)'')), l)
         else let f = parseQueryFilter pp r;
                  exportCap = qf_Limit f;
                  exportCap = (if exportCap \<le> 0 \<or> exportCap > maxExportEvents then maxExportEvents else exportCap);
                  f = f\<lparr>qf_Limit := 0, qf_Offset := 0\<rparr>
              in case aa_Stream au of
                   None \<Rightarrow> (writeError 503 (ErrMsg ''export not supported by configured audit backend''), l)
                 | Some stream \<Rightarrow>
                     (case stream l f (export_row cd ctxErr encErr exportCap)
                             \<lparr>ex_written = 0, ex_headerWritten = False, ex_lines = []\<rparr> of
                        (err, x) \<Rightarrow> (export_end err x, l)))"

section \<open>Live tail\<close>

text \<open>What the select of the loop picks: the end of the request, a tick, or a receive (\<open>None\<close> when the
  channel is closed).\<close>

datatype sse_pick = RequestDone | Heartbeat | Received "event option"

definition sse_connected :: string where
  "sse_connected = '': connected'' @ [CHR 0x0A, CHR 0x0A]"

definition sse_keepalive :: string where
  "sse_keepalive = '': keepalive'' @ [CHR 0x0A, CHR 0x0A]"

text \<open>\<open>encode\<close> is the JSON encoder with HTML escaping off; it ends its output with a newline.\<close>

definition sse_frame :: "(event \<Rightarrow> string option) \<Rightarrow> event \<Rightarrow> string option" where
  "sse_frame encode ev = map_option (\<lambda>b. ''event: audit'' @ [CHR 0x0A] @ ''data: '' @ b @ [CHR 0x0A]) (encode (ev\<lparr>ev_Payload := None\<rparr>))"

text \<open>The loop from the \<open>n\<close>-th write on; \<open>wr n\<close> says whether the write goes through. It ends with the
  picks or at the first return.\<close>

fun sse_loop :: "(event \<Rightarrow> string option) \<Rightarrow> (nat \<Rightarrow> bool) \<Rightarrow> nat \<Rightarrow> sse_pick list \<Rightarrow> string list" where
  "sse_loop encode wr n [] = []"
| "sse_loop encode wr n (RequestDone # ps) = []"
| "sse_loop encode wr n (Heartbeat # ps) = (if wr n then sse_keepalive # sse_loop encode wr (Suc n) ps else [])"
| "sse_loop encode wr n (Received None # ps) = []"
| "sse_loop encode wr n (Received (Some ev) # ps) =
     (case sse_frame encode ev of
        None \<Rightarrow> []
      | Some frame \<Rightarrow> if wr n then frame # sse_loop encode wr (Suc n) ps else [])"

text \<open>\<open>meanwhile\<close> is what the rest of the program does to the backend while the tail is open; it yields
  the picks.\<close>

definition auditStream ::
  "(event \<Rightarrow> string option) \<Rightarrow> (nat \<Rightarrow> bool) \<Rightarrow> bool \<Rightarrow> (nat \<Rightarrow> 'l \<Rightarrow> sse_pick list \<times> 'l) \<Rightarrow> 'l audit_api \<Rightarrow> 'l http_handler" where
  "auditStream encode wr canFlush meanwhile au c r l =
     (case aa_Subscribe au of
        None \<Rightarrow> (writeError 503 (ErrMsg ''live tail not supported by configured audit backend''), l)
      | Some subscribe \<Rightarrow>
          if \<not> canFlush then (writeError 500 (ErrMsg ''response writer does not support streaming''), l)
          else let (a, l) = subscribe 64 l;
                   (picks, l) = (if wr 0 then meanwhile a l else ([], l));
                   frames = (if wr 0 then sse_connected # sse_loop encode wr 1 picks else []);
                   l = aa_cancel au a l
               in (set_headers [(''Content-Type'', ''text/event-stream''), (''Cache-Control'', ''no-store''),
                     (''Connection'', ''keep-alive''), (''X-Accel-Buffering'', ''no'')]
                     (empty_response\<lparr>rs_Body := Raw (concat frames)\<rparr>), l))"

section \<open>The export is exact\<close>

definition summary :: "event \<Rightarrow> event" where
  "summary ev = ev\<lparr>ev_Payload := None\<rparr>"

text \<open>The lines owed for a result set.\<close>

definition export_lines :: "codec \<Rightarrow> query_filter \<Rightarrow> event list \<Rightarrow> goval list" where
  "export_lines cd f evs = map (event_val cd \<circ> summary)
     (take (nat (if qf_Limit f \<le> 0 \<or> qf_Limit f > maxExportEvents then maxExportEvents else qf_Limit f)) evs)"

lemma visit_export_row:
  assumes "ex_written x = int k" and "int k \<le> cap"
  shows "\<exists>err x'. visit (\<lambda>_. None) n (export_row cd (\<lambda>_. None) (\<lambda>_. None) cap) evs x = (err, x') \<and>
    (err = None \<or> err = Some ErrExportCapped) \<and>
    ex_lines x' = ex_lines x @ map (event_val cd \<circ> summary) (take (nat cap - k) evs)"
  using assms
proof (induction evs arbitrary: x k n)
  case Nil
  then show ?case by simp
next
  case (Cons ev evs)
  show ?case
  proof (cases "int k \<ge> cap")
    case True
    with Cons.prems show ?thesis by (simp add: export_row_def)
  next
    case False
    let ?x = "x\<lparr>ex_headerWritten := True, ex_written := ex_written x + 1, ex_lines := ex_lines x @ [event_val cd (summary ev)]\<rparr>"
    have row: "export_row cd (\<lambda>_. None) (\<lambda>_. None) cap ev x = (None, ?x)"
      using False Cons.prems by (simp add: export_row_def summary_def)
    have "nat cap - k = Suc (nat cap - Suc k)" using False by simp
    then have t: "take (nat cap - k) (ev # evs) = ev # take (nat cap - Suc k) evs" by (simp only: take_Suc_Cons)
    have "ex_written ?x = int (Suc k)" "int (Suc k) \<le> cap" using Cons.prems False by simp_all
    from Cons.IH [OF this, of "Suc n"] show ?thesis by (simp add: row t)
  qed
qed

locale streaming_backend =
  fixes stream :: "'l \<Rightarrow> query_filter \<Rightarrow> export stream_fn"
    and result_set :: "'l \<Rightarrow> query_filter \<Rightarrow> event list"
  assumes stream_visits: "stream l f fn acc = visit (\<lambda>_. None) 0 fn (result_set l f) acc"
    and result_set_whole: "result_set l (f\<lparr>qf_Limit := a, qf_Offset := b\<rparr>) = result_set l f"
begin

lemma export_exact_response:
  assumes "aa_Stream au = Some stream" and "query_get r ''format'' \<in> {[], ''jsonl''}" and f_def: "f = parseQueryFilter pp r"
  shows "auditExport pp cd (\<lambda>_. None) (\<lambda>_. None) au c r l =
    (export_response \<lparr>ex_written = 0, ex_headerWritten = True,
       ex_lines = export_lines cd f (result_set l f)\<rparr>, l)"
proof -
  let ?cap = "if qf_Limit f \<le> 0 \<or> qf_Limit f > maxExportEvents then maxExportEvents else qf_Limit f"
  let ?x = "\<lparr>ex_written = 0, ex_headerWritten = False, ex_lines = []\<rparr>"
  have "ex_written ?x = int 0" "int 0 \<le> ?cap" by simp_all
  from visit_export_row [OF this, of 0 cd "result_set l f"] obtain err x where
    v: "visit (\<lambda>_. None) 0 (export_row cd (\<lambda>_. None) (\<lambda>_. None) ?cap) (result_set l f) ?x = (err, x)"
    and e: "err = None \<or> err = Some ErrExportCapped"
    and x: "ex_lines x = map (event_val cd \<circ> summary) (take (nat ?cap) (result_set l f))" by auto
  have s: "stream l (f\<lparr>qf_Limit := 0, qf_Offset := 0\<rparr>) (export_row cd (\<lambda>_. None) (\<lambda>_. None) ?cap) ?x = (err, x)"
    by (simp only: stream_visits result_set_whole v)
  have "\<not> (query_get r ''format'' \<noteq> [] \<and> query_get r ''format'' \<noteq> ''jsonl'')" using assms(2) by auto
  then have "auditExport pp cd (\<lambda>_. None) (\<lambda>_. None) au c r l = (export_end err x, l)"
    unfolding auditExport_def Let_def f_def [symmetric] assms(1) by (simp only: if_False option.case s prod.case)
  with e x show ?thesis by (auto simp: export_end_def export_response_def export_lines_def)
qed

end

text \<open>Both backends, the in-memory one and a Postgres table that does not change during the export,
  behind the asynchronous logger or not.\<close>

lemma matchAll_whole: "matchAll pf marshal m (f\<lparr>qf_Limit := a, qf_Offset := b\<rparr>) = matchAll pf marshal m f"
proof -
  have "matchesFilter pf marshal (f\<lparr>qf_Limit := a, qf_Offset := b\<rparr>) = matchesFilter pf marshal f"
    unfolding matchesFilter_def [abs_def] by (cases f) (simp only: query_filter.simps)
  then show ?thesis by (simp add: matchAll_def)
qed

interpretation mem_stream: streaming_backend "\<lambda>m f. mem_Stream pf marshal m (\<lambda>_. None) f" "matchAll pf marshal" for pf marshal
proof unfold_locales
  fix m :: memory_logger and f and fn :: "event \<Rightarrow> export \<Rightarrow> goerr option \<times> export" and acc
  show "mem_Stream pf marshal m (\<lambda>_. None) f fn acc = visit (\<lambda>_. None) 0 fn (matchAll pf marshal m f) acc"
    using visit_index [of 1 fn] by (simp add: mem_Stream_def)
qed (rule matchAll_whole)

definition pg_stable_Stream :: "float_parser \<Rightarrow> codec \<Rightarrow> pg_db \<Rightarrow> query_filter \<Rightarrow> 'a stream_fn" where
  "pg_stable_Stream pf cd db f fn acc =
     (case pg_Stream pf cd (\<lambda>_. None) (\<lambda>_. None) (\<lambda>_. db) f fn acc of Some r \<Rightarrow> r | None \<Rightarrow> (Some ErrDeadlineExceeded, acc))"

lemma pg_stable_visits: "pg_Stream pf cd (\<lambda>_. None) (\<lambda>_. None) (\<lambda>_. db) f fn acc = Some (visit (\<lambda>_. None) 0 fn (pg_all pf cd db f) acc)"
  using stream_pages_all [where n = 0 and k = 0] by (simp add: pg_Stream_def)

interpretation pg_stream: streaming_backend "pg_stable_Stream pf cd" "pg_all pf cd" for pf cd
  by unfold_locales (simp_all add: pg_stable_Stream_def pg_stable_visits pg_all_offset)

interpretation async_stream: streaming_backend "\<lambda>db. async_Stream (Some (pg_stable_Stream pf cd db)) (pg_Query pf cd None db)" "pg_all pf cd" for pf cd
  by unfold_locales (simp_all add: async_Stream_def pg_stream.stream_visits pg_all_offset)


section \<open>Parsed filters\<close>

definition wf_json_filter :: "json_path_filter \<Rightarrow> bool" where
  "wf_json_filter jf \<longleftrightarrow> IsAllowedJSONSource (jf_Source jf) \<and> validPath (jf_Path jf) \<and> jf_Value jf \<noteq> [] \<and>
     list_all (\<lambda>seg. CHR ''.'' \<notin> set seg) (jf_Path jf) \<and>
     (if jf_Source jf = ''header'' then length (jf_Path jf) = 1 \<and> canonical_key (jf_Path jf ! 0) = jf_Path jf ! 0 else True)"

abbreviation code :: "char \<Rightarrow> nat" where "code c \<equiv> of_char c"

lemma upper_char_cases: "(97 \<le> code c \<and> code c \<le> 122 \<and> code (upper_char c) = code c - 32) \<or> \<not> (97 \<le> code c \<and> code c \<le> 122) \<and> upper_char c = c"
  and lower_char_cases: "(65 \<le> code c \<and> code c \<le> 90 \<and> code (lower_char c) = code c + 32) \<or> \<not> (65 \<le> code c \<and> code c \<le> 90) \<and> lower_char c = c"
  by (auto simp: upper_char_def lower_char_def Let_def)

lemma case_idem: "upper_char (upper_char c) = upper_char c" "lower_char (lower_char c) = lower_char c"
  using upper_char_cases [of c] lower_char_cases [of c]
    upper_char_cases [of "upper_char c"] lower_char_cases [of "lower_char c"] by auto

text \<open>What holds of a character that is not a letter, and of all letters alike, is kept by the case
  conversions.\<close>

lemma case_keeps:
  assumes "\<And>c. 65 \<le> code c \<and> code c \<le> 90 \<or> 97 \<le> code c \<and> code c \<le> 122 \<Longrightarrow> P c = b"
  shows "P (upper_char c) = P c" and "P (lower_char c) = P c"
proof -
  show "P (upper_char c) = P c"
    using upper_char_cases [of c] assms [of c] assms [of "upper_char c"] by fastforce
  show "P (lower_char c) = P c"
    using lower_char_cases [of c] assms [of c] assms [of "lower_char c"] by fastforce
qed

lemma char_case_keeps:
  "(upper_char c = CHR ''-'') = (c = CHR ''-'')" "(lower_char c = CHR ''-'') = (c = CHR ''-'')"
  "(CHR ''.'' = upper_char c) = (CHR ''.'' = c)" "(CHR ''.'' = lower_char c) = (CHR ''.'' = c)"
  "plain_byte (upper_char c) = plain_byte c" "plain_byte (lower_char c) = plain_byte c"
  "valid_header_byte (upper_char c) = valid_header_byte c" "valid_header_byte (lower_char c) = valid_header_byte c"
proof -
  have d: "(c = CHR ''-'') = False" "(CHR ''.'' = c) = False" "plain_byte c = True" "valid_header_byte c = True"
    if "65 \<le> code c \<and> code c \<le> 90 \<or> 97 \<le> code c \<and> code c \<le> 122" for c
    using that by (auto simp: Let_def valid_header_byte_def plain_byte_def)
  show "(upper_char c = CHR ''-'') = (c = CHR ''-'')" "(lower_char c = CHR ''-'') = (c = CHR ''-'')"
    using case_keeps [of "\<lambda>c. c = CHR ''-''" False c] d(1) by blast+
  show "(CHR ''.'' = upper_char c) = (CHR ''.'' = c)" "(CHR ''.'' = lower_char c) = (CHR ''.'' = c)"
    using case_keeps [of "\<lambda>c. CHR ''.'' = c" False c] d(2) by blast+
  show "plain_byte (upper_char c) = plain_byte c" "plain_byte (lower_char c) = plain_byte c"
    using case_keeps [of plain_byte True c] d(3) by blast+
  show "valid_header_byte (upper_char c) = valid_header_byte c" "valid_header_byte (lower_char c) = valid_header_byte c"
    using case_keeps [of valid_header_byte True c] d(4) by blast+
qed

lemma canonical_bytes_keeps:
  "canonical_bytes b (canonical_bytes b s) = canonical_bytes b s"
  "canonical_bytes b s = [] \<longleftrightarrow> s = []"
  "CHR ''.'' \<in> set (canonical_bytes b s) \<longleftrightarrow> CHR ''.'' \<in> set s"
  "list_all plain_byte (canonical_bytes b s) \<longleftrightarrow> list_all plain_byte s"
  "list_all valid_header_byte (canonical_bytes b s) \<longleftrightarrow> list_all valid_header_byte s"
proof -
  show "canonical_bytes b (canonical_bytes b s) = canonical_bytes b s"
    by (induction s arbitrary: b) (simp_all add: case_idem char_case_keeps(1, 2))
  show "canonical_bytes b s = [] \<longleftrightarrow> s = []" by (cases s) simp_all
  show "CHR ''.'' \<in> set (canonical_bytes b s) \<longleftrightarrow> CHR ''.'' \<in> set s"
    by (induction s arbitrary: b) (simp_all add: char_case_keeps(3, 4))
  show "list_all plain_byte (canonical_bytes b s) \<longleftrightarrow> list_all plain_byte s"
  proof (induction s arbitrary: b)
    case (Cons c s)
    show ?case by (cases b) (simp_all only: canonical_bytes.simps list.pred_inject(2) char_case_keeps(5, 6) if_True if_False Cons.IH)
  qed simp
  show "list_all valid_header_byte (canonical_bytes b s) \<longleftrightarrow> list_all valid_header_byte s"
    by (induction s arbitrary: b) (simp_all add: char_case_keeps(7, 8))
qed

lemma canonical_key_keeps:
  "canonical_key (canonical_key s) = canonical_key s"
  "canonical_key s = [] \<longleftrightarrow> s = []"
  "CHR ''.'' \<in> set (canonical_key s) \<longleftrightarrow> CHR ''.'' \<in> set s"
  "list_all plain_byte (canonical_key s) \<longleftrightarrow> list_all plain_byte s"
  unfolding canonical_key_def by (simp_all add: canonical_bytes_keeps)

lemma split_path_no_dot: "list_all (\<lambda>seg. CHR ''.'' \<notin> set seg) (SplitJSONPath s)"
  using split_on_no_sep [of _ "CHR ''.''" s] by (auto simp: SplitJSONPath_def list_all_iff)

lemma json_filters_wf: "jf \<in> set (json_filters_of (k, vs)) \<Longrightarrow> wf_json_filter jf"
proof -
  assume jf: "jf \<in> set (json_filters_of (k, vs))"
  have "cut_at CHR ''.'' k \<noteq> None"
  proof
    assume "cut_at CHR ''.'' k = None"
    with jf show False unfolding json_filters_of_def by (cases "json_param_key k") simp_all
  qed
  then obtain source rest where cut: "cut_at CHR ''.'' k = Some (source, rest)" by auto
  from jf have src: "IsAllowedJSONSource source" "validPath (SplitJSONPath rest)" "\<not> (source = ''header'' \<and> length (SplitJSONPath rest) \<noteq> 1)"
    unfolding json_filters_of_def prod.case cut option.case Let_def by (simp_all split: if_splits)
  from jf have j: "jf \<in> (\<lambda>v. \<lparr>jf_Source = source, jf_Path = if source = ''header'' then [canonical_key (SplitJSONPath rest ! 0)]
        else SplitJSONPath rest, jf_Value = v\<rparr>) ` {v \<in> set vs. v \<noteq> []}"
    unfolding json_filters_of_def prod.case cut option.case Let_def by (simp split: if_splits)
  show ?thesis
  proof (cases "source = ''header''")
    case True
    with src(3) obtain p where "SplitJSONPath rest = [p]" by (auto simp: length_Suc_conv)
    with True src j split_path_no_dot [of rest] show ?thesis
      by (auto simp: wf_json_filter_def validPath_def canonical_key_keeps)
  next
    case False
    with src j split_path_no_dot [of rest] show ?thesis by (auto simp: wf_json_filter_def)
  qed
qed

text \<open>C36: Every filter parsed from a URL is well-formed, whatever the query string: each JSON filter
  names an allowed source, a path of non-empty segments without dots or control bytes (exactly one
  canonical header name for a header filter) and a non-empty value; each \<open>has\<close> key is on the allow list;
  limit and offset are non-negative and fit in 64 bits.\<close>

theorem parsed_filter_wf:
  "list_all wf_json_filter (qf_JSONFilters (parseQueryFilter pp r)) \<and>
   list_all IsAllowedHasKey (qf_HasKeys (parseQueryFilter pp r)) \<and>
   0 \<le> qf_Limit (parseQueryFilter pp r) \<and> qf_Limit (parseQueryFilter pp r) \<le> max_int64 \<and>
   0 \<le> qf_Offset (parseQueryFilter pp r) \<and> qf_Offset (parseQueryFilter pp r) \<le> max_int64"
proof -
  have "atoi_value s \<le> max_int64" for s
    by (simp add: atoi_value_def Let_def split: option.split)
  then show ?thesis
    using json_filters_wf
    by (auto simp: parseQueryFilter_def Let_def list_all_iff has_keys_of_def split: if_splits)
qed

text \<open>The query parameter a filter is written as.\<close>

definition query_param :: "json_path_filter \<Rightarrow> string \<times> string list" where
  "query_param jf = (jf_Source jf @ ''.'' @ join ''.'' (jf_Path jf), [jf_Value jf])"

lemma json_filters_of_param: "wf_json_filter jf \<Longrightarrow> json_filters_of (query_param jf) = [jf]"
proof -
  assume wf: "wf_json_filter jf"
  let ?k = "jf_Source jf @ ''.'' @ join ''.'' (jf_Path jf)"
  have ne: "jf_Path jf \<noteq> []" using wf by (auto simp: wf_json_filter_def validPath_def)
  have src: "jf_Source jf = ''param'' \<or> jf_Source jf = ''response'' \<or> jf_Source jf = ''header''"
    using wf by (simp add: wf_json_filter_def IsAllowedJSONSource_def)
  then have cut: "cut_at CHR ''.'' ?k = Some (jf_Source jf, join ''.'' (jf_Path jf))"
    by (elim disjE) (simp_all add: cut_at_def)
  have "join ''.'' (jf_Path jf) \<noteq> []"
    using ne wf by (cases "(''.'', jf_Path jf)" rule: join.cases) (auto simp: wf_json_filter_def validPath_def)
  then have split: "SplitJSONPath (join ''.'' (jf_Path jf)) = jf_Path jf"
    using ne wf by (simp add: SplitJSONPath_def split_on_join wf_json_filter_def list_all_iff)
  have pre: "json_param_key ?k" using src by (elim disjE) (simp_all add: json_param_key_def)
  show ?thesis
  proof (cases "jf_Source jf = ''header''")
    case True
    with wf obtain p where "jf_Path jf = [p]" "canonical_key p = p" by (auto simp: wf_json_filter_def length_Suc_conv)
    with True wf pre cut split \<open>join _ _ \<noteq> []\<close> show ?thesis
      by (cases jf) (simp add: json_filters_of_def query_param_def wf_json_filter_def)
  next
    case False
    with wf pre cut split \<open>join _ _ \<noteq> []\<close> show ?thesis
      by (cases jf) (simp add: json_filters_of_def query_param_def wf_json_filter_def)
  qed
qed


definition get_request :: "(string \<times> string list) list \<Rightarrow> http_request" where
  "get_request q = \<lparr>rq_Method = ''GET'', rq_Path = ''/'', rq_Header = [], rq_Query = q, rq_Cookies = [], rq_RemoteAddr = []\<rparr>"


section \<open>No secret in the server view\<close>

definition with_secrets :: "string \<Rightarrow> string \<Rightarrow> string list \<Rightarrow> string \<Rightarrow> string \<Rightarrow> config \<Rightarrow> config" where
  "with_secrets cookie client keys user host cfg = cfg
     \<lparr>cf_Portal := (cf_Portal cfg)\<lparr>po_CookieSecret := cookie\<rparr>,
      cf_OIDC := (cf_OIDC cfg)\<lparr>oc_ClientSecret := client\<rparr>,
      cf_APIKeys := (cf_APIKeys cfg)\<lparr>ak_File := map2 (\<lambda>e k. e\<lparr>fk_Key := k\<rparr>) (ak_File (cf_APIKeys cfg)) keys\<rparr>,
      cf_Database := (cf_Database cfg)\<lparr>db_URL := user @ CHR ''@'' # host\<rparr>\<rparr>"

lemma last_index_at: "c \<notin> set host \<Longrightarrow> last_index c (user @ c # host) = Some (length user)"
proof -
  assume "c \<notin> set host"
  then have "takeWhile (\<lambda>x. x \<noteq> c) (rev host @ c # rev user) = rev host" by (subst takeWhile_append2) auto
  then show ?thesis by (simp add: last_index_def)
qed

lemma redacted_keys:
  assumes "list_all (\<lambda>k. k \<noteq> []) ks"
  shows "map (\<lambda>e. e\<lparr>fk_Key := redactIfSet (fk_Key e)\<rparr>) (map2 (\<lambda>e k. e\<lparr>fk_Key := k\<rparr>) (es :: file_api_key list) ks) =
    map (\<lambda>e. e\<lparr>fk_Key := redacted\<rparr>) (take (length ks) es)"
  using assms by (induction es ks rule: list_induct2') (simp_all add: redactIfSet_def)

lemma redact_config_secrets:
  assumes "cookie \<noteq> []" "client \<noteq> []" "list_all (\<lambda>k. k \<noteq> []) keys" "user \<noteq> []" "CHR ''@'' \<notin> set host"
  shows "redact_config (with_secrets cookie client keys user host cfg) = cfg
     \<lparr>cf_Portal := (cf_Portal cfg)\<lparr>po_CookieSecret := redacted\<rparr>,
      cf_OIDC := (cf_OIDC cfg)\<lparr>oc_ClientSecret := redacted\<rparr>,
      cf_APIKeys := (cf_APIKeys cfg)\<lparr>ak_File := map (\<lambda>e. e\<lparr>fk_Key := redacted\<rparr>) (take (length keys) (ak_File (cf_APIKeys cfg)))\<rparr>,
      cf_Database := (cf_Database cfg)\<lparr>db_URL := redacted @ CHR ''@'' # host\<rparr>\<rparr>"
proof -
  have "redactIfSet cookie = redacted" "redactIfSet client = redacted" using assms by (simp_all add: redactIfSet_def)
  then show ?thesis
    using assms(4) redacted_keys [OF assms(3)]
    by (simp add: redact_config_def with_secrets_def last_index_at [OF assms(5)] Let_def del: map_map)
qed

text \<open>C35: The server view shows no secret. Two configurations that differ only in the (non-empty)
  cookie secret, OIDC client secret, file API keys and the credentials part of the database URL, and
  share the host part after the last \<open>@\<close>, get the same response from the server endpoint: nothing of
  those values can be read off it.\<close>

theorem server_hides_secrets:
  assumes "cookie \<noteq> []" "client \<noteq> []" "list_all (\<lambda>k. k \<noteq> []) keys" "user \<noteq> []"
    and "cookie' \<noteq> []" "client' \<noteq> []" "list_all (\<lambda>k. k \<noteq> []) keys'" "user' \<noteq> []"
    and "length keys = length keys'" and "CHR ''@'' \<notin> set host"
  shows "server b render (with_secrets cookie client keys user host cfg) c r l =
    server b render (with_secrets cookie' client' keys' user' host cfg) c r l"
  using assms(9) redact_config_secrets [OF assms(1-4, 10), of cfg] redact_config_secrets [OF assms(5-8, 10), of cfg]
  by (simp add: server_def sanitizedConfig_def)

theorem server_hides_secrets_witness:
  "server \<lparr>bi_Version = ''1'', bi_Commit = ''c'', bi_Date = ''d''\<rparr> (\<lambda>cfg. VStr (db_URL (cf_Database cfg) @ po_CookieSecret (cf_Portal cfg)))
     (with_secrets ''abc'' ''s'' [''k1''] ''postgres://u:pw'' ''db/x'' min_config) background_ctx (get_request []) () =
   server \<lparr>bi_Version = ''1'', bi_Commit = ''c'', bi_Date = ''d''\<rparr> (\<lambda>cfg. VStr (db_URL (cf_Database cfg) @ po_CookieSecret (cf_Portal cfg)))
     (with_secrets ''xyz'' ''t'' [''k2''] ''postgres://u:other'' ''db/x'' min_config) background_ctx (get_request []) ()"
  by (rule server_hides_secrets) simp_all

text \<open>A database URL without an \<open>@\<close> (a keyword DSN, or a password in the query) is shown as it is.\<close>

lemma dsn_without_at_shown: "CHR ''@'' \<notin> set (db_URL (cf_Database cfg)) \<Longrightarrow>
    db_URL (cf_Database (redact_config cfg)) = db_URL (cf_Database cfg)"
  by (simp add: redact_config_def last_index_def Let_def)

end
