(* ===== verification/Http_Replay.thy ===== *)
theory Http_Replay
  imports Http_Portal
begin

text \<open>
  Replay of a captured call (\<open>auditReplay\<close> of \<open>pkg/httpsrv/portal_api.go\<close>) and the state the
  writing handlers share with \<open>Http_Admin\<close>. The in-process
  MCP client is the record \<open>mcp_client\<close>: the errors of the two connects, and the call, which acts on
  a state of the tools. The other state is that of the audit backend, of the limiter (created on
  first use) and of the key table. \<open>clock n\<close> is the n-th reading of the clock in a request and
  \<open>uids n\<close> the n-th generated uuid.
\<close>

section \<open>Copies and placeholders\<close>

fun deepCopyAny :: "goval \<Rightarrow> goval" where
  "deepCopyAny (VMap m) = VMap (map (\<lambda>(k, v). (k, deepCopyAny v)) m)"
| "deepCopyAny VNilMap = VNilMap"
| "deepCopyAny (VSlice s) = VSlice (map deepCopyAny s)"
| "deepCopyAny v = v"

definition deepCopyMap :: "gomap \<Rightarrow> gomap" where
  "deepCopyMap m = map_option (map (\<lambda>(k, v). (k, deepCopyAny v))) m"

fun redactedAny :: "goval \<Rightarrow> bool" where
  "redactedAny (VStr t) \<longleftrightarrow> t = redacted"
| "redactedAny (VMap m) \<longleftrightarrow> list_ex (\<lambda>(k, sub). redactedAny sub) m"
| "redactedAny (VSlice s) \<longleftrightarrow> list_ex redactedAny s"
| "redactedAny _ \<longleftrightarrow> False"

definition hasRedactedParam :: "(string \<times> goval) list \<Rightarrow> bool" where
  "hasRedactedParam params \<longleftrightarrow> list_ex (\<lambda>(k, v). redactedAny v) params"

definition identityKey :: "identity option \<Rightarrow> string" where
  "identityKey i = (case i of
     None \<Rightarrow> []
   | Some i \<Rightarrow> if id_Subject i \<noteq> [] then id_AuthType i @ '':'' @ id_Subject i else id_AuthType i)"

section \<open>Recording a call\<close>

record 't mcp_client =
  mc_serverConnect :: "goerr option"
  mc_clientConnect :: "goerr option"
  mc_CallTool :: "ctx \<Rightarrow> string \<Rightarrow> gomap \<Rightarrow> 't \<Rightarrow> (call_tool_result option \<times> goerr option) \<times> 't"

record ('t, 'l) api_state =
  as_tools :: 't
  as_log :: 'l
  as_limiter :: "limiter option"
  as_keys :: "db_key list"

definition measureResultBlocks :: "call_tool_result \<Rightarrow> int \<times> int" where
  "measureResultBlocks res =
     (fold (\<lambda>c chars. case c of TextContent t \<Rightarrow> chars + int (length t) | _ \<Rightarrow> chars) (cr_Content res) 0,
      int (length (cr_Content res)))"

text \<open>The converter of \<open>portal_api.go\<close>, written out here as it is there.\<close>

text \<open>As in the middleware: an SDK content encodes as an object, so a nil map does not arise, and the text of
  an encoding error is left abstract.\<close>

definition portal_content_block :: "codec \<Rightarrow> content \<Rightarrow> goval" where
  "portal_content_block cd c = (case c of
     TextContent t \<Rightarrow> VMap [(''type'', VStr ''text''), (''text'', VStr t)]
   | ImageContent mime d \<Rightarrow> VMap [(''type'', VStr ''image''), (''mimeType'', VStr mime), (''data'', VBytes d)]
   | AudioContent mime d \<Rightarrow> VMap [(''type'', VStr ''audio''), (''mimeType'', VStr mime), (''data'', VBytes d)]
   | OtherContent v \<Rightarrow>
       (case cd_marshal cd v of
          None \<Rightarrow> VMap [(''type'', VStr ''_marshal_error''), (''marshal_error'', VStr ''json'')]
        | Some b \<Rightarrow>
            (case unmarshal_map cd b of
               Inl e \<Rightarrow> VMap [(''type'', VStr ''_unmarshal_error''), (''unmarshal_error'', VStr (err_text e)), (''raw'', VStr b)]
             | Inr m \<Rightarrow>
                 (let m = (case m of None \<Rightarrow> [] | Some m \<Rightarrow> m)
                  in VMap (if map_of m ''type'' = None then AList.update ''type'' (VStr ''_no_type'') m else m)))))"

definition portal_callToolResultToMap :: "codec \<Rightarrow> call_tool_result \<Rightarrow> (string \<times> goval) list" where
  "portal_callToolResultToMap cd cr =
     (let out = [(''isError'', VBool (cr_IsError cr))];
          out = out @ [(''content'', VSlice (map (portal_content_block cd) (cr_Content cr)))]
      in if cr_StructuredContent cr \<noteq> VNil then out @ [(''structuredContent'', cr_StructuredContent cr)] else out)"

text \<open>Success flag, message and category, as both recorders compute them.\<close>

definition call_succeeded :: "call_tool_result option \<Rightarrow> goerr option \<Rightarrow> bool" where
  "call_succeeded res callErr \<longleftrightarrow> callErr = None \<and> (case res of None \<Rightarrow> True | Some r \<Rightarrow> \<not> cr_IsError r)"

definition call_error :: "call_tool_result option \<Rightarrow> goerr option \<Rightarrow> string \<times> string" where
  "call_error res callErr =
     (let e = (if (case res of None \<Rightarrow> False | Some r \<Rightarrow> cr_IsError r) \<and> callErr = None
               then (''tool returned IsError'', ''tool'') else ([], []))
      in case callErr of None \<Rightarrow> e | Some x \<Rightarrow> (err_text x, ''handler''))"

definition call_payload ::
  "codec \<Rightarrow> string list \<Rightarrow> http_request \<Rightarrow> gomap \<Rightarrow> call_tool_result option \<Rightarrow> goerr option \<Rightarrow> string \<Rightarrow> payload" where
  "call_payload cd redactKeys r args res callErr replayedFrom = zero_payload
     \<lparr>pl_JSONRPCMethod := ''tools/call'', pl_RequestRemoteAddr := rq_RemoteAddr r,
      pl_RequestParams := SanitizeParameters (box_map args) redactKeys, pl_ReplayedFrom := replayedFrom,
      pl_ResponseResult := map_option (portal_callToolResultToMap cd) res,
      pl_ResponseError := (case callErr of
          None \<Rightarrow> None
        | Some e \<Rightarrow> Some [(''message'', VStr (err_text e)), (''category'', VStr (snd (call_error res callErr)))])\<rparr>"

definition finish_event :: "call_tool_result option \<Rightarrow> goerr option \<Rightarrow> int \<Rightarrow> event \<Rightarrow> event" where
  "finish_event res callErr durMS ev =
     (let (errMsg, errCategory) = call_error res callErr;
          ev = ev\<lparr>ev_ErrorCategory := errCategory\<rparr>;
          ev = WithResult (call_succeeded res callErr) errMsg durMS ev
      in case res of None \<Rightarrow> ev | Some r \<Rightarrow> (case measureResultBlocks r of (chars, blocks) \<Rightarrow> WithResponseSize chars blocks ev))"

definition replay_event ::
  "codec \<Rightarrow> string list \<Rightarrow> gotime \<Rightarrow> (nat \<Rightarrow> string) \<Rightarrow> http_request \<Rightarrow> event \<Rightarrow> gomap \<Rightarrow> identity option \<Rightarrow>
   call_tool_result option \<Rightarrow> goerr option \<Rightarrow> int \<Rightarrow> event" where
  "replay_event cd redactKeys now uids r original args i res callErr durMS =
     (let ev = (NewEvent now (ev_ToolName original))\<lparr>ev_ID := uids 0\<rparr>;
          ev = WithParameters (SanitizeParameters (box_map args) redactKeys) (WithToolGroup (ev_ToolGroup original)
                 (WithUser i (WithUserAgent (header_get (rq_Header r) ''User-Agent'') (EvRemoteAddr (rq_RemoteAddr r)
                   (WithTransport ''http'' (WithSource ''portal-replay'' (EvRequestID (uids 1) ev)))))))
      in (finish_event res callErr durMS ev)\<lparr>ev_Payload := Some (call_payload cd redactKeys r args res callErr (ev_ID original))\<rparr>)"

text \<open>The error of \<open>Log\<close> is only logged.\<close>

definition recordReplayAudit ::
  "codec \<Rightarrow> string list \<Rightarrow> 'l audit_api option \<Rightarrow> gotime \<Rightarrow> (nat \<Rightarrow> string) \<Rightarrow> http_request \<Rightarrow> event \<Rightarrow> gomap \<Rightarrow> identity option \<Rightarrow>
   call_tool_result option \<Rightarrow> goerr option \<Rightarrow> int \<Rightarrow> 'l \<Rightarrow> string \<times> 'l" where
  "recordReplayAudit cd redactKeys au now uids r original args i res callErr durMS l = (case au of
     None \<Rightarrow> ([], l)
   | Some au \<Rightarrow>
       (let ev = replay_event cd redactKeys now uids r original args i res callErr durMS
        in (ev_ID ev, snd (aa_Log au ev l))))"

section \<open>Replay\<close>

definition limiterForReplay :: "limiter option \<Rightarrow> limiter" where
  "limiterForReplay l = (case l of None \<Rightarrow> newIdentityRateLimiter replayBurst replayRefill | Some l \<Rightarrow> l)"

record ('t, 'l) portal_api =
  pt_registry :: "registry option"
  pt_audit :: "'l audit_api"
  pt_mcp :: "'t mcp_client option"
  pt_redactKeys :: "string list"

definition NewPortalAPI ::
  "registry option \<Rightarrow> 'l audit_api \<Rightarrow> 't mcp_client option \<Rightarrow> string list \<Rightarrow> ('t, 'l) portal_api" where
  "NewPortalAPI registry auditLog mcpServer redactKeys =
     \<lparr>pt_registry = registry, pt_audit = auditLog, pt_mcp = mcpServer, pt_redactKeys = redactKeys\<rparr>"

definition rate_limited :: "string \<Rightarrow> limiter \<Rightarrow> http_response" where
  "rate_limited idKey l =
     (let retry = duration_round second (RetryAfter idKey l)
      in set_headers [(''Retry-After'', show_int (retry div second))]
           (writeError 429 (ErrMsg (''replay rate limit exceeded; retry in '' @ duration_String retry))))"

text \<open>From the granted token on.\<close>

definition replay_call ::
  "codec \<Rightarrow> (call_tool_result \<Rightarrow> goval) \<Rightarrow> (nat \<Rightarrow> gotime) \<Rightarrow> (nat \<Rightarrow> string) \<Rightarrow> ('t, 'l) portal_api \<Rightarrow> 't mcp_client \<Rightarrow>
   string \<Rightarrow> identity \<Rightarrow> event \<Rightarrow> gomap \<Rightarrow> ('t, 'l) api_state http_handler" where
  "replay_call cd rv clock uids p mc eventID i original params c r s =
     (let args = deepCopyMap params;
          c = WithIdentity c (Some i)
      in case mc_serverConnect mc of
           Some e \<Rightarrow> (writeError 500 e, s)
         | None \<Rightarrow>
             (case mc_clientConnect mc of
                Some e \<Rightarrow> (writeError 500 e, s)
              | None \<Rightarrow>
                  (let ((res, callErr), t) = mc_CallTool mc c (ev_ToolName original) args (as_tools s);
                       elapsed = to_millis (time_sub (clock 2) (clock 1));
                       (newID, l) = recordReplayAudit cd (pt_redactKeys p) (Some (pt_audit p)) (clock 3) uids r original args (Some i)
                                      res callErr elapsed (as_log s);
                       success = call_succeeded res callErr;
                       out = [(''replay_event_id'', VStr newID), (''replayed_from'', VStr eventID),
                              (''result'', case res of None \<Rightarrow> VNil | Some x \<Rightarrow> rv x), (''success'', VBool success)] @
                             (case callErr of None \<Rightarrow> [] | Some e \<Rightarrow> [(''error'', VStr (err_text e))])
                   in (json_response (if success then 200 else 502) (VMap out), s\<lparr>as_tools := t, as_log := l\<rparr>))))"

definition auditReplay ::
  "portal_parsers \<Rightarrow> codec \<Rightarrow> (call_tool_result \<Rightarrow> goval) \<Rightarrow> (nat \<Rightarrow> gotime) \<Rightarrow> (nat \<Rightarrow> string) \<Rightarrow> ('t, 'l) portal_api \<Rightarrow> string \<Rightarrow>
   ('t, 'l) api_state http_handler" where
  "auditReplay pp cd rv clock uids p rawID c r s =
     (case pt_mcp p of
        None \<Rightarrow> (writeError 503 (ErrMsg ''mcp server not available''), s)
      | Some mc \<Rightarrow>
      (case pp_uuid pp rawID of
        None \<Rightarrow> (writeError 400 (ErrMsg ''event id is not a valid uuid''), s)
      | Some eventID \<Rightarrow>
      (case (GetIdentity c, identityKey (GetIdentity c)) of
        (None, _) \<Rightarrow> (writeError 401 (ErrMsg ''authenticated identity required''), s)
      | (Some i, []) \<Rightarrow> (writeError 401 (ErrMsg ''authenticated identity required''), s)
      | (Some i, x # xs) \<Rightarrow>
      (case aa_Query (pt_audit p) (as_log s) (zero_filter\<lparr>qf_EventID := eventID, qf_Limit := 1\<rparr>) of
        Inl e \<Rightarrow> (writeError 500 e, s)
      | Inr [] \<Rightarrow> (writeError 404 (ErrMsg ''event not found''), s)
      | Inr (original # _) \<Rightarrow>
      (case aa_GetPayload (pt_audit p) of
        None \<Rightarrow> (writeError 503 (ErrMsg ''replay requires a payload-capable audit backend''), s)
      | Some getPayload \<Rightarrow>
      (case getPayload (as_log s) eventID of
        Inl _ \<Rightarrow> (writeError 500 (ErrMsg ''failed to fetch original payload''), s)
      | Inr payload \<Rightarrow>
      (case Option.bind payload pl_RequestParams of
        None \<Rightarrow> (writeError 400 (ErrMsg ''original event has no captured request params; cannot replay''), s)
      | Some params \<Rightarrow>
          if hasRedactedParam params
          then (writeError 400 (ErrMsg (''original event has redacted parameter values; replay would not exercise the same call. '' @
                  ''Re-stage manually via Try-It'')), s)
          else if (case pt_registry p of None \<Rightarrow> False | Some reg \<Rightarrow> \<not> list_ex (\<lambda>m. tm_Name m = ev_ToolName original) (Registry_All reg))
          then (writeError 400 (ErrMsg (''tool '' @ go_quote (ev_ToolName original) @ '' is no longer registered'')), s)
          else
            (case Allow (clock 0) (x # xs) (limiterForReplay (as_limiter s)) of
               (ok, l) \<Rightarrow>
                 (let s = s\<lparr>as_limiter := Some l\<rparr>
                  in if \<not> ok then (rate_limited (x # xs) l, s)
                     else replay_call cd rv clock uids p mc eventID i original (Some params) c r s)))))))))"

section \<open>Basic facts\<close>

lemma deepCopyAny_id [simp]: "deepCopyAny v = v"
proof (induction v rule: deepCopyAny.induct)
  case (1 m)
  then show ?case by (auto intro!: map_idI)
qed (auto intro!: map_idI)

lemma deepCopyMap_id [simp]: "deepCopyMap m = m"
  by (cases m) (simp_all add: deepCopyMap_def split_beta)

lemma walk_redacted: "walk v pos = Some (VStr redacted) \<Longrightarrow> redactedAny v"
proof (induction v pos rule: walk.induct)
  case (2 m k p)
  then show ?case by (auto simp: list_ex_iff split: option.splits dest!: map_of_SomeD)
next
  case (3 s i p)
  then show ?case by (auto simp: list_ex_iff split: if_splits intro!: bexI [of _ "s ! i"])
qed simp_all

lemma no_redacted_param: "\<not> hasRedactedParam m \<Longrightarrow> walk (VMap m) pos \<noteq> Some (VStr redacted)"
  using walk_redacted [of "VMap m" pos] by (auto simp: hasRedactedParam_def)

lemma finish_event_fields [simp]:
  "ev_ID (finish_event res e ms ev) = ev_ID ev" "ev_Source (finish_event res e ms ev) = ev_Source ev"
  "ev_ToolName (finish_event res e ms ev) = ev_ToolName ev" "ev_UserSubject (finish_event res e ms ev) = ev_UserSubject ev"
  "ev_ToolGroup (finish_event res e ms ev) = ev_ToolGroup ev" "ev_Parameters (finish_event res e ms ev) = ev_Parameters ev"
  "ev_Success (finish_event res e ms ev) = call_succeeded res e" "ev_ErrorCategory (finish_event res e ms ev) = snd (call_error res e)"
  by (simp_all add: finish_event_def event_builder_defs Let_def split_beta split: option.splits)

lemma replay_event_fields [simp]:
  "ev_ID (replay_event cd ks now uids r original args i res e ms) = uids 0"
  "ev_Source (replay_event cd ks now uids r original args i res e ms) = ''portal-replay''"
  "ev_ToolName (replay_event cd ks now uids r original args i res e ms) = ev_ToolName original"
  "ev_Success (replay_event cd ks now uids r original args i res e ms) = call_succeeded res e"
  "ev_Payload (replay_event cd ks now uids r original args i res e ms) = Some (call_payload cd ks r args res e (ev_ID original))"
  by (simp_all add: replay_event_def event_builder_defs WithUser_def NewEvent_def Let_def split: option.splits)

lemma replay_event_user [simp]:
  "ev_UserSubject (replay_event cd ks now uids r original args (Some i) res e ms) = id_Subject i"
  by (simp add: replay_event_def event_builder_defs WithUser_def Let_def)

section \<open>When a replay runs\<close>

text \<open>A request that passed validation: the client, the event id, the caller, the original event and
  its captured parameters.\<close>

definition replayable ::
  "portal_parsers \<Rightarrow> ('t, 'l) portal_api \<Rightarrow> string \<Rightarrow> ctx \<Rightarrow> 'l \<Rightarrow> 't mcp_client \<Rightarrow> string \<Rightarrow> identity \<Rightarrow> event \<Rightarrow>
   (string \<times> goval) list \<Rightarrow> bool" where
  "replayable pp p rawID c l mc eventID i original params \<longleftrightarrow>
     pt_mcp p = Some mc \<and> pp_uuid pp rawID = Some eventID \<and> GetIdentity c = Some i \<and> identityKey (Some i) \<noteq> [] \<and>
     (\<exists>rest. aa_Query (pt_audit p) l (zero_filter\<lparr>qf_EventID := eventID, qf_Limit := 1\<rparr>) = Inr (original # rest)) \<and>
     (\<exists>getPayload pl. aa_GetPayload (pt_audit p) = Some getPayload \<and> getPayload l eventID = Inr (Some pl) \<and>
        pl_RequestParams pl = Some params) \<and>
     \<not> hasRedactedParam params \<and>
     (case pt_registry p of None \<Rightarrow> True | Some reg \<Rightarrow> ev_ToolName original \<in> tm_Name ` set (Registry_All reg))"

lemma auditReplay_cases:
  assumes "auditReplay pp cd rv clock uids p rawID c r s = (resp, s')"
  shows "(s' = s \<and> rs_Status resp \<in> {400, 401, 404, 500, 503}) \<or>
    (\<exists>mc eventID i original params ok l. replayable pp p rawID c (as_log s) mc eventID i original params \<and>
       Allow (clock 0) (identityKey (Some i)) (limiterForReplay (as_limiter s)) = (ok, l) \<and>
       (resp, s') = (if ok then replay_call cd rv clock uids p mc eventID i original (Some params) c r (s\<lparr>as_limiter := Some l\<rparr>)
                     else (rate_limited (identityKey (Some i)) l, s\<lparr>as_limiter := Some l\<rparr>)))"
proof (cases "s' = s \<and> rs_Status resp \<in> {400, 401, 404, 500, 503}")
  case False
  have st: "rs_Status (writeError n e) = n" for n e by (simp add: writeError_def json_response_def)
  note run = assms [unfolded auditReplay_def]
  from run False obtain mc where mc: "pt_mcp p = Some mc" by (cases "pt_mcp p") (auto simp: st)
  note run = run [unfolded mc option.case]
  from run False obtain eventID where u: "pp_uuid pp rawID = Some eventID" by (cases "pp_uuid pp rawID") (auto simp: st)
  note run = run [unfolded u option.case]
  from run False obtain i where i: "GetIdentity c = Some i" by (cases "GetIdentity c") (auto simp: st)
  note run = run [unfolded i prod.case option.case]
  from run False obtain x xs where k: "identityKey (Some i) = x # xs" by (cases "identityKey (Some i)") (auto simp: st)
  note run = run [unfolded k list.case]
  from run False obtain original rest where
    q: "aa_Query (pt_audit p) (as_log s) (zero_filter\<lparr>qf_EventID := eventID, qf_Limit := 1\<rparr>) = Inr (original # rest)"
    by (auto simp: st split: sum.splits list.splits)
  note run = run [unfolded q sum.case list.case]
  from run False obtain getPayload where g: "aa_GetPayload (pt_audit p) = Some getPayload"
    by (cases "aa_GetPayload (pt_audit p)") (auto simp: st)
  note run = run [unfolded g option.case]
  from run False obtain payload where pl: "getPayload (as_log s) eventID = Inr payload"
    by (cases "getPayload (as_log s) eventID") (auto simp: st)
  note run = run [unfolded pl sum.case]
  from run False obtain params where ps: "Option.bind payload pl_RequestParams = Some params"
    by (cases "Option.bind payload pl_RequestParams") (auto simp: st)
  note run = run [unfolded ps option.case]
  from run False have nr: "\<not> hasRedactedParam params" by (auto simp: st split: if_splits)
  note run = run [unfolded if_not_P [OF nr]]
  from run False have reg: "\<not> (case pt_registry p of None \<Rightarrow> False | Some reg \<Rightarrow> \<not> list_ex (\<lambda>m. tm_Name m = ev_ToolName original) (Registry_All reg))"
    by (auto simp: st split: if_splits)
  obtain ok l where a: "Allow (clock 0) (x # xs) (limiterForReplay (as_limiter s)) = (ok, l)" by fastforce
  have "replayable pp p rawID c (as_log s) mc eventID i original params"
    using mc u i k q g pl ps nr reg
    by (auto simp: replayable_def bind_eq_Some_conv list_ex_iff split: option.splits intro: image_eqI [OF sym])
  moreover have "(resp, s') = (if ok then replay_call cd rv clock uids p mc eventID i original (Some params) c r (s\<lparr>as_limiter := Some l\<rparr>)
      else (rate_limited (x # xs) l, s\<lparr>as_limiter := Some l\<rparr>))"
    using run [unfolded if_not_P [OF reg] a prod.case Let_def] by (cases ok) simp_all
  ultimately show ?thesis using a k by metis
qed blast

section \<open>A concrete replay\<close>

text \<open>A log with one captured call, a client that counts calls, and parsers that accept everything.\<close>

definition toy_event :: event where
  "toy_event = zero_event\<lparr>ev_ID := ''e1'', ev_ToolName := ''echo'',
     ev_Payload := Some (zero_payload\<lparr>pl_RequestParams := Some [(''message'', VStr ''hi'')]\<rparr>)\<rparr>"

definition toy_portal :: "(nat, memory_logger) portal_api" where
  "toy_portal = \<lparr>pt_registry = Some (Registry_Add (identity_toolkit []) NewRegistry),
     pt_audit = memory_api (\<lambda>_. None) (\<lambda>_. None) ''e2'' (\<lambda>_. None),
     pt_mcp = Some \<lparr>mc_serverConnect = None, mc_clientConnect = None, mc_CallTool = (\<lambda>_ _ _ n. ((None, None), n + 1))\<rparr>,
     pt_redactKeys = []\<rparr>"

definition toy_api_state :: "(nat, memory_logger) api_state" where
  "toy_api_state = \<lparr>as_tools = 0, as_log = \<lparr>ml_events = [toy_event], ml_hub = empty_hub\<rparr>, as_limiter = None, as_keys = []\<rparr>"

definition toy_parsers :: portal_parsers where
  "toy_parsers = \<lparr>pp_uuid = Some, pp_rfc3339 = (\<lambda>_. None), pp_duration = (\<lambda>_. None)\<rparr>"

definition toy_replay :: "string \<Rightarrow> ctx \<Rightarrow> http_response \<times> (nat, memory_logger) api_state" where
  "toy_replay rawID c = auditReplay toy_parsers toy_codec (\<lambda>_. VNil) (\<lambda>_. 7) (\<lambda>_. ''e2'') toy_portal rawID c (get_request []) toy_api_state"

abbreviation toy_ctx :: ctx where
  "toy_ctx \<equiv> WithIdentity background_ctx (Some Anonymous)"

lemma toy_replay_runs: "as_tools (snd (toy_replay ''e1'' toy_ctx)) = 1"
  by code_simp



text \<open>C34: A refused replay is free. If the response is neither 200 nor 502, no tool was called and
  nothing was logged; its status is one of 400, 401, 404, 429, 500 and 503; and unless it is 429 or 500 the
  limiter is untouched, so clicking on rows that cannot be replayed costs no quota.\<close>

theorem replay_refusal_free:
  assumes "auditReplay pp cd rv clock uids p rawID c r s = (resp, s')" and "rs_Status resp \<notin> {200, 502}"
  shows "as_tools s' = as_tools s \<and> as_log s' = as_log s \<and> rs_Status resp \<in> {400, 401, 404, 429, 500, 503} \<and>
    (rs_Status resp \<in> {429, 500} \<or> as_limiter s' = as_limiter s)"
  using auditReplay_cases [OF assms(1)]
proof (elim disjE exE conjE)
  fix mc eventID i original params ok l
  assume run: "(resp, s') = (if ok then replay_call cd rv clock uids p mc eventID i original (Some params) c r (s\<lparr>as_limiter := Some l\<rparr>)
     else (rate_limited (identityKey (Some i)) l, s\<lparr>as_limiter := Some l\<rparr>))"
  show ?thesis
  proof (cases ok)
    case True
    with run assms(2) show ?thesis
      by (auto simp: replay_call_def Let_def json_response_def writeError_def split: option.splits prod.splits if_splits)
  next
    case False
    with run show ?thesis by (simp add: rate_limited_def set_headers_def writeError_def json_response_def Let_def)
  qed
qed auto

theorem replay_refusal_free_witness:
  "rs_Status (fst (toy_replay ''e1'' background_ctx)) = 401 \<and> as_log (snd (toy_replay ''e1'' background_ctx)) = as_log toy_api_state \<and>
   as_limiter (snd (toy_replay ''e1'' background_ctx)) = None"
proof -
  have st: "rs_Status (fst (toy_replay ''e1'' background_ctx)) = 401" by code_simp
  then have "rs_Status (fst (toy_replay ''e1'' background_ctx)) \<notin> {200, 502}" by simp
  from replay_refusal_free [OF surjective_pairing [of "toy_replay ''e1'' background_ctx", unfolded toy_replay_def], folded toy_replay_def, OF this]
  show ?thesis using st by (simp add: toy_api_state_def)
qed

end
