(* ===== verification/Production.thy ===== *)
theory Production
  imports Audit_Pipeline Http_Replay
begin

text \<open>
  The audit logger the portal and the middleware are given by \<open>Build\<close> (\<open>internal/server/server.go\<close>): the asynchronous
  logger over the Postgres store, as an instance of the backend record of \<open>Http_Portal\<close>. Writes go to the
  queue, reads straight to the tables; \<open>io\<close> is what a read's database call returns as error. What the
  portal shows of an event, and whether it replays it, once the worker has written it.
\<close>

section \<open>The backend\<close>

definition pipe_api :: "float_parser \<Rightarrow> codec \<Rightarrow> goerr option \<Rightarrow> pipe audit_api" where
  "pipe_api pf cd io =
     \<lparr>aa_Log = (\<lambda>ev p. (None, p\<lparr>pi_async := fst (async_Log ev (pi_async p))\<rparr>)),
      aa_Query = (\<lambda>p. async_Query (pg_Query pf cd io (pi_db p))), aa_Count = (\<lambda>p. async_Count (pg_Count pf cd io (pi_db p))),
      aa_TimeSeries = (\<lambda>p. async_TimeSeries (pg_TimeSeries io (pi_db p))),
      aa_Breakdown = (\<lambda>p. async_Breakdown (pg_Breakdown io (pi_db p))), aa_Stats = (\<lambda>p. async_Stats (pg_Stats io (pi_db p))),
      aa_GetPayload = Some (\<lambda>p. async_GetPayload (Some (pg_GetPayload cd io (pi_db p)))),
      aa_Stream = Some (\<lambda>p. async_Stream (Some (pg_stable_Stream pf cd (pi_db p))) (pg_Query pf cd io (pi_db p))),
      aa_Subscribe = Some (\<lambda>buf p. let (i, a) = async_Subscribe buf (pi_async p) in (i, p\<lparr>pi_async := a\<rparr>)),
      aa_cancel = (\<lambda>i p. case hub_cancel subscriber_closeOnce i (al_hub (pi_async p)) of
          Some h \<Rightarrow> p\<lparr>pi_async := (pi_async p)\<lparr>al_hub := h\<rparr>\<rparr> | None \<Rightarrow> p)\<rparr>"

text \<open>The pair of an id and an event is among the writes that went through.\<close>

definition written_as :: "pipe \<Rightarrow> string \<Rightarrow> event \<Rightarrow> bool" where
  "written_as p uid ev \<longleftrightarrow> (uid, ev) \<in> set (zip (pi_ids p) (al_written (pi_async p)))"

lemma written_stored:
  assumes "pipe_reachable cd db0 p" and "db_ok db0" and "written_as p uid ev"
  shows "db_ok (pi_db p)" "stored cd (pi_db p) uid ev"
  using pipe_stored [OF assms(1,2)] assms(3) by (auto simp: written_as_def)

text \<open>An event the portal reads back: timestamp in microseconds, values as JSON decodes them.\<close>

definition read_back :: "event \<Rightarrow> event" where
  "read_back ev = (stored_event ev)\<lparr>ev_Payload := map_option norm_payload (ev_Payload ev)\<rparr>"

section \<open>The detail page\<close>

lemma written_detail:
  assumes "pipe_reachable cd db0 p" and "db_ok db0" and "written_as p uid ev" and "ev_ID ev = []" and "uid \<noteq> []"
    and "storable cd ev" and "pp_uuid pp uid = Some uid"
  shows "fst (auditEventDetail pp cd (pipe_api pf cd None) uid c r p) = json_response 200 (event_val cd (read_back (ev\<lparr>ev_ID := uid\<rparr>)))"
proof -
  have a: "assigned uid ev = ev\<lparr>ev_ID := uid\<rparr>" using assms(4) by (simp add: assigned_def)
  have "pg_Query pf cd None (pi_db p) (zero_filter\<lparr>qf_EventID := uid, qf_Limit := 1\<rparr>) = Inr [stored_event (ev\<lparr>ev_ID := uid\<rparr>)]"
    "pg_GetPayload cd None (pi_db p) uid = Inr (map_option norm_payload (ev_Payload ev))"
    using stored_read [OF written_stored [OF assms(1-3)]] assms(5,6) a by auto
  then show ?thesis
    using assms(5,7) by (simp add: auditEventDetail_def pipe_api_def async_Query_def async_GetPayload_def read_back_def Let_def stored_event_def)
qed

section \<open>Captured parameters\<close>

definition params_of :: "event \<Rightarrow> gomap" where
  "params_of ev = Option.bind (ev_Payload ev) pl_RequestParams"

lemma redacted_norm [simp]: "redactedAny (json_norm v) = redactedAny v"
proof (induction v rule: redactedAny.induct)
  case (2 m)
  then have "list_ex (\<lambda>p. redactedAny (json_norm (snd p))) m = list_ex (\<lambda>p. redactedAny (snd p)) m"
    by (intro list_ex_cong) auto
  then show ?case by (simp add: list_ex_iff case_prod_unfold)
qed (auto simp: list_ex_iff)

lemma redacted_norm_entries [simp]: "hasRedactedParam (norm_entries m) = hasRedactedParam m"
  by (simp add: hasRedactedParam_def list_ex_iff case_prod_unfold)

lemma written_params:
  assumes "pipe_reachable cd db0 p" and "db_ok db0" and "written_as p uid ev" and "ev_ID ev = []" and "uid \<noteq> []"
    and "case params_of ev of None \<Rightarrow> True | Some m \<Rightarrow> m = [] \<or> json_roundtrips cd (VMap m)"
  shows "\<exists>payload. pg_GetPayload cd None (pi_db p) uid = Inr payload \<and> Option.bind payload pl_RequestParams = norm_gomap (params_of ev)"
proof -
  have a: "ev_ID (assigned uid ev) = uid" using assms(4) by (simp add: assigned_def)
  note st = stored_payload [OF written_stored [OF assms(1-3)], unfolded a]
  show ?thesis
  proof (cases "ev_Payload ev")
    case None
    then show ?thesis using st by (simp add: params_of_def norm_gomap_def)
  next
    case (Some q)
    with st obtain r where r: "row_of_payload cd uid q r" "pg_GetPayload cd None (pi_db p) uid = Inr (Some (payload_of_row cd r))" by auto
    have "unmarshal_map_col cd (pr_request_params r) = norm_gomap (pl_RequestParams q)"
      using r(1) assms(6) Some
      by (intro map_col_roundtrip) (auto simp: row_of_payload_def params_of_def isEmptyValue_def split: option.splits list.splits)
    with r(2) Some show ?thesis by (simp add: payload_of_row_def params_of_def)
  qed
qed

end
