(* ===== verification/Go_Mux.thy ===== *)
theory Go_Mux
  imports Http_Gates
begin

text \<open>
  The part of \<open>http.ServeMux\<close> the server uses: patterns with an optional method, literal
  segments, \<open>{name}\<close> wildcards and a trailing slash that matches a whole subtree; the most specific
  matching pattern wins, whatever the order of registration. A path that is not clean, or that
  lacks the slash of a subtree it names, is redirected; the redirect response is an argument. Paths
  are taken without percent escapes, and no pattern has a host.
\<close>

section \<open>Patterns\<close>

datatype pat_seg = Lit string | Wild string

record pattern =
  pt_method :: "string option"
  pt_segs :: "pat_seg list"
  pt_tree :: bool

definition parse_seg :: "string \<Rightarrow> pat_seg" where
  "parse_seg s =
     (if s \<noteq> [] \<and> s ! 0 = CHR ''{'' \<and> s ! (length s - 1) = CHR ''}'' then Wild (take (length s - 2) (drop 1 s)) else Lit s)"

definition parse_pattern :: "string \<Rightarrow> pattern" where
  "parse_pattern s =
     (let (m, path) = (case cut_at CHR '' '' s of None \<Rightarrow> (None, s) | Some (m, rest) \<Rightarrow> (Some m, dropWhile ((=) CHR '' '') rest));
          segs = split_on CHR ''/'' (drop 1 path);
          tree = (segs ! (length segs - 1) = [])
      in \<lparr>pt_method = m, pt_segs = map parse_seg (if tree then butlast segs else segs), pt_tree = tree\<rparr>)"

type_synonym bindings = "(string \<times> string) list"

text \<open>A wildcard takes one non-empty segment; a subtree takes whatever follows its slash.\<close>

fun match_segs :: "bool \<Rightarrow> pat_seg list \<Rightarrow> string list \<Rightarrow> bindings option" where
  "match_segs tree [] segs = (if tree then (if segs = [] then None else Some []) else if segs = [] then Some [] else None)"
| "match_segs tree (Lit l # ps) (s # segs) = (if s = l then match_segs tree ps segs else None)"
| "match_segs tree (Wild w # ps) (s # segs) = (if s = [] then None else map_option (\<lambda>b. (w, s) # b) (match_segs tree ps segs))"
| "match_segs tree (p # ps) [] = None"

text \<open>A pattern for GET also takes HEAD.\<close>

definition match_method :: "string option \<Rightarrow> string \<Rightarrow> bool" where
  "match_method m method = (case m of None \<Rightarrow> True | Some x \<Rightarrow> x = method \<or> (x = ''GET'' \<and> method = ''HEAD''))"

definition match_pattern :: "pattern \<Rightarrow> string \<Rightarrow> string \<Rightarrow> bindings option" where
  "match_pattern p method path =
     (if has_prefix path ''/'' \<and> match_method (pt_method p) method
      then match_segs (pt_tree p) (pt_segs p) (split_on CHR ''/'' (drop 1 path)) else None)"

text \<open>Of two patterns that match the same path the one with the smaller rank is the more specific.\<close>

definition rank :: "pattern \<Rightarrow> nat list" where
  "rank p = map (\<lambda>s. case s of Lit _ \<Rightarrow> 0 | Wild _ \<Rightarrow> 1) (pt_segs p) @ (if pt_tree p then [2] else []) @
     [case pt_method p of None \<Rightarrow> 1 | Some m \<Rightarrow> 0]"

section \<open>Routing\<close>

type_synonym 's route = "pattern \<times> (bindings \<Rightarrow> 's http_handler)"

definition find_route :: "'s route list \<Rightarrow> string \<Rightarrow> string \<Rightarrow> (pattern \<times> bindings \<times> (bindings \<Rightarrow> 's http_handler)) option" where
  "find_route routes method path =
     (let ms = List.map_filter (\<lambda>(p, h). map_option (\<lambda>b. (p, b, h)) (match_pattern p method path)) routes
      in case sort_key (rank \<circ> fst) ms of [] \<Rightarrow> None | m # _ \<Rightarrow> Some m)"

text \<open>An inexact match is one where the subtree takes something.\<close>

definition exact_match :: "pattern \<Rightarrow> string \<Rightarrow> bool" where
  "exact_match p path \<longleftrightarrow>
     (if \<not> pt_tree p then True
      else if path \<noteq> [] \<and> path ! (length path - 1) \<noteq> CHR ''/'' then False
      else Suc (length (pt_segs p)) = length (filter ((=) CHR ''/'') path))"

definition clean_segs :: "string list \<Rightarrow> string list" where
  "clean_segs segs = rev (fold (\<lambda>s acc. if s = [] \<or> s = ''.'' then acc else if s = ''..'' then tl acc else s # acc) segs [])"

definition cleanPath :: "string \<Rightarrow> string" where
  "cleanPath p =
     (let segs = split_on CHR ''/'' p; cs = clean_segs segs; np = ''/'' @ join ''/'' cs
      in if p \<noteq> [] \<and> p ! (length p - 1) = CHR ''/'' \<and> np \<noteq> ''/'' then np @ ''/'' else np)"

definition needs_slash :: "'s route list \<Rightarrow> string \<Rightarrow> string \<Rightarrow> bool" where
  "needs_slash routes method path \<longleftrightarrow>
     \<not> (case find_route routes method path of None \<Rightarrow> False | Some (p, _) \<Rightarrow> exact_match p path) \<and>
     path \<noteq> [] \<and> path ! (length path - 1) \<noteq> CHR ''/'' \<and>
     (case find_route routes method (path @ ''/'') of None \<Rightarrow> False | Some (p, _) \<Rightarrow> exact_match p (path @ ''/''))"

definition ServeMux :: "(string \<Rightarrow> http_response) \<Rightarrow> 's route list \<Rightarrow> 's http_handler" where
  "ServeMux redirect routes c r s =
     (let path = cleanPath (rq_Path r)
      in if needs_slash routes (rq_Method r) path then (redirect (path @ ''/''), s)
         else if path \<noteq> rq_Path r then (redirect path, s)
         else case find_route routes (rq_Method r) path of
           None \<Rightarrow> (text_error ''404 page not found'' 404, s)
         | Some (p, b, h) \<Rightarrow> h b c r s)"

section \<open>What routing gives\<close>

lemma find_route_in:
  "find_route routes method path = Some (p, b, h) \<Longrightarrow> (p, h) \<in> set routes \<and> match_pattern p method path = Some b"
proof -
  let ?ms = "List.map_filter (\<lambda>(p, h). map_option (\<lambda>b. (p, b, h)) (match_pattern p method path)) routes"
  assume "find_route routes method path = Some (p, b, h)"
  then obtain rest where "sort_key (rank \<circ> fst) ?ms = (p, b, h) # rest"
    by (auto simp: find_route_def Let_def split: list.splits)
  from arg_cong [OF this, of set] have "set ?ms = set ((p, b, h) # rest)" by simp
  then have "(p, b, h) \<in> set ?ms" by simp
  then show ?thesis by (auto simp: map_filter_def)
qed

lemma find_route_best:
  assumes "find_route routes method path = Some (p, b, h)" and "(p', h') \<in> set routes" and "match_pattern p' method path \<noteq> None"
  shows "rank p \<le> rank p'"
proof -
  let ?ms = "List.map_filter (\<lambda>(p, h). map_option (\<lambda>b. (p, b, h)) (match_pattern p method path)) routes"
  from assms(1) obtain rest where s: "sort_key (rank \<circ> fst) ?ms = (p, b, h) # rest"
    by (auto simp: find_route_def Let_def split: list.splits)
  from assms(2, 3) obtain b' where "(p', b', h') \<in> set ?ms" by (force simp: map_filter_def)
  then have "(p', b', h') \<in> set ((p, b, h) # rest)" using arg_cong [OF s, of set] by simp
  moreover have "sorted (map (rank \<circ> fst) ((p, b, h) # rest))" using sorted_sort_key [of "rank \<circ> fst" ?ms] by (simp add: s)
  ultimately show ?thesis by auto
qed

text \<open>Whatever the request, the mux runs at most one handler, and it is a registered one: a property
  of the result that holds without a handler and of every handler holds of the mux.\<close>

lemma ServeMux_cases:
  assumes "\<And>resp. P (resp, s)" and "\<And>p h b. (p, h) \<in> set routes \<Longrightarrow> match_pattern p (rq_Method r) (rq_Path r) = Some b \<Longrightarrow> P (h b c r s)"
  shows "P (ServeMux redirect routes c r s)"
  using assms find_route_in [of routes "rq_Method r" "rq_Path r"]
  by (auto simp: ServeMux_def Let_def split: option.split)

end
