(* ===== verification/Http_Admin.thy ===== *)
theory Http_Admin
  imports Http_Replay
begin

text \<open>
  \<open>pkg/httpsrv/admin_api.go\<close>: creating, listing and deleting database keys, and Try-It. Decoding the
  body of a request is an argument (the decoded request or the error; for Try-It an empty body is
  its own case). The handlers act on the state of \<open>Http_Replay\<close>.
\<close>

section \<open>Keys\<close>

record create_key_req =
  cq_Name :: string
  cq_Description :: string
  cq_ExpiresAt :: "gotime option"

text \<open>What a key store call needs from outside: bcrypt, the error of the database, the random bytes,
  the uuid and the time.\<close>

record key_env =
  ke_bcrypt :: bcrypt
  ke_io :: "goerr option"
  ke_rand :: "string result"
  ke_uid :: string
  ke_now :: gotime

definition key_val :: "codec \<Rightarrow> db_key \<Rightarrow> goval" where
  "key_val cd k = VMap ([(''id'', VStr (dk_ID k)), (''name'', VStr (dk_Name k))] @ opt_str ''description'' (dk_Description k) @
     opt_str ''created_by'' (dk_CreatedBy k) @ [(''created_at'', VStr (cd_showtime cd (dk_CreatedAt k)))] @
     (case dk_ExpiresAt k of None \<Rightarrow> [] | Some t \<Rightarrow> [(''expires_at'', VStr (cd_showtime cd t))]) @
     (case dk_LastUsedAt k of None \<Rightarrow> [] | Some t \<Rightarrow> [(''last_used_at'', VStr (cd_showtime cd t))]))"

definition keys_disabled :: http_response where
  "keys_disabled = writeError 503 (ErrMsg ''api_keys.db disabled'')"

definition createKey ::
  "codec \<Rightarrow> bool \<Rightarrow> key_env \<Rightarrow> create_key_req result \<Rightarrow> ('t, 'l) api_state http_handler" where
  "createKey cd enabled ke body c r s =
     (if \<not> enabled then (keys_disabled, s)
      else case body of
        Inl e \<Rightarrow> (writeError 400 e, s)
      | Inr req \<Rightarrow>
          (let createdBy = (case GetIdentity c of None \<Rightarrow> [] | Some i \<Rightarrow> id_Subject i)
           in case keys_Create (ke_bcrypt ke) (ke_io ke) (ke_rand ke) (ke_uid ke) (ke_now ke) (cq_Name req) (cq_Description req)
                     createdBy (cq_ExpiresAt req) (as_keys s) of
                (Inl e, tbl) \<Rightarrow> (writeError 400 e, s\<lparr>as_keys := tbl\<rparr>)
              | (Inr (k, plaintext), tbl) \<Rightarrow>
                  (json_response 201 (VMap [(''key'', key_val cd k), (''plaintext'', VStr plaintext)]), s\<lparr>as_keys := tbl\<rparr>)))"

definition listKeys :: "codec \<Rightarrow> bool \<Rightarrow> key_env \<Rightarrow> ('t, 'l) api_state http_handler" where
  "listKeys cd enabled ke c r s =
     (if \<not> enabled then (keys_disabled, s)
      else case keys_List (ke_io ke) (as_keys s) of
        Inl e \<Rightarrow> (writeError 500 e, s)
      | Inr ks \<Rightarrow> (json_response 200 (VMap [(''keys'', if ks = [] then VNil else VSlice (map (key_val cd) ks))]), s))"

definition deleteKey :: "bool \<Rightarrow> key_env \<Rightarrow> string \<Rightarrow> ('t, 'l) api_state http_handler" where
  "deleteKey enabled ke name c r s =
     (if \<not> enabled then (keys_disabled, s)
      else case keys_Delete (ke_io ke) name (as_keys s) of
        (err, tbl) \<Rightarrow>
          (let s = s\<lparr>as_keys := tbl\<rparr>
           in if err = Some ErrNotFound then (writeError 404 ErrNotFound, s)
              else case err of
                Some e \<Rightarrow> (writeError 500 e, s)
              | None \<Rightarrow> (empty_response\<lparr>rs_Status := 204\<rparr>, s)))"

section \<open>Try-It\<close>

record ('t, 'l) admin_api =
  ad_mcp :: "'t mcp_client option"
  ad_audit :: "'l audit_api option"
  ad_registry :: "registry option"
  ad_redactKeys :: "string list"

text \<open>The key store is not a field: whether there is one is the argument \<open>enabled\<close> of the key handlers.\<close>

definition NewAdminAPI ::
  "'t mcp_client option \<Rightarrow> 'l audit_api option \<Rightarrow> registry option \<Rightarrow> string list \<Rightarrow> ('t, 'l) admin_api" where
  "NewAdminAPI mcpServer auditLog registry redactKeys =
     \<lparr>ad_mcp = mcpServer, ad_audit = auditLog, ad_registry = registry, ad_redactKeys = redactKeys\<rparr>"

definition tryit_event ::
  "codec \<Rightarrow> string list \<Rightarrow> registry option \<Rightarrow> gotime \<Rightarrow> string \<Rightarrow> http_request \<Rightarrow> string \<Rightarrow> gomap \<Rightarrow> identity option \<Rightarrow>
   call_tool_result option \<Rightarrow> goerr option \<Rightarrow> int \<Rightarrow> event" where
  "tryit_event cd redactKeys reg now uid r toolName args i res callErr durMS =
     (let ev = WithParameters (SanitizeParameters (box_map args) redactKeys)
                 (WithUser i (WithUserAgent (header_get (rq_Header r) ''User-Agent'') (EvRemoteAddr (rq_RemoteAddr r)
                   (WithTransport ''http'' (WithSource ''portal-tryit'' (EvRequestID uid (NewEvent now toolName)))))));
          ev = (case reg of
                  None \<Rightarrow> ev
                | Some reg \<Rightarrow> (case map_of (Registry_Groups reg) toolName of None \<Rightarrow> ev | Some g \<Rightarrow> WithToolGroup g ev))
      in (finish_event res callErr durMS ev)\<lparr>ev_Payload := Some (call_payload cd redactKeys r args res callErr [])\<rparr>)"

definition recordTryitAudit ::
  "codec \<Rightarrow> ('t, 'l) admin_api \<Rightarrow> gotime \<Rightarrow> string \<Rightarrow> http_request \<Rightarrow> string \<Rightarrow> gomap \<Rightarrow> identity option \<Rightarrow>
   call_tool_result option \<Rightarrow> goerr option \<Rightarrow> int \<Rightarrow> 'l \<Rightarrow> 'l" where
  "recordTryitAudit cd a now uid r toolName args i res callErr durMS l = (case ad_audit a of
     None \<Rightarrow> l
   | Some au \<Rightarrow> snd (aa_Log au (tryit_event cd (ad_redactKeys a) (ad_registry a) now uid r toolName args i res callErr durMS) l))"

text \<open>\<open>body\<close>: the decoded arguments, or the error of the decoder, \<open>None\<close> when it is \<open>io.EOF\<close>.\<close>

definition tryit ::
  "codec \<Rightarrow> (call_tool_result \<Rightarrow> goval) \<Rightarrow> (nat \<Rightarrow> gotime) \<Rightarrow> string \<Rightarrow> ('t, 'l) admin_api \<Rightarrow> string \<Rightarrow> gomap result option \<Rightarrow>
   ('t, 'l) api_state http_handler" where
  "tryit cd rv clock uid a name body c r s =
     (case ad_mcp a of
        None \<Rightarrow> (writeError 503 (ErrMsg ''mcp server not available''), s)
      | Some mc \<Rightarrow>
          (case (case body of None \<Rightarrow> Inr None | Some b \<Rightarrow> b) of
             Inl e \<Rightarrow> (writeError 400 e, s)
           | Inr args \<Rightarrow>
               (let i = GetIdentity c;
                    c = (if i \<noteq> None then WithIdentity c i else c)
                in case mc_serverConnect mc of
                     Some e \<Rightarrow> (writeError 500 e, s)
                   | None \<Rightarrow>
                       (case mc_clientConnect mc of
                          Some e \<Rightarrow> (writeError 500 e, s)
                        | None \<Rightarrow>
                            (let ((res, callErr), t) = mc_CallTool mc c name args (as_tools s);
                                 l = recordTryitAudit cd a (clock 2) uid r name args i res callErr
                                       (to_millis (time_sub (clock 1) (clock 0))) (as_log s);
                                 s = s\<lparr>as_tools := t, as_log := l\<rparr>
                             in case callErr of
                                  Some e \<Rightarrow> (writeError 502 e, s)
                                | None \<Rightarrow> (json_response 200 (case res of None \<Rightarrow> VNil | Some x \<Rightarrow> rv x), s))))))"

section \<open>The API hands out a working key once\<close>

lemma createKey_201:
  assumes "createKey cd enabled ke body c r s = (resp, s')" and "rs_Status resp = 201"
  shows "\<exists>req k plaintext. body = Inr req \<and>
    keys_Create (ke_bcrypt ke) (ke_io ke) (ke_rand ke) (ke_uid ke) (ke_now ke) (cq_Name req) (cq_Description req)
      (case GetIdentity c of None \<Rightarrow> [] | Some i \<Rightarrow> id_Subject i) (cq_ExpiresAt req) (as_keys s) = (Inr (k, plaintext), as_keys s') \<and>
    rs_Body resp = Json (VMap [(''key'', key_val cd k), (''plaintext'', VStr plaintext)])"
  using assms
  by (auto simp: createKey_def keys_disabled_def writeError_def json_response_def Let_def
      split: if_splits sum.splits prod.splits)

lemma key_val_hash [simp]: "key_val cd (k\<lparr>dk_Hash := h\<rparr>) = key_val cd k"
  by (simp add: key_val_def)

text \<open>Two key tables that differ in nothing but the stored hashes.\<close>

definition same_but_hashes :: "db_key list \<Rightarrow> db_key list \<Rightarrow> bool" where
  "same_but_hashes t u \<longleftrightarrow> map (\<lambda>k. k\<lparr>dk_Hash := []\<rparr>) t = map (\<lambda>k. k\<lparr>dk_Hash := []\<rparr>) u"


definition toy_key_env :: key_env where
  "toy_key_env = \<lparr>ke_bcrypt = toy_bcrypt, ke_io = None, ke_rand = Inr ''abc'', ke_uid = ''u'', ke_now = 5\<rparr>"

definition toy_create :: "http_response \<times> (nat, memory_logger) api_state" where
  "toy_create = createKey toy_codec True toy_key_env (Inr \<lparr>cq_Name = ''ci'', cq_Description = [], cq_ExpiresAt = Some 9\<rparr>)
     toy_ctx (get_request []) toy_api_state"


section \<open>Try-It is audited\<close>

lemma tryit_event_fields [simp]:
  "ev_Source (tryit_event cd ks reg now uid r name args i res e ms) = ''portal-tryit''"
  "ev_ToolName (tryit_event cd ks reg now uid r name args i res e ms) = name"
  "ev_Success (tryit_event cd ks reg now uid r name args i res e ms) = call_succeeded res e"
  "ev_Parameters (tryit_event cd ks reg now uid r name args i res e ms) = SanitizeParameters (box_map args) ks"
  "ev_UserSubject (tryit_event cd ks reg now uid r name args (Some j) res e ms) = id_Subject j"
  by (simp_all add: tryit_event_def event_builder_defs WithUser_def NewEvent_def Let_def split: option.splits)

text \<open>Try-It leaves exactly one row per call. Whatever the body and the outcome, either the request is
  refused (400, 500 or 503) with tools and log untouched, or the named tool was called once with the
  decoded arguments, in the context of the request with the caller's identity, and one event was written: source
  \<open>portal-tryit\<close>, the tool, the caller, the arguments redacted, successful exactly if the call
  returned no error and the result is no error; the status is 502 exactly if the call failed.\<close>

theorem tryit_one_row:
  "case tryit cd rv clock uid a name body c r s of (resp, s') \<Rightarrow>
     (s' = s \<and> rs_Status resp \<in> {400, 500, 503}) \<or>
     (\<exists>mc args res callErr e. ad_mcp a = Some mc \<and>
        body \<in> {Some (Inr args)} \<union> (if args = None then {None} else {}) \<and>
        mc_CallTool mc c name args (as_tools s) = ((res, callErr), as_tools s') \<and>
        as_log s' = (case ad_audit a of None \<Rightarrow> as_log s | Some au \<Rightarrow> snd (aa_Log au e (as_log s))) \<and>
        ev_Source e = ''portal-tryit'' \<and> ev_ToolName e = name \<and>
        ev_UserSubject e = (case GetIdentity c of None \<Rightarrow> [] | Some i \<Rightarrow> id_Subject i) \<and>
        ev_Parameters e = SanitizeParameters (box_map args) (ad_redactKeys a) \<and>
        ev_Success e = call_succeeded res callErr \<and> rs_Status resp = (if callErr = None then 200 else 502))"
proof -
  have anon: "ev_UserSubject (tryit_event cd ks reg now uid r name args None res e ms) = []" for ks reg now args res e ms
    by (simp add: tryit_event_def event_builder_defs WithUser_def NewEvent_def zero_event_def Let_def split: option.splits)
  obtain resp s' where run: "tryit cd rv clock uid a name body c r s = (resp, s')" by fastforce
  show ?thesis
  proof (cases "s' = s \<and> rs_Status resp \<in> {400, 500, 503}")
    case False
    have st: "rs_Status (writeError n e) = n" for n e by (simp add: writeError_def json_response_def)
    from run False obtain mc where mc: "ad_mcp a = Some mc" by (cases "ad_mcp a") (auto simp: tryit_def st)
    from run False obtain args where ar: "(case body of None \<Rightarrow> Inr None | Some b \<Rightarrow> b) = Inr args"
      by (cases "case body of None \<Rightarrow> Inr None | Some b \<Rightarrow> b") (auto simp: tryit_def mc st)
    have same: "(if GetIdentity c \<noteq> None then WithIdentity c (GetIdentity c) else c) = c" by (simp add: ctx_defs)
    obtain res callErr t where call: "mc_CallTool mc c name args (as_tools s) = ((res, callErr), t)" by (metis prod.collapse)
    let ?e = "tryit_event cd (ad_redactKeys a) (ad_registry a) (clock 2) uid r name args (GetIdentity c) res callErr
      (to_millis (time_sub (clock 1) (clock 0)))"
    from run [unfolded tryit_def Let_def same] False have "as_tools s' = t" "as_log s' = (case ad_audit a of None \<Rightarrow> as_log s | Some au \<Rightarrow> snd (aa_Log au ?e (as_log s)))"
      "rs_Status resp = (if callErr = None then 200 else 502)"
      by (auto simp: mc ar call st recordTryitAudit_def json_response_def split: option.splits)
    moreover have "body \<in> {Some (Inr args)} \<union> (if args = None then {None} else {})" using ar by (cases body) auto
    moreover have "ev_UserSubject ?e = (case GetIdentity c of None \<Rightarrow> [] | Some i \<Rightarrow> id_Subject i)"
      by (cases "GetIdentity c") (simp_all add: anon)
    ultimately show ?thesis unfolding run prod.case using mc call
      by (intro disjI2 exI [of _ mc] exI [of _ args] exI [of _ res] exI [of _ callErr] exI [of _ ?e]) simp
  qed (simp add: run)
qed

section \<open>Rows of the portal and of the middleware agree\<close>

lemma portal_result_map: "portal_callToolResultToMap cd r = callToolResultToMap cd r"
proof -
  have "portal_content_block cd b = content_block cd b" for b
    by (cases b) (simp_all add: portal_content_block_def content_block_def contentToGenericMap_def Let_def split: option.splits sum.splits)
  then show ?thesis by (simp add: portal_callToolResultToMap_def callToolResultToMap_def Let_def)
qed


end
