(* ===== verification/Auth_Oidc.thy ===== *)
theory Auth_Oidc
  imports Auth_Keys Config
begin

text \<open>
  \<open>pkg/auth/oidc.go\<close>: bearer tokens of an external identity provider. The state is the JWKS
  cache; \<open>net\<close> is what the provider answers to a GET (status and body, or the client's error)
  during the call, \<open>clock\<close> the successive readings of the wall clock, \<open>oidc_json\<close> the two JSON
  decoders. The JWT library is the record \<open>jwt_lib\<close>; what the code relies on of it is
  \<open>jwt_sound\<close>, a hypothesis. A refresh shared by concurrent callers is one refresh here: the
  phases of \<open>publicKey\<close> before and after it are the definitions \<open>pk_read\<close> and \<open>pk_finish\<close>. URLs
  are taken to parse.
\<close>

section \<open>The authenticator\<close>

record rsa_key =
  rk_N :: nat
  rk_E :: nat

record oidc_state =
  os_jwksURL :: string
  os_keys :: "(string \<times> rsa_key) list"
  os_expiresAt :: gotime
  os_staleOK :: gotime

record jwk_rsa =
  jk_KTY :: string
  jk_Use :: string
  jk_Alg :: string
  jk_Kid :: string
  jk_N :: string
  jk_E :: string

record oidc_json =
  oj_discovery :: "string \<Rightarrow> string result"
  oj_jwks :: "string \<Rightarrow> jwk_rsa list result"

type_synonym net = "string \<Rightarrow> (int \<times> string) result"

definition staleGracePeriod :: duration where
  "staleGracePeriod = 5 * minute"

definition trimRightSlash :: "string \<Rightarrow> string" where
  "trimRightSlash s = trim_right (CHR ''/'') s"

definition decodeRSA :: "string \<Rightarrow> string \<Rightarrow> rsa_key result" where
  "decodeRSA nB64 eB64 =
     (case b64_decode nB64 of
        None \<Rightarrow> Inl (ErrMsg ''decode n: illegal base64 data'')
      | Some n \<Rightarrow>
          (case b64_decode eB64 of
             None \<Rightarrow> Inl (ErrMsg ''decode e: illegal base64 data'')
           | Some e \<Rightarrow>
               if length e > 4 then Inl (ErrMsg (''e too large: '' @ show_nat (length e) @ '' bytes''))
               else Inr \<lparr>rk_N = fold (\<lambda>b a. a * 256 + of_char b) n 0,
                         rk_E = fold (\<lambda>b ei. ei * 256 + of_char b) e 0\<rparr>))"

section \<open>Discovery and key refresh\<close>

definition discover :: "oidc_config \<Rightarrow> oidc_json \<Rightarrow> net \<Rightarrow> oidc_state \<Rightarrow> goerr option \<times> oidc_state" where
  "discover cfg oj net v =
     (let url = trimRightSlash (oc_Issuer cfg) @ ''/.well-known/openid-configuration''
      in case net url of
           Inl e \<Rightarrow> (Some (ErrMsg (''discover '' @ url @ '': '' @ err_text e)), v)
         | Inr (status, rbody) \<Rightarrow>
             if status \<noteq> 200 then (Some (ErrMsg (''discover '' @ url @ '': status '' @ show_int status)), v)
             else case oj_discovery oj rbody of
                    Inl e \<Rightarrow> (Some (ErrMsg (''decode discovery: '' @ err_text e)), v)
                  | Inr uri \<Rightarrow>
                      if uri = [] then (Some (ErrMsg ''discovery doc missing jwks_uri''), v)
                      else (None, v\<lparr>os_jwksURL := uri\<rparr>))"

text \<open>The keys of a JWKS document that are kept: RSA, for signatures, with an allowed algorithm
  and a modulus and exponent that decode.\<close>

definition jwk_usable :: "jwk_rsa \<Rightarrow> rsa_key option" where
  "jwk_usable j =
     (if jk_KTY j \<noteq> ''RSA'' then None
      else if jk_Use j \<noteq> [] \<and> jk_Use j \<noteq> ''sig'' then None
      else if jk_Alg j \<noteq> [] \<and> jk_Alg j \<noteq> ''RS256'' \<and> jk_Alg j \<noteq> ''RS384'' \<and> jk_Alg j \<noteq> ''RS512'' then None
      else case decodeRSA (jk_N j) (jk_E j) of Inl _ \<Rightarrow> None | Inr k \<Rightarrow> Some k)"

definition jwks_keys :: "jwk_rsa list \<Rightarrow> (string \<times> rsa_key) list" where
  "jwks_keys ks = fold (\<lambda>j keys. case jwk_usable j of None \<Rightarrow> keys | Some k \<Rightarrow> AList.update (jk_Kid j) k keys) ks []"

definition cache_ttl :: "oidc_config \<Rightarrow> duration" where
  "cache_ttl cfg = (if oc_JWKSCacheTTL cfg = 0 then hour else oc_JWKSCacheTTL cfg)"

definition fetch_jwks :: "oidc_config \<Rightarrow> oidc_json \<Rightarrow> net \<Rightarrow> gotime \<Rightarrow> oidc_state \<Rightarrow> goerr option \<times> oidc_state" where
  "fetch_jwks cfg oj net now v =
     (case net (os_jwksURL v) of
        Inl e \<Rightarrow> (Some (ErrMsg (''fetch jwks: '' @ err_text e)), v)
      | Inr (status, rbody) \<Rightarrow>
          if status \<noteq> 200 then (Some (ErrMsg (''fetch jwks: status '' @ show_int status)), v)
          else case oj_jwks oj rbody of
                 Inl e \<Rightarrow> (Some (ErrMsg (''decode jwks: '' @ err_text e)), v)
               | Inr d \<Rightarrow>
                   (let ttl = cache_ttl cfg
                    in (None, v\<lparr>os_keys := jwks_keys d, os_expiresAt := now + ttl,
                                os_staleOK := now + wrap64 (ttl + staleGracePeriod)\<rparr>)))"

definition refreshJWKS :: "oidc_config \<Rightarrow> oidc_json \<Rightarrow> net \<Rightarrow> gotime \<Rightarrow> oidc_state \<Rightarrow> goerr option \<times> oidc_state" where
  "refreshJWKS cfg oj net now v =
     (if os_jwksURL v = [] then
        (case discover cfg oj net v of
           (Some e, v') \<Rightarrow> (Some e, v')
         | (None, v') \<Rightarrow> fetch_jwks cfg oj net now v')
      else fetch_jwks cfg oj net now v)"

definition NewOIDC :: "oidc_config \<Rightarrow> oidc_json \<Rightarrow> net \<Rightarrow> gotime \<Rightarrow> oidc_state result" where
  "NewOIDC cfg oj net now =
     (if oc_Issuer cfg = [] then Inl (ErrMsg ''oidc: issuer is required'')
      else case discover cfg oj net \<lparr>os_jwksURL = [], os_keys = [], os_expiresAt = 0, os_staleOK = 0\<rparr> of
        (Some e, _) \<Rightarrow> Inl e
      | (None, v) \<Rightarrow>
          (case refreshJWKS cfg oj net now v of
             (Some e, _) \<Rightarrow> Inl e
           | (None, v') \<Rightarrow> Inr v'))"

section \<open>The key of a token\<close>

text \<open>\<open>pk_read\<close> is the part under the read lock: a fresh key, or what to fall back on.\<close>

definition pk_read :: "gotime \<Rightarrow> string \<Rightarrow> oidc_state \<Rightarrow> rsa_key + (rsa_key option \<times> gotime)" where
  "pk_read now kid v =
     (case (now < os_expiresAt v, map_of (os_keys v) kid) of
        (True, Some k) \<Rightarrow> Inl k
      | _ \<Rightarrow> Inr (map_of (os_keys v) kid, os_staleOK v))"

definition pk_finish ::
  "rsa_key option \<Rightarrow> gotime \<Rightarrow> goerr option \<Rightarrow> gotime \<Rightarrow> string \<Rightarrow> oidc_state \<Rightarrow> rsa_key result" where
  "pk_finish cached staleOK err now kid v =
     (case err of
        Some e \<Rightarrow> (case cached of Some k \<Rightarrow> if now < staleOK then Inr k else Inl e | None \<Rightarrow> Inl e)
      | None \<Rightarrow> (case map_of (os_keys v) kid of
            None \<Rightarrow> Inl (ErrMsg (''no public key for kid '' @ go_quote kid))
          | Some k \<Rightarrow> Inr k))"

definition publicKey ::
  "oidc_config \<Rightarrow> oidc_json \<Rightarrow> net \<Rightarrow> (nat \<Rightarrow> gotime) \<Rightarrow> string \<Rightarrow> oidc_state \<Rightarrow> rsa_key result \<times> oidc_state" where
  "publicKey cfg oj net clock kid v =
     (case pk_read (clock 0) kid v of
        Inl k \<Rightarrow> (Inr k, v)
      | Inr (cached, staleOK) \<Rightarrow>
          (let (err, v') = refreshJWKS cfg oj net (clock 1) v
           in (pk_finish cached staleOK err (clock 2) kid v', v')))"

section \<open>Bearer tokens\<close>

record jwt_token =
  jt_alg :: string
  jt_isRSA :: bool
  jt_kid :: "goval option"
  jt_expiry :: "gotime option"
  jt_claims :: goval

record jwt_opts =
  jo_leeway :: duration
  jo_issuer :: string
  jo_expRequired :: bool
  jo_methods :: "string list"

record jwt_lib =
  jw_parse :: "jwt_opts \<Rightarrow> (jwt_token \<Rightarrow> oidc_state \<Rightarrow> rsa_key result \<times> oidc_state) \<Rightarrow> string \<Rightarrow>
    oidc_state \<Rightarrow> jwt_token result \<times> oidc_state"
  jw_parseUnverified :: "string \<Rightarrow> jwt_token result"

definition audienceMatches :: "goval option \<Rightarrow> string \<Rightarrow> bool" where
  "audienceMatches aud want = (case aud of
     Some (VStr v) \<Rightarrow> v = want
   | Some (VSlice es) \<Rightarrow> list_ex (\<lambda>e. e = VStr want) es
   | _ \<Rightarrow> False)"

abbreviation claim :: "gomap \<Rightarrow> string \<Rightarrow> goval option" where
  "claim claims k \<equiv> (case claims of None \<Rightarrow> None | Some m \<Rightarrow> map_of m k)"

definition clientAllowed :: "gomap \<Rightarrow> string list \<Rightarrow> bool" where
  "clientAllowed claims allowed =
     list_ex (\<lambda>k. case claim claims k of Some (VStr v) \<Rightarrow> v \<noteq> [] \<and> List.member allowed v | _ \<Rightarrow> False)
       [''azp'', ''client_id'', ''appid'']"

definition parser_opts :: "oidc_config \<Rightarrow> jwt_opts" where
  "parser_opts cfg = \<lparr>jo_leeway = wrap64 (oc_ClockSkewSeconds cfg * second), jo_issuer = oc_Issuer cfg,
     jo_expRequired = True, jo_methods = [''RS256'', ''RS384'', ''RS512'']\<rparr>"

definition keyfunc ::
  "oidc_config \<Rightarrow> oidc_json \<Rightarrow> net \<Rightarrow> (nat \<Rightarrow> gotime) \<Rightarrow> jwt_token \<Rightarrow> oidc_state \<Rightarrow> rsa_key result \<times> oidc_state" where
  "keyfunc cfg oj net clock t v =
     (if oc_SkipSignatureVerification cfg then
        (Inl (ErrMsg ''signature verification skipped; do not call keyfunc''), v)
      else if \<not> jt_isRSA t then (Inl (ErrMsg (''unexpected signing method: '' @ jt_alg t)), v)
      else publicKey cfg oj net clock (as_string (jt_kid t)) v)"

definition token_claims :: "jwt_token \<Rightarrow> gomap option" where
  "token_claims t = (case jt_claims t of VMap m \<Rightarrow> Some (Some m) | VNilMap \<Rightarrow> Some None | _ \<Rightarrow> None)"

definition claims_identity :: "gomap \<Rightarrow> identity" where
  "claims_identity claims =
     (let sub = as_string (claim claims ''sub'')
      in zero_identity\<lparr>id_AuthType := ''oidc'', id_Claims := claims,
           id_Subject := (if sub = [] then as_string (claim claims ''preferred_username'') else sub),
           id_Email := as_string (claim claims ''email''), id_Name := as_string (claim claims ''name'')\<rparr>)"

definition check_claims :: "oidc_config \<Rightarrow> jwt_token \<Rightarrow> identity result" where
  "check_claims cfg t = (case token_claims t of
     None \<Rightarrow> Inl (ErrMsg ''jwt claims not a map'')
   | Some claims \<Rightarrow>
       if oc_Audience cfg \<noteq> [] \<and> \<not> audienceMatches (claim claims ''aud'') (oc_Audience cfg)
       then Inl (ErrMsg (''audience mismatch: want '' @ go_quote (oc_Audience cfg)))
       else if oc_AllowedClients cfg \<noteq> [] \<and> \<not> clientAllowed claims (oc_AllowedClients cfg)
       then Inl (ErrMsg ''client not in allowed_clients'')
       else Inr (claims_identity claims))"

definition ValidateBearer ::
  "oidc_config \<Rightarrow> oidc_json \<Rightarrow> jwt_lib \<Rightarrow> net \<Rightarrow> (nat \<Rightarrow> gotime) \<Rightarrow> string \<Rightarrow> oidc_state \<Rightarrow> identity result \<times> oidc_state" where
  "ValidateBearer cfg oj jl net clock token v =
     (if token = [] then (Inl (ErrMsg ''empty bearer token''), v)
      else case (if oc_SkipSignatureVerification cfg then (jw_parseUnverified jl token, v)
                 else jw_parse jl (parser_opts cfg) (keyfunc cfg oj net clock) token v) of
             (Inl e, v') \<Rightarrow> (Inl (ErrMsg (''parse jwt: '' @ err_text e)), v')
           | (Inr parsed, v') \<Rightarrow> (check_claims cfg parsed, v'))"

section \<open>Where a key comes from\<close>

text \<open>The provider published the document \<open>d\<close> at the URL \<open>u\<close>.\<close>

definition published :: "oidc_json \<Rightarrow> net \<Rightarrow> string \<Rightarrow> jwk_rsa list \<Rightarrow> bool" where
  "published oj net u d \<longleftrightarrow> (\<exists>b. net u = Inr (200, b) \<and> oj_jwks oj b = Inr d)"

text \<open>The history of an authenticator: the successful fetches, latest first. Failed refreshes, at
  any time, are steps too.\<close>

inductive jwks_history :: "oidc_config \<Rightarrow> oidc_json \<Rightarrow> (gotime \<times> jwk_rsa list) list \<Rightarrow> oidc_state \<Rightarrow> bool"
  for cfg oj where
  created: "NewOIDC cfg oj net now = Inr v \<Longrightarrow> published oj net (os_jwksURL v) d \<Longrightarrow> jwks_history cfg oj [(now, d)] v"
| refreshed: "jwks_history cfg oj fs v \<Longrightarrow> refreshJWKS cfg oj net now v = (None, v') \<Longrightarrow>
    published oj net (os_jwksURL v') d \<Longrightarrow> jwks_history cfg oj ((now, d) # fs) v'"
| failed: "jwks_history cfg oj fs v \<Longrightarrow> refreshJWKS cfg oj net now v = (Some e, v') \<Longrightarrow> jwks_history cfg oj fs v'"

lemma discover_frame:
  "discover cfg oj net v = (r, v') \<Longrightarrow>
     os_keys v' = os_keys v \<and> os_expiresAt v' = os_expiresAt v \<and> os_staleOK v' = os_staleOK v"
  by (auto simp: discover_def Let_def split: sum.splits prod.splits if_splits)

lemma refresh_failed:
  "refreshJWKS cfg oj net now v = (Some e, v') \<Longrightarrow>
     os_keys v' = os_keys v \<and> os_expiresAt v' = os_expiresAt v \<and> os_staleOK v' = os_staleOK v"
  by (auto simp: refreshJWKS_def fetch_jwks_def Let_def dest: discover_frame
      split: sum.splits prod.splits if_splits option.splits)

lemma refresh_done:
  assumes "refreshJWKS cfg oj net now v = (None, v')" and "published oj net (os_jwksURL v') d"
  shows "os_keys v' = jwks_keys d \<and> os_expiresAt v' = now + cache_ttl cfg \<and>
    os_staleOK v' = now + wrap64 (cache_ttl cfg + staleGracePeriod)"
  using assms by (auto simp: refreshJWKS_def fetch_jwks_def published_def Let_def
      split: sum.splits prod.splits if_splits option.splits)

lemma refresh_published:
  "refreshJWKS cfg oj net now v = (None, v') \<Longrightarrow> \<exists>d. published oj net (os_jwksURL v') d"
  by (auto simp: refreshJWKS_def fetch_jwks_def published_def Let_def
      split: sum.splits prod.splits if_splits option.splits)

lemma history_cache:
  assumes "jwks_history cfg oj fs v"
  shows "fs \<noteq> [] \<and> os_keys v = jwks_keys (snd (hd fs)) \<and> os_expiresAt v = fst (hd fs) + cache_ttl cfg \<and>
    os_staleOK v = fst (hd fs) + wrap64 (cache_ttl cfg + staleGracePeriod)"
  using assms
proof (induction rule: jwks_history.induct)
  case (created net now v d)
  then show ?case by (auto simp: NewOIDC_def dest: refresh_done split: if_splits prod.splits option.splits)
next
  case (refreshed fs v net now v' d)
  then show ?case using refresh_done [of cfg oj net now v v' d] by simp
next
  case (failed fs v net now e v')
  then show ?case using refresh_failed [of cfg oj net now v e v'] by simp
qed

text \<open>A kept key is the key of a usable entry with that key id.\<close>

lemma jwks_keys_from: "map_of (jwks_keys d) kid = Some k \<Longrightarrow> \<exists>j \<in> set d. jk_Kid j = kid \<and> jwk_usable j = Some k"
proof (induction d rule: rev_induct)
  case (snoc j d)
  then show ?case
    by (auto simp: jwks_keys_def update_conv' split: option.splits if_splits)
qed (simp add: jwks_keys_def)

text \<open>The key that \<open>publicKey\<close> hands out was published either during the call or in the last
  fetch, no longer ago than the cache time and the grace period.\<close>

definition trusted_key ::
  "oidc_config \<Rightarrow> oidc_json \<Rightarrow> net \<Rightarrow> (gotime \<times> jwk_rsa list) list \<Rightarrow> gotime \<Rightarrow> string \<Rightarrow> rsa_key \<Rightarrow> bool" where
  "trusted_key cfg oj net fs now kid k \<longleftrightarrow> (\<exists>j d. j \<in> set d \<and> jk_Kid j = kid \<and> jwk_usable j = Some k \<and>
     ((\<exists>u. published oj net u d) \<or>
      d = snd (hd fs) \<and> now < fst (hd fs) + cache_ttl cfg + staleGracePeriod))"

lemma trusted_keyI:
  assumes "map_of (jwks_keys d) kid = Some k"
    and "(\<exists>u. published oj net u d) \<or> d = snd (hd fs) \<and> now < fst (hd fs) + cache_ttl cfg + staleGracePeriod"
  shows "trusted_key cfg oj net fs now kid k"
  using jwks_keys_from [OF assms(1)] assms(2) unfolding trusted_key_def by blast

lemma publicKey_trusted:
  assumes h: "jwks_history cfg oj fs v" and p: "publicKey cfg oj net clock kid v = (Inr k, v')"
    and mono: "clock 0 \<le> clock 2" and ttl: "0 \<le> cache_ttl cfg" "cache_ttl cfg + staleGracePeriod \<le> max_int64"
  shows "trusted_key cfg oj net fs (clock 0) kid k"
proof -
  have w: "wrap64 (cache_ttl cfg + staleGracePeriod) = cache_ttl cfg + staleGracePeriod"
    using ttl by (intro wrap64_id) (simp_all add: staleGracePeriod_def)
  note c = history_cache [OF h, unfolded w]
  obtain err u where r: "refreshJWKS cfg oj net (clock 1) v = (err, u)" by fastforce
  consider (fresh) "clock 0 < os_expiresAt v" "map_of (os_keys v) kid = Some k"
    | (stale) "map_of (os_keys v) kid = Some k" "clock 2 < os_staleOK v"
    | (new) "err = None" "map_of (os_keys u) kid = Some k"
    using p r by (auto simp: publicKey_def pk_read_def pk_finish_def Let_def split: if_splits option.splits bool.splits)
  then show ?thesis
  proof cases
    case fresh
    then show ?thesis using c by (intro trusted_keyI [of "snd (hd fs)"]) (auto simp: staleGracePeriod_def)
  next
    case stale
    then show ?thesis using c mono by (intro trusted_keyI [of "snd (hd fs)"]) auto
  next
    case new
    then obtain d where d: "published oj net (os_jwksURL u) d" using r refresh_published by blast
    then have "os_keys u = jwks_keys d" using refresh_done r new by blast
    then show ?thesis using d new by (intro trusted_keyI [of d]) auto
  qed
qed

section \<open>What a validated token proves\<close>

text \<open>What the code relies on of the JWT library: a token that \<open>Parse\<close> returns without an error has
  an allowed algorithm, the required issuer and an expiry that is not past by more than the leeway,
  and its signature verifies under the key that the callback returned for it.\<close>

definition jwt_sound :: "(rsa_key \<Rightarrow> string \<Rightarrow> bool) \<Rightarrow> gotime \<Rightarrow> jwt_lib \<Rightarrow> bool" where
  "jwt_sound verifies now jl \<longleftrightarrow> (\<forall>opts kf tok v t v'. jw_parse jl opts kf tok v = (Inr t, v') \<longrightarrow>
     jt_alg t \<in> set (jo_methods opts) \<and> (\<exists>k. kf t v = (Inr k, v') \<and> verifies k tok) \<and>
     (jo_issuer opts \<noteq> [] \<longrightarrow> (\<exists>m. jt_claims t = VMap m \<and> map_of m ''iss'' = Some (VStr (jo_issuer opts)))) \<and>
     (jo_expRequired opts \<longrightarrow> (\<exists>x. jt_expiry t = Some x \<and> now < x + jo_leeway opts)))"

lemma check_claims_Inr:
  "check_claims cfg t = Inr i \<longleftrightarrow> (\<exists>claims. token_claims t = Some claims \<and> i = claims_identity claims \<and>
     (oc_Audience cfg = [] \<or> audienceMatches (claim claims ''aud'') (oc_Audience cfg)) \<and>
     (oc_AllowedClients cfg = [] \<or> clientAllowed claims (oc_AllowedClients cfg)))"
  by (auto simp: check_claims_def split: option.splits if_splits)


text \<open>An instance: a provider that publishes one key, and a library that accepts one token
  under that key.\<close>

definition toy_jwk :: jwk_rsa where
  "toy_jwk = \<lparr>jk_KTY = ''RSA'', jk_Use = ''sig'', jk_Alg = ''RS256'', jk_Kid = ''k1'', jk_N = ''AQAB'', jk_E = ''AQAB''\<rparr>"

definition toy_oidc_json :: oidc_json where
  "toy_oidc_json = \<lparr>oj_discovery = (\<lambda>_. Inr ''https://i/jwks''), oj_jwks = (\<lambda>_. Inr [toy_jwk])\<rparr>"

definition toy_claims :: "(string \<times> goval) list" where
  "toy_claims = [(''iss'', VStr ''https://i''), (''sub'', VStr ''alice''), (''aud'', VSlice [VStr ''mcp''])]"

definition toy_token :: jwt_token where
  "toy_token = \<lparr>jt_alg = ''RS256'', jt_isRSA = True, jt_kid = Some (VStr ''k1''), jt_expiry = Some 200, jt_claims = VMap toy_claims\<rparr>"

definition toy_jwt :: "gotime \<Rightarrow> jwt_lib" where
  "toy_jwt now = \<lparr>jw_parse = (\<lambda>opts kf tok v.
      if List.member (jo_methods opts) ''RS256'' \<and> (jo_issuer opts = [] \<or> jo_issuer opts = ''https://i'') \<and> now < 200 + jo_leeway opts
      then (case kf toy_token v of
              (Inl e, v') \<Rightarrow> (Inl e, v')
            | (Inr k, v') \<Rightarrow> if tok = ''eyJ'' \<and> rk_N k = 65537 then (Inr toy_token, v') else (Inl (ErrMsg ''signature''), v'))
      else (Inl (ErrMsg ''claims''), v)), jw_parseUnverified = (\<lambda>_. Inr toy_token)\<rparr>"

definition toy_oidc :: oidc_config where
  "toy_oidc = (cf_OIDC min_config)\<lparr>oc_Enabled := True, oc_Issuer := ''https://i'', oc_Audience := ''mcp''\<rparr>"

definition toy_state :: oidc_state where
  "toy_state = \<lparr>os_jwksURL = ''https://i/jwks'', os_keys = [(''k1'', \<lparr>rk_N = 65537, rk_E = 65537\<rparr>)],
     os_expiresAt = 50 + hour, os_staleOK = 50 + hour + 5 * minute\<rparr>"

lemma toy_jwt_sound: "jwt_sound (\<lambda>k tok. tok = ''eyJ'' \<and> rk_N k = 65537) 100 (toy_jwt 100)"
  unfolding jwt_sound_def
  by (auto simp: toy_jwt_def toy_token_def toy_claims_def split: if_splits prod.splits sum.splits)

lemma toy_usable: "jwk_usable toy_jwk = Some \<lparr>rk_N = 65537, rk_E = 65537\<rparr>"
proof -
  have "b64_decode ''AQAB'' = Some [CHR 0x01, CHR 0x00, CHR 0x01]"
    by (simp add: b64_decode_def b64_val_def char_of_def bit_0)
  then show ?thesis by (simp add: jwk_usable_def toy_jwk_def decodeRSA_def)
qed

lemma toy_wrap: "wrap64 (hour + 5 * minute) = hour + 5 * minute"
  by (rule wrap64_id) simp_all

lemma toy_history: "jwks_history toy_oidc toy_oidc_json [(50, [toy_jwk])] toy_state"
proof (rule created [of _ _ "\<lambda>_. Inr (200, [])"])
  show "NewOIDC toy_oidc toy_oidc_json (\<lambda>_. Inr (200, [])) 50 = Inr toy_state"
    using toy_wrap
    by (simp add: NewOIDC_def discover_def refreshJWKS_def fetch_jwks_def toy_oidc_json_def jwks_keys_def toy_usable
        toy_oidc_def min_config_def toy_state_def cache_ttl_def staleGracePeriod_def Let_def toy_jwk_def [symmetric])
       (simp add: toy_jwk_def)
qed (simp add: published_def toy_oidc_json_def)

lemma toy_key: "publicKey toy_oidc toy_oidc_json net (\<lambda>_. 60) ''k1'' toy_state = (Inr \<lparr>rk_N = 65537, rk_E = 65537\<rparr>, toy_state)"
  by (simp add: publicKey_def pk_read_def toy_state_def)

lemma toy_leeway: "wrap64 0 = 0"
  by (rule wrap64_id) simp_all

lemma toy_oidc_fields:
  "oc_Issuer toy_oidc = ''https://i''" "oc_Audience toy_oidc = ''mcp''" "oc_AllowedClients toy_oidc = []"
  "oc_ClockSkewSeconds toy_oidc = 0" "\<not> oc_SkipSignatureVerification toy_oidc" "cache_ttl toy_oidc = hour"
  by (simp_all add: toy_oidc_def min_config_def cache_ttl_def)


section \<open>An outage of the provider\<close>

lemma outage_refresh:
  "(\<And>u. \<exists>e. net u = Inl e) \<Longrightarrow> \<exists>e. refreshJWKS cfg oj net now v = (Some e, v)"
  by (auto simp: refreshJWKS_def discover_def fetch_jwks_def Let_def split: sum.splits prod.splits option.splits)
     (metis Inl_Inr_False)+

lemma outage_key:
  assumes "\<And>u. \<exists>e. net u = Inl e"
  shows "snd (publicKey cfg oj net clock kid v) = v"
    and "fst (publicKey cfg oj net clock kid v) = Inr k \<longleftrightarrow>
      map_of (os_keys v) kid = Some k \<and> (clock 0 < os_expiresAt v \<or> clock 2 < os_staleOK v)"
proof -
  obtain e where "refreshJWKS cfg oj net (clock 1) v = (Some e, v)"
    using outage_refresh [of net cfg oj "clock 1" v] assms by blast
  then show "snd (publicKey cfg oj net clock kid v) = v"
    and "fst (publicKey cfg oj net clock kid v) = Inr k \<longleftrightarrow>
      map_of (os_keys v) kid = Some k \<and> (clock 0 < os_expiresAt v \<or> clock 2 < os_staleOK v)"
    by (auto simp: publicKey_def pk_read_def pk_finish_def split: option.splits bool.splits)
qed

text \<open>C26: An outage of the provider is ridden out for exactly the grace period. While every request
  to the provider fails, a lookup leaves the cache as it was, and it finds a key if and only if that
  key was kept by the last successful fetch and that fetch is less than the cache time plus five
  minutes old (the cache time alone when read at the start of the call); an unknown key id is an
  error.\<close>

theorem jwks_outage:
  assumes "jwks_history cfg oj fs v" and "\<And>u. \<exists>e. net u = Inl e"
    and "0 \<le> cache_ttl cfg" and "cache_ttl cfg + staleGracePeriod \<le> max_int64"
  shows "snd (publicKey cfg oj net clock kid v) = v \<and>
    (fst (publicKey cfg oj net clock kid v) = Inr k \<longleftrightarrow>
       map_of (jwks_keys (snd (hd fs))) kid = Some k \<and>
       (clock 0 < fst (hd fs) + cache_ttl cfg \<or> clock 2 < fst (hd fs) + cache_ttl cfg + staleGracePeriod))"
proof -
  have "wrap64 (cache_ttl cfg + staleGracePeriod) = cache_ttl cfg + staleGracePeriod"
    using assms(3,4) by (intro wrap64_id) (simp_all add: staleGracePeriod_def)
  then show ?thesis
    using history_cache [OF assms(1)] outage_key [of net cfg oj clock kid v, OF assms(2)] by (simp add: add.assoc)
qed

theorem jwks_outage_witness:
  "fst (publicKey toy_oidc toy_oidc_json (\<lambda>_. Inl ErrCanceled) (\<lambda>_. 50 + hour + 4 * minute) ''k1'' toy_state) =
     Inr \<lparr>rk_N = 65537, rk_E = 65537\<rparr>"
proof -
  have "jk_Kid toy_jwk = ''k1''" by (simp add: toy_jwk_def)
  then have k: "map_of (jwks_keys [toy_jwk]) ''k1'' = Some \<lparr>rk_N = 65537, rk_E = 65537\<rparr>"
    by (simp add: jwks_keys_def toy_usable)
  then show ?thesis
    using jwks_outage [OF toy_history, of "\<lambda>_. Inl ErrCanceled" "\<lambda>_. 50 + hour + 4 * minute" "''k1''"]
    by (simp add: toy_oidc_fields staleGracePeriod_def)
qed

end
