(* ===== verification/Http_BrowserAuth.thy ===== *)
theory Http_BrowserAuth
  imports Http_Session Auth_Oidc Go_Ledger
begin

text \<open>
  \<open>pkg/httpsrv/browserauth.go\<close>: the OIDC login of the portal with PKCE. The handlers return the
  status, the cookies set, the redirect target handed to \<open>http.Redirect\<close> and the body; \<open>None\<close> is a
  panic. Random bytes, SHA-256, HMAC, the identity provider's token endpoint and the JSON decoders
  are arguments. The state is the nonce ledger and the JWKS cache of the validator.
\<close>

section \<open>Query strings\<close>

definition unreserved :: "char \<Rightarrow> bool" where
  "unreserved c \<longleftrightarrow> (let n = (of_char c :: nat) in
     48 \<le> n \<and> n \<le> 57 \<or> 65 \<le> n \<and> n \<le> 90 \<or> 97 \<le> n \<and> n \<le> 122 \<or> c \<in> set ''-_.~'')"

definition upper_hex :: "nat \<Rightarrow> char" where
  "upper_hex d = (if d < 10 then char_of (48 + d) else char_of (55 + d))"

definition query_escape :: "string \<Rightarrow> string" where
  "query_escape s = concat (map (\<lambda>c. if unreserved c then [c] else if c = CHR '' '' then ''+''
     else [CHR ''%'', upper_hex (of_char c div 16), upper_hex (of_char c mod 16)]) s)"

definition values_encode :: "(string \<times> string) list \<Rightarrow> string" where
  "values_encode q = join ''&'' (map (\<lambda>(k, v). query_escape k @ ''='' @ query_escape v) (sort_key fst q))"

section \<open>The flow's configuration and state\<close>

record browser_auth =
  ba_cfg :: oidc_config
  ba_baseURL :: string
  ba_redirectPath :: string
  ba_sessions :: session_store
  ba_pkceCookie :: session_store
  ba_authzURL :: string
  ba_tokenURL :: string

record browser_state =
  bs_usedNonces :: book
  bs_oidc :: oidc_state

record web_response =
  wr_Status :: int
  wr_Cookies :: "cookie list"
  wr_Location :: string
  wr_Body :: string

record crypto =
  cy_hmac :: hmac
  cy_sha256 :: "string \<Rightarrow> string"

definition http_error :: "string \<Rightarrow> int \<Rightarrow> web_response" where
  "http_error msg code = \<lparr>wr_Status = code, wr_Cookies = [], wr_Location = [], wr_Body = msg @ [CHR 0x0A]\<rparr>"

definition derivePKCESecret :: "crypto \<Rightarrow> string \<Rightarrow> string" where
  "derivePKCESecret cy cookieSecret = b64_encode (cy_hmac cy cookieSecret ''mcp-test/pkce/v1'')"

definition discoverEndpoints :: "oidc_config \<Rightarrow> (string \<Rightarrow> (string \<times> string) result) \<Rightarrow> net \<Rightarrow> (string \<times> string) result" where
  "discoverEndpoints cfg decode net =
     (let discoveryURL = trim_right CHR ''/'' (oc_Issuer cfg) @ ''/.well-known/openid-configuration''
      in case net discoveryURL of
           Inl e \<Rightarrow> Inl (ErrMsg (''discover: '' @ err_text e))
         | Inr (status, rbody) \<Rightarrow>
             if status \<noteq> 200 then Inl (ErrMsg (''discover '' @ discoveryURL @ '': status '' @ show_int status))
             else case decode rbody of
                    Inl e \<Rightarrow> Inl (ErrMsg (''decode discovery: '' @ err_text e))
                  | Inr (authz, token) \<Rightarrow>
                      if authz = [] \<or> token = []
                      then Inl (ErrMsg ''discovery missing authorization_endpoint or token_endpoint'')
                      else Inr (authz, token))"

definition NewBrowserAuth ::
  "crypto \<Rightarrow> (string \<Rightarrow> (string \<times> string) result) \<Rightarrow> net \<Rightarrow> config \<Rightarrow> bool \<Rightarrow> session_store \<Rightarrow> browser_auth result" where
  "NewBrowserAuth cy decode net cfg validator sessions =
     (if \<not> oc_Enabled (cf_OIDC cfg) then Inl (ErrMsg ''oidc is not enabled'')
      else if \<not> validator then Inl (ErrMsg ''validator is required'')
      else
        let pkceSecret = derivePKCESecret cy (po_CookieSecret (cf_Portal cfg))
        in rbind (NewSessionStore ''mcp_test_pkce'' pkceSecret (po_CookieSecure (cf_Portal cfg)) 0) (\<lambda>pkceStore.
           rbind (discoverEndpoints (cf_OIDC cfg) decode net) (\<lambda>(authz, token).
             Inr \<lparr>ba_cfg = cf_OIDC cfg, ba_baseURL = trim_right CHR ''/'' (sc_BaseURL (cf_Server cfg)),
                  ba_redirectPath = po_OIDCRedirectPath (cf_Portal cfg), ba_sessions = sessions,
                  ba_pkceCookie = pkceStore, ba_authzURL = authz, ba_tokenURL = token\<rparr>)))"

section \<open>Login\<close>

definition randomString :: "string result \<Rightarrow> string result" where
  "randomString rnd = rbind rnd (\<lambda>buf. Inr (b64_encode buf))"

definition pkceChallenge :: "crypto \<Rightarrow> string \<Rightarrow> string" where
  "pkceChallenge cy verifier = b64_encode (cy_sha256 cy verifier)"

definition sanitizeReturnPath :: "string \<Rightarrow> string" where
  "sanitizeReturnPath p =
     (if p = [] then []
      else if \<not> has_prefix p ''/'' then []
      else if has_prefix p ''//'' \<or> has_prefix p [CHR ''/'', CHR 0x5C] then []
      else p)"

definition pkce_payload :: "string \<Rightarrow> string \<Rightarrow> string \<Rightarrow> string \<Rightarrow> session_payload" where
  "pkce_payload state verifier nonce ret =
     \<lparr>sp_Identity = Some (zero_identity\<lparr>id_Claims := Some [(''state'', VStr state), (''verifier'', VStr verifier),
        (''nonce'', VStr nonce), (''return'', VStr ret)]\<rparr>), sp_Expires = 0\<rparr>"

definition login_location :: "browser_auth \<Rightarrow> string \<Rightarrow> string \<Rightarrow> string" where
  "login_location b state challenge =
     (let q = [(''response_type'', ''code''), (''client_id'', oc_ClientID (ba_cfg b)),
               (''redirect_uri'', ba_baseURL b @ ba_redirectPath b), (''scope'', ''openid email profile''),
               (''state'', state), (''code_challenge'', challenge), (''code_challenge_method'', ''S256'')] @
              (if oc_Audience (ba_cfg b) \<noteq> [] then [(''audience'', oc_Audience (ba_cfg b))] else []);
          sep = (if contains (ba_authzURL b) ''?'' then ''&'' else ''?'')
      in ba_authzURL b @ sep @ values_encode q)"

text \<open>The three random strings are drawn one after the other from \<open>rnd 0\<close>, \<open>rnd 1\<close>, \<open>rnd 2\<close>.\<close>

definition handleLogin ::
  "crypto \<Rightarrow> session_json \<Rightarrow> (nat \<Rightarrow> string result) \<Rightarrow> browser_auth \<Rightarrow> http_request \<Rightarrow> web_response" where
  "handleLogin cy sj rnd b r =
     (case rbind (randomString (rnd 0)) (\<lambda>state. rbind (randomString (rnd 1)) (\<lambda>verifier.
             rbind (randomString (rnd 2)) (\<lambda>nonce. Inr (state, verifier, nonce)))) of
        Inl _ \<Rightarrow> http_error ''rng failure'' 500
      | Inr (state, verifier, nonce) \<Rightarrow>
          (let challenge = pkceChallenge cy verifier;
               pl = pkce_payload state verifier nonce (sanitizeReturnPath (query_get r ''return''))
           in case ss_encode (cy_hmac cy) sj (ba_pkceCookie b) pl of
                Inl e \<Rightarrow> http_error (''encode pkce: '' @ err_text e) 500
              | Inr encoded \<Rightarrow>
                  \<lparr>wr_Status = 302,
                   wr_Cookies = [\<lparr>ck_Name = ss_cookieName (ba_pkceCookie b), ck_Value = encoded, ck_Path = ''/portal/auth/'',
                     ck_Expires = 0, ck_MaxAge = 600, ck_HttpOnly = True, ck_Secure = ss_secure (ba_pkceCookie b),
                     ck_SameSite = LaxMode\<rparr>],
                   wr_Location = login_location b state challenge, wr_Body = []\<rparr>))"

section \<open>Callback\<close>

definition nonce_ttl :: duration where
  "nonce_ttl = 10 * minute"

definition consumeNonce :: "gotime \<Rightarrow> string \<Rightarrow> book \<Rightarrow> bool \<times> book" where
  "consumeNonce now nonce used =
     (if nonce = [] then (False, used)
      else let used = filter (\<lambda>(k, t). \<not> time_sub now t > nonce_ttl) used
           in if map_of used nonce \<noteq> None then (False, used)
              else (True, AList.update nonce now used))"

text \<open>The token endpoint: URL, form and basic credentials to status and body.\<close>

type_synonym token_endpoint = "string \<Rightarrow> (string \<times> string) list \<Rightarrow> (string \<times> string) option \<Rightarrow> (int \<times> string) result"

definition exchangeCode ::
  "token_endpoint \<Rightarrow> (string \<Rightarrow> string result) \<Rightarrow> browser_auth \<Rightarrow> string \<Rightarrow> string \<Rightarrow> string result" where
  "exchangeCode post decode b code verifier =
     (let form = [(''grant_type'', ''authorization_code''), (''code'', code),
                  (''redirect_uri'', ba_baseURL b @ ba_redirectPath b), (''client_id'', oc_ClientID (ba_cfg b)),
                  (''code_verifier'', verifier)];
          basic = (if oc_ClientSecret (ba_cfg b) \<noteq> [] then Some (oc_ClientID (ba_cfg b), oc_ClientSecret (ba_cfg b)) else None)
      in rbind (post (ba_tokenURL b) form basic) (\<lambda>(status, rbody).
           (let rbody = take 1048576 rbody
            in if status \<noteq> 200
               then Inl (ErrMsg (''token endpoint returned '' @ show_int status @ '' (body '' @ show_nat (length rbody) @ '' bytes)''))
               else case decode rbody of
                      Inl e \<Rightarrow> Inl (ErrMsg (''decode token response: '' @ err_text e))
                    | Inr idToken \<Rightarrow>
                        if idToken = [] then Inl (ErrMsg ''token response missing id_token'') else Inr idToken)))"

record callback_env =
  ce_crypto :: crypto
  ce_session_json :: session_json
  ce_post :: token_endpoint
  ce_token_json :: "string \<Rightarrow> string result"
  ce_oidc_json :: oidc_json
  ce_jwt :: jwt_lib
  ce_net :: net

definition clear_pkce :: "session_store \<Rightarrow> cookie" where
  "clear_pkce s = \<lparr>ck_Name = ss_cookieName s, ck_Value = [], ck_Path = ''/portal/auth/'', ck_Expires = 0, ck_MaxAge = - 1,
     ck_HttpOnly = True, ck_Secure = ss_secure s, ck_SameSite = LaxMode\<rparr>"

text \<open>The part after the state and nonce checks. \<open>clock 0\<close> was the reading of \<open>consumeNonce\<close>.\<close>

definition finish_login ::
  "callback_env \<Rightarrow> (nat \<Rightarrow> gotime) \<Rightarrow> browser_auth \<Rightarrow> string \<Rightarrow> string \<Rightarrow> string \<Rightarrow> browser_state \<Rightarrow>
   web_response \<times> browser_state" where
  "finish_login env clock b code verifier returnTo st =
     (case exchangeCode (ce_post env) (ce_token_json env) b code verifier of
        Inl _ \<Rightarrow> (http_error ''code exchange failed'' 502, st)
      | Inr idToken \<Rightarrow>
          (case ValidateBearer (ba_cfg b) (ce_oidc_json env) (ce_jwt env) (ce_net env) (\<lambda>n. clock (n + 1)) idToken (bs_oidc st) of
             (Inl _, v) \<Rightarrow> (http_error ''id_token validation failed'' 401, st\<lparr>bs_oidc := v\<rparr>)
           | (Inr i, v) \<Rightarrow>
               (case session_Issue (cy_hmac (ce_crypto env)) (ce_session_json env) (clock 4) (ba_sessions b) (Some i) of
                  Inl e \<Rightarrow> ((http_error (''issue session: '' @ err_text e) 500)\<lparr>wr_Cookies := [clear_pkce (ba_pkceCookie b)]\<rparr>,
                            st\<lparr>bs_oidc := v\<rparr>)
                | Inr ck \<Rightarrow>
                    (\<lparr>wr_Status = 302, wr_Cookies = [clear_pkce (ba_pkceCookie b), ck],
                      wr_Location = (if returnTo = [] then ''/portal/'' else returnTo), wr_Body = []\<rparr>, st\<lparr>bs_oidc := v\<rparr>))))"

definition handleCallback ::
  "callback_env \<Rightarrow> (nat \<Rightarrow> gotime) \<Rightarrow> browser_auth \<Rightarrow> http_request \<Rightarrow> browser_state \<Rightarrow>
   (web_response \<times> browser_state) option" where
  "handleCallback env clock b r st =
     (case map_of (rq_Cookies r) (ss_cookieName (ba_pkceCookie b)) of
        None \<Rightarrow> Some (http_error ''missing pkce cookie'' 400, st)
      | Some v \<Rightarrow>
          (case ss_decode (cy_hmac (ce_crypto env)) (ce_session_json env) (ba_pkceCookie b) v of
             Inl _ \<Rightarrow> Some (http_error ''bad pkce cookie'' 400, st)
           | Inr pl \<Rightarrow>
               (case sp_Identity pl of
                  None \<Rightarrow> None
                | Some i \<Rightarrow>
                    (let s = as_string (claim (id_Claims i) ''state'');
                         verifier = as_string (claim (id_Claims i) ''verifier'');
                         nonce = as_string (claim (id_Claims i) ''nonce'');
                         returnTo = as_string (claim (id_Claims i) ''return'')
                     in if query_get r ''state'' \<noteq> s \<or> s = [] then Some (http_error ''state mismatch'' 400, st)
                        else case consumeNonce (clock 0) nonce (bs_usedNonces st) of
                               (False, used) \<Rightarrow> Some (http_error ''replay rejected'' 400, st\<lparr>bs_usedNonces := used\<rparr>)
                             | (True, used) \<Rightarrow>
                                 (let st = st\<lparr>bs_usedNonces := used\<rparr>; code = query_get r ''code''
                                  in if code = [] then Some (http_error ''missing code'' 400, st)
                                     else Some (finish_login env clock b code verifier returnTo st))))))"

definition handleLogout :: "browser_auth \<Rightarrow> web_response" where
  "handleLogout b = \<lparr>wr_Status = 204, wr_Cookies = [session_Clear (ba_sessions b)], wr_Location = [], wr_Body = []\<rparr>"

section \<open>One session per login\<close>

interpretation spent: ledger consumeNonce nonce_ttl
  by unfold_locales (auto simp: consumeNonce_def evict_def nonce_ttl_def Let_def)

text \<open>The nonce that a callback presents to the ledger: that of its cookie if the cookie and the
  state parameter are in order. It does not depend on the state of the server.\<close>

definition callback_nonce :: "callback_env \<Rightarrow> browser_auth \<Rightarrow> http_request \<Rightarrow> string" where
  "callback_nonce env b r =
     (case map_of (rq_Cookies r) (ss_cookieName (ba_pkceCookie b)) of
        None \<Rightarrow> []
      | Some v \<Rightarrow>
          (case ss_decode (cy_hmac (ce_crypto env)) (ce_session_json env) (ba_pkceCookie b) v of
             Inl _ \<Rightarrow> []
           | Inr pl \<Rightarrow>
               (case sp_Identity pl of
                  None \<Rightarrow> []
                | Some i \<Rightarrow>
                    if query_get r ''state'' \<noteq> as_string (claim (id_Claims i) ''state'') \<or>
                       as_string (claim (id_Claims i) ''state'') = []
                    then [] else as_string (claim (id_Claims i) ''nonce''))))"

lemma finish_login_ledger:
  "finish_login env clock b code verifier ret st = (resp, st') \<Longrightarrow> bs_usedNonces st' = bs_usedNonces st"
  by (auto simp: finish_login_def split: sum.splits prod.splits)

lemma callback_ledger:
  assumes "handleCallback env clock b r st = Some (resp, st')"
  shows "bs_usedNonces st' = snd (consumeNonce (clock 0) (callback_nonce env b r) (bs_usedNonces st)) \<and>
    (wr_Status resp = 302 \<longrightarrow> fst (consumeNonce (clock 0) (callback_nonce env b r) (bs_usedNonces st)))"
proof -
  have e: "consumeNonce t [] m = (False, m)" for t m by (simp add: consumeNonce_def)
  show ?thesis
    using assms
    by (auto simp: handleCallback_def callback_nonce_def http_error_def Let_def e dest: finish_login_ledger
        split: option.splits sum.splits if_splits prod.splits bool.splits)
qed

lemma callback_panic:
  "handleCallback env clock b r st = None \<Longrightarrow> callback_nonce env b r = []"
  by (auto simp: handleCallback_def callback_nonce_def Let_def split: option.splits sum.splits if_splits prod.splits bool.splits)

text \<open>A sequence of callbacks, each with its clock readings, and the answers it gets. A panic ends
  its request and leaves the server as it was.\<close>

fun callbacks ::
  "callback_env \<Rightarrow> browser_auth \<Rightarrow> ((nat \<Rightarrow> gotime) \<times> http_request) list \<Rightarrow> browser_state \<Rightarrow> web_response option list" where
  "callbacks env b [] st = []"
| "callbacks env b ((clock, r) # h) st = (case handleCallback env clock b r st of
     None \<Rightarrow> None # callbacks env b h st
   | Some (resp, st') \<Rightarrow> Some resp # callbacks env b h st')"

definition nonce_history :: "callback_env \<Rightarrow> browser_auth \<Rightarrow> ((nat \<Rightarrow> gotime) \<times> http_request) list \<Rightarrow> (gotime \<times> string) list" where
  "nonce_history env b h = map (\<lambda>(clock, r). (clock 0, callback_nonce env b r)) h"

lemma callbacks_answers:
  assumes "j < length h" and "callbacks env b h st ! j = Some resp" and "wr_Status resp = 302"
  shows "use_history consumeNonce (nonce_history env b h) (bs_usedNonces st) ! j \<and> callback_nonce env b (snd (h ! j)) \<noteq> []"
  using assms
proof (induction h arbitrary: st j)
  case (Cons e h)
  obtain clock r where e: "e = (clock, r)" by (cases e)
  have empty: "consumeNonce t [] m = (False, m)" for t m by (simp add: consumeNonce_def)
  show ?case
  proof (cases "handleCallback env clock b r st")
    case None
    then have "callback_nonce env b r = []" by (rule callback_panic)
    with None Cons show ?thesis by (cases j) (auto simp: e nonce_history_def empty)
  next
    case (Some p)
    then obtain rsp st' where p: "handleCallback env clock b r st = Some (rsp, st')" by (cases p) auto
    note l = callback_ledger [OF p]
    show ?thesis
    proof (cases j)
      case 0
      then show ?thesis using l p Cons.prems by (auto simp: e nonce_history_def empty)
    next
      case (Suc j')
      with Cons.prems p have "j' < length h" "callbacks env b h st' ! j' = Some resp" by (simp_all add: e)
      with Cons.IH [of j' st'] Cons.prems(3) l show ?thesis by (simp add: e Suc nonce_history_def)
    qed
  qed
qed simp

text \<open>C19: A login cookie yields at most one session in ten minutes. In any sequence of callbacks to
  the server, whoever sends them and whatever the identity provider answers: two callbacks that both
  log in, with login cookies carrying the same nonce (in particular, the same login cookie twice),
  are more than ten minutes apart, which is as long as the cookie lives in the browser.\<close>

theorem login_single_use:
  assumes "sorted (map (\<lambda>(clock, r). clock 0) h)" and "distinct (map fst (bs_usedNonces st))"
    and "i < j" and "j < length h"
    and "callbacks env b h st ! i = Some resp" and "wr_Status resp = 302"
    and "callbacks env b h st ! j = Some resp'" and "wr_Status resp' = 302"
    and "callback_nonce env b (snd (h ! i)) = callback_nonce env b (snd (h ! j))"
  shows "fst (h ! j) 0 - fst (h ! i) 0 > 10 * minute"
proof -
  let ?h = "nonce_history env b h"
  have m: "map fst ?h = map (\<lambda>(clock, r). clock 0) h" by (simp add: nonce_history_def split_beta comp_def)
  have n: "?h ! k = (fst (h ! k) 0, callback_nonce env b (snd (h ! k)))" if "k < length h" for k
    using that by (simp add: nonce_history_def split_beta)
  note a = callbacks_answers [OF _ assms(5,6)] callbacks_answers [OF assms(4,7,8)]
  have "fst (?h ! j) - fst (?h ! i) > nonce_ttl"
    using assms(1-4,9) a by (intro spent.accepted_apart [of ?h "bs_usedNonces st"]) (auto simp: m n, simp add: nonce_history_def)
  then show ?thesis using assms(3,4) by (simp add: n nonce_ttl_def)
qed

definition toy_pkce :: session_payload where
  "toy_pkce = pkce_payload ''s'' ''v'' ''n'' ''/portal/x''"

definition toy_callback_env :: callback_env where
  "toy_callback_env = \<lparr>ce_crypto = \<lparr>cy_hmac = (\<lambda>k m. ''t''), cy_sha256 = (\<lambda>_. ''h'')\<rparr>,
     ce_session_json = \<lparr>sj_marshal = (\<lambda>_. Inr ''p''), sj_unmarshal = (\<lambda>_. Inr toy_pkce)\<rparr>,
     ce_post = (\<lambda>_ _ _. Inr (200, ''{}'')), ce_token_json = (\<lambda>_. Inr ''eyJ''), ce_oidc_json = toy_oidc_json,
     ce_jwt = toy_jwt 0, ce_net = (\<lambda>_. Inl ErrCanceled)\<rparr>"

definition toy_browser_auth :: browser_auth where
  "toy_browser_auth = \<lparr>ba_cfg = toy_oidc, ba_baseURL = ''https://m'', ba_redirectPath = ''/cb'', ba_sessions = toy_store,
     ba_pkceCookie = toy_store\<lparr>ss_cookieName := ''pkce''\<rparr>, ba_authzURL = ''https://i/a'', ba_tokenURL = ''https://i/t''\<rparr>"

definition toy_callback :: http_request where
  "toy_callback = \<lparr>rq_Method = ''GET'', rq_Path = ''/cb'', rq_Header = [], rq_Query = [(''state'', [''s'']), (''code'', [''c''])],
     rq_Cookies = [(''pkce'', b64_encode ''p'' @ ''.'' @ b64_encode ''t'')], rq_RemoteAddr = []\<rparr>"

definition toy_browser_state :: browser_state where
  "toy_browser_state = \<lparr>bs_usedNonces = [], bs_oidc = toy_state\<rparr>"

section \<open>What a session rests on\<close>

lemma finish_login_302:
  assumes "finish_login env clock b code verifier ret st = (resp, st')" and "wr_Status resp = 302"
  shows "\<exists>idToken i ck. exchangeCode (ce_post env) (ce_token_json env) b code verifier = Inr idToken \<and>
    fst (ValidateBearer (ba_cfg b) (ce_oidc_json env) (ce_jwt env) (ce_net env) (\<lambda>n. clock (n + 1)) idToken (bs_oidc st)) = Inr i \<and>
    session_Issue (cy_hmac (ce_crypto env)) (ce_session_json env) (clock 4) (ba_sessions b) (Some i) = Inr ck \<and>
    wr_Cookies resp = [clear_pkce (ba_pkceCookie b), ck] \<and> wr_Location resp = (if ret = [] then ''/portal/'' else ret)"
  using assms by (auto simp: finish_login_def http_error_def split: sum.splits prod.splits)

lemma finish_login_other:
  assumes "finish_login env clock b code verifier ret st = (resp, st')" and "wr_Status resp \<noteq> 302"
  shows "set (wr_Cookies resp) \<subseteq> {clear_pkce (ba_pkceCookie b)}"
  using assms by (auto simp: finish_login_def http_error_def split: sum.splits prod.splits)

text \<open>C18: A portal session is only issued at the end of a login. If a callback answers with a
  redirect, the request carried a login cookie signed with the login key, its state parameter is the
  non-empty state of that cookie, the code was exchanged at the provider together with the cookie's
  verifier, the ID token so obtained validated, and the session cookie set is the one issued for
  exactly the validated identity; the browser is sent to the path stored in the cookie. Any other
  answer sets no session cookie.\<close>

theorem callback_sound:
  assumes "handleCallback env clock b r st = Some (resp, st')"
  shows "if wr_Status resp = 302 then \<exists>v pl j idToken i ck.
      map_of (rq_Cookies r) (ss_cookieName (ba_pkceCookie b)) = Some v \<and>
      ss_decode (cy_hmac (ce_crypto env)) (ce_session_json env) (ba_pkceCookie b) v = Inr pl \<and> sp_Identity pl = Some j \<and>
      query_get r ''state'' = as_string (claim (id_Claims j) ''state'') \<and> query_get r ''state'' \<noteq> [] \<and> query_get r ''code'' \<noteq> [] \<and>
      exchangeCode (ce_post env) (ce_token_json env) b (query_get r ''code'') (as_string (claim (id_Claims j) ''verifier'')) = Inr idToken \<and>
      fst (ValidateBearer (ba_cfg b) (ce_oidc_json env) (ce_jwt env) (ce_net env) (\<lambda>n. clock (n + 1)) idToken (bs_oidc st)) = Inr i \<and>
      session_Issue (cy_hmac (ce_crypto env)) (ce_session_json env) (clock 4) (ba_sessions b) (Some i) = Inr ck \<and>
      wr_Cookies resp = [clear_pkce (ba_pkceCookie b), ck] \<and>
      wr_Location resp = (let ret = as_string (claim (id_Claims j) ''return'') in if ret = [] then ''/portal/'' else ret)
    else set (wr_Cookies resp) \<subseteq> {clear_pkce (ba_pkceCookie b)}"
proof (cases "wr_Status resp = 302")
  case True
  then obtain v pl j used where f: "map_of (rq_Cookies r) (ss_cookieName (ba_pkceCookie b)) = Some v"
    "ss_decode (cy_hmac (ce_crypto env)) (ce_session_json env) (ba_pkceCookie b) v = Inr pl" "sp_Identity pl = Some j"
    "query_get r ''state'' = as_string (claim (id_Claims j) ''state'')" "query_get r ''state'' \<noteq> []" "query_get r ''code'' \<noteq> []"
    "finish_login env clock b (query_get r ''code'') (as_string (claim (id_Claims j) ''verifier''))
       (as_string (claim (id_Claims j) ''return'')) (st\<lparr>bs_usedNonces := used\<rparr>) = (resp, st')"
    using assms by (auto simp: handleCallback_def http_error_def Let_def split: option.splits sum.splits if_splits prod.splits bool.splits)
  with finish_login_302 [OF f(7) True] True show ?thesis by (auto simp: Let_def)
next
  case False
  then show ?thesis
    using assms finish_login_other
    by (fastforce simp: handleCallback_def http_error_def Let_def split: option.splits sum.splits if_splits prod.splits bool.splits)
qed

section \<open>A concrete login\<close>

lemma toy_validate:
  assumes "t < 50 + hour"
  shows "ValidateBearer toy_oidc toy_oidc_json (toy_jwt 0) net (\<lambda>_. t) ''eyJ'' toy_state =
    (Inr (claims_identity (Some toy_claims)), toy_state)"
proof -
  have k: "publicKey toy_oidc toy_oidc_json net (\<lambda>_. t) ''k1'' toy_state = (Inr \<lparr>rk_N = 65537, rk_E = 65537\<rparr>, toy_state)"
    using assms by (simp add: publicKey_def pk_read_def toy_state_def)
  have "jw_parse (toy_jwt 0) (parser_opts toy_oidc) (keyfunc toy_oidc toy_oidc_json net (\<lambda>_. t)) ''eyJ'' toy_state = (Inr toy_token, toy_state)"
    by (simp add: toy_jwt_def parser_opts_def keyfunc_def toy_oidc_fields toy_token_def k toy_leeway)
  then show ?thesis
    by (simp add: ValidateBearer_def toy_oidc_fields check_claims_def token_claims_def toy_token_def toy_claims_def audienceMatches_def)
qed

lemma toy_decode:
  "ss_decode (\<lambda>k m. ''t'') \<lparr>sj_marshal = (\<lambda>_. Inr ''p''), sj_unmarshal = (\<lambda>_. Inr toy_pkce)\<rparr> s
     (b64_encode ''p'' @ ''.'' @ b64_encode ''t'') = Inr toy_pkce"
  unfolding ss_decode_Inr using b64_encode_no_dot [of "''p''"]
  by (intro exI [of _ "b64_encode ''p''"] exI [of _ "b64_encode ''t''"] exI [of _ "''p''"]) (simp del: b64_encode.simps)

lemma toy_finish:
  assumes "t < 50 + hour" and "bs_oidc st = toy_state"
  shows "\<exists>resp. finish_login toy_callback_env (\<lambda>_. t) toy_browser_auth ''c'' ''v'' ''/portal/x'' st = (resp, st) \<and> wr_Status resp = 302"
proof -
  have st: "st\<lparr>bs_oidc := toy_state\<rparr> = st" using assms(2) by simp
  show ?thesis
    using toy_validate [OF assms(1), of "\<lambda>_. Inl ErrCanceled"] assms(2) st
    by (simp add: finish_login_def exchangeCode_def toy_callback_env_def toy_browser_auth_def session_Issue_def ss_encode_def
        Let_def del: b64_encode.simps)
qed

lemma toy_login:
  assumes "t < 50 + hour" and "bs_oidc st = toy_state" and "consumeNonce t ''n'' (bs_usedNonces st) = (True, used)"
  shows "\<exists>resp. handleCallback toy_callback_env (\<lambda>_. t) toy_browser_auth toy_callback st = Some (resp, st\<lparr>bs_usedNonces := used\<rparr>) \<and>
    wr_Status resp = 302"
  using toy_finish [OF assms(1), of "st\<lparr>bs_usedNonces := used\<rparr>"] assms(2,3) toy_decode [of "ba_pkceCookie toy_browser_auth"]
  by (simp add: handleCallback_def toy_callback_def toy_browser_auth_def toy_callback_env_def toy_pkce_def pkce_payload_def
      query_get_def del: b64_encode.simps)

theorem callback_sound_witness:
  "\<exists>resp st'. handleCallback toy_callback_env (\<lambda>_. 0) toy_browser_auth toy_callback toy_browser_state = Some (resp, st') \<and>
     wr_Location resp = ''/portal/x''"
proof -
  have "consumeNonce 0 ''n'' (bs_usedNonces toy_browser_state) = (True, [(''n'', 0)])"
    by (simp add: consumeNonce_def toy_browser_state_def)
  then obtain resp st' where r: "handleCallback toy_callback_env (\<lambda>_. 0) toy_browser_auth toy_callback toy_browser_state = Some (resp, st')"
    "wr_Status resp = 302" using toy_login [of 0 toy_browser_state] by (auto simp: toy_browser_state_def)
  from callback_sound [OF r(1)] r(2) obtain v pl j where
    "map_of (rq_Cookies toy_callback) (ss_cookieName (ba_pkceCookie toy_browser_auth)) = Some v"
    "ss_decode (cy_hmac (ce_crypto toy_callback_env)) (ce_session_json toy_callback_env) (ba_pkceCookie toy_browser_auth) v = Inr pl"
    "sp_Identity pl = Some j" "wr_Location resp = (let ret = as_string (claim (id_Claims j) ''return'') in if ret = [] then ''/portal/'' else ret)"
    by auto
  then have "wr_Location resp = ''/portal/x''"
    using toy_decode [of "ba_pkceCookie toy_browser_auth"]
    by (auto simp: toy_callback_def toy_browser_auth_def toy_callback_env_def toy_pkce_def pkce_payload_def simp del: b64_encode.simps)
  with r show ?thesis by blast
qed

theorem login_single_use_witness:
  "\<exists>resp resp'. callbacks toy_callback_env toy_browser_auth [(\<lambda>_. 0, toy_callback), (\<lambda>_. 11 * minute, toy_callback)] toy_browser_state =
     [Some resp, Some resp'] \<and> wr_Status resp = 302 \<and> wr_Status resp' = 302 \<and> (11 * minute - 0 :: int) > 10 * minute"
proof -
  let ?h = "[(\<lambda>_. 0, toy_callback), (\<lambda>_. 11 * minute, toy_callback)]"
  have "consumeNonce 0 ''n'' (bs_usedNonces toy_browser_state) = (True, [(''n'', 0)])"
    by (simp add: consumeNonce_def toy_browser_state_def)
  with toy_login [of 0 toy_browser_state] obtain resp where
    r: "handleCallback toy_callback_env (\<lambda>_. 0) toy_browser_auth toy_callback toy_browser_state =
      Some (resp, toy_browser_state\<lparr>bs_usedNonces := [(''n'', 0)]\<rparr>)" "wr_Status resp = 302"
    by (auto simp: toy_browser_state_def)
  have "consumeNonce (11 * minute) ''n'' [(''n'', 0)] = (True, [(''n'', 11 * minute)])"
    by (simp add: consumeNonce_def nonce_ttl_def time_sub_def)
  with toy_login [of "11 * minute" "toy_browser_state\<lparr>bs_usedNonces := [(''n'', 0)]\<rparr>"] obtain resp' st' where
    r': "handleCallback toy_callback_env (\<lambda>_. 11 * minute) toy_browser_auth toy_callback (toy_browser_state\<lparr>bs_usedNonces := [(''n'', 0)]\<rparr>) =
      Some (resp', st')" "wr_Status resp' = 302"
    by (auto simp: toy_browser_state_def)
  have c: "callbacks toy_callback_env toy_browser_auth ?h toy_browser_state = [Some resp, Some resp']" using r(1) r'(1) by simp
  from login_single_use [of ?h toy_browser_state 0 1 toy_callback_env toy_browser_auth resp resp'] c r(2) r'(2)
  show ?thesis by (auto simp: toy_browser_state_def)
qed

text \<open>The path check keeps a path that a browser reads as another host: browsers drop tabs and line
  breaks from a URL before they parse it, so that slash, tab, slash is the start of a
  scheme-relative URL.\<close>

definition browser_url :: "string \<Rightarrow> string" where
  "browser_url s = filter (\<lambda>c. c \<noteq> CHR 0x09 \<and> c \<noteq> CHR 0x0A \<and> c \<noteq> CHR 0x0D) s"

lemma return_path_tab_escapes:
  "(let p = ''/'' @ [CHR 0x09] @ ''/evil.com'' in sanitizeReturnPath p = p \<and> has_prefix (browser_url p) ''//'')"
  by (simp add: sanitizeReturnPath_def browser_url_def)

end
