(* ===== verification/Server.thy ===== *)
theory Server
  imports Go_Mux Http_Admin Http_BrowserAuth
begin

text \<open>
  \<open>internal/server/server.go\<close>: the registry and audit options from the configuration, the two
  route tables with their middlewares (building, running and closing the application are in
  \<open>Server_Lifecycle\<close>). The SDK's streamable handler, \<open>http.FileServer\<close> and the browser-login handlers (modelled in
  \<open>Http_BrowserAuth\<close>) are arguments that act on states of their own; what a handler of the portal needs
  from outside is the record \<open>req_env\<close>.
\<close>

section \<open>Configuration of the parts\<close>

definition auditOptions :: "audit_config \<Rightarrow> (audit_options \<Rightarrow> audit_options) list" where
  "auditOptions cfg =
     (if CapturePayloadsEnabled cfg
      then [WithPayloadCapture (au_MaxPayloadBytes cfg)] @
           (if CaptureHeadersEnabled cfg then [WithHeaderCapture] else []) @
           (if au_MaxNotifications cfg > 0 then [WithMaxNotifications (au_MaxNotifications cfg)] else [])
      else [])"

text \<open>The loop of \<open>mcpmw.Audit\<close> over its options.\<close>

definition applied_options :: "(audit_options \<Rightarrow> audit_options) list \<Rightarrow> audit_options" where
  "applied_options opts = fold (\<lambda>opt o'. opt o') opts defaultAuditOptions"

definition buildRegistry :: "config \<Rightarrow> registry" where
  "buildRegistry cfg =
     (let r = NewRegistry;
          r = (if to_Identity (cf_Tools cfg) then Registry_Add (identity_toolkit (au_RedactKeys (cf_Audit cfg))) r else r);
          r = (if to_Data (cf_Tools cfg) then Registry_Add data_toolkit r else r);
          r = (if to_Failure (cf_Tools cfg) then Registry_Add failure_toolkit r else r);
          r = (if to_Streaming (cf_Tools cfg) then Registry_Add streaming_toolkit r else r)
      in r)"

section \<open>State and environment\<close>

record ('w, 't, 'l, 'm, 'b) server_state =
  sv_portal :: "('w, ('t, 'l) api_state) portal_state"
  sv_mcp :: 'm
  sv_browser :: 'b
  sv_ready :: readiness

record ('t, 'l) req_env =
  re_parsers :: portal_parsers
  re_codec :: codec
  re_result_val :: "call_tool_result \<Rightarrow> goval"
  re_clock :: "nat \<Rightarrow> gotime"
  re_uids :: "nat \<Rightarrow> string"
  re_ctxErr :: "int \<Rightarrow> goerr option"
  re_encErr :: "int \<Rightarrow> goerr option"
  re_encode :: "event \<Rightarrow> string option"
  re_written :: "nat \<Rightarrow> bool"
  re_canFlush :: bool
  re_meanwhile :: "nat \<Rightarrow> 'l \<Rightarrow> sse_pick list \<times> 'l"
  re_key_env :: key_env
  re_create :: "create_key_req result"
  re_arguments :: "gomap result option"
  re_build :: build_info
  re_render :: "config \<Rightarrow> goval"

definition on_log :: "'l http_handler \<Rightarrow> ('t, 'l) api_state http_handler" where
  "on_log h c r s = (case h c r (as_log s) of (resp, l) \<Rightarrow> (resp, s\<lparr>as_log := l\<rparr>))"

definition on_portal :: "('w, ('t, 'l) api_state) portal_state http_handler \<Rightarrow> ('w, 't, 'l, 'm, 'b) server_state http_handler" where
  "on_portal h c r s = (case h c r (sv_portal s) of (resp, x) \<Rightarrow> (resp, s\<lparr>sv_portal := x\<rparr>))"

definition on_mcp :: "'m http_handler \<Rightarrow> ('w, 't, 'l, 'm, 'b) server_state http_handler" where
  "on_mcp h c r s = (case h c r (sv_mcp s) of (resp, x) \<Rightarrow> (resp, s\<lparr>sv_mcp := x\<rparr>))"

definition on_browser :: "'b http_handler \<Rightarrow> ('w, 't, 'l, 'm, 'b) server_state http_handler" where
  "on_browser h c r s = (case h c r (sv_browser s) of (resp, x) \<Rightarrow> (resp, s\<lparr>sv_browser := x\<rparr>))"

definition on_ready :: "readiness http_handler \<Rightarrow> ('w, 't, 'l, 'm, 'b) server_state http_handler" where
  "on_ready h c r s = (case h c r (sv_ready s) of (resp, x) \<Rightarrow> (resp, s\<lparr>sv_ready := x\<rparr>))"

definition path_value :: "bindings \<Rightarrow> string \<Rightarrow> string" where
  "path_value b name = (case map_of b name of None \<Rightarrow> [] | Some v \<Rightarrow> v)"

section \<open>Routes\<close>

type_synonym ('t, 'l) api_route = "string \<times> (bindings \<Rightarrow> ('t, 'l) api_state http_handler)"

text \<open>\<open>PortalAPI.Mount\<close> and \<open>AdminAPI.Mount\<close>: the routes behind the authentication alone, and those that
  also need the CSRF header.\<close>

definition portal_read_routes :: "('t, 'l) req_env \<Rightarrow> config \<Rightarrow> registry \<Rightarrow> ('t, 'l) portal_api \<Rightarrow> ('t, 'l) api_route list" where
  "portal_read_routes re cfg reg p =
     (let pp = re_parsers re; cd = re_codec re; au = pt_audit p
      in [(''GET /api/v1/portal/me'', \<lambda>b. me),
          (''GET /api/v1/portal/server'', \<lambda>b. server (re_build re) (re_render re) cfg),
          (''GET /api/v1/portal/instructions'', \<lambda>b. instructions cfg),
          (''GET /api/v1/portal/tools'', \<lambda>b. portal_tools reg),
          (''GET /api/v1/portal/tools/{name}'', \<lambda>b. toolDetail reg (path_value b ''name'')),
          (''GET /api/v1/portal/audit/meta'', \<lambda>b. on_log auditMeta),
          (''GET /api/v1/portal/audit/events'', \<lambda>b. on_log (auditEvents pp cd au)),
          (''GET /api/v1/portal/audit/events/{id}'', \<lambda>b. on_log (auditEventDetail pp cd au (path_value b ''id''))),
          (''GET /api/v1/portal/audit/export'', \<lambda>b. on_log (auditExport pp cd (re_ctxErr re) (re_encErr re) au)),
          (''GET /api/v1/portal/audit/stream'', \<lambda>b. on_log (auditStream (re_encode re) (re_written re) (re_canFlush re) (re_meanwhile re) au)),
          (''GET /api/v1/portal/audit/timeseries'', \<lambda>b. on_log (auditTimeseries pp cd au)),
          (''GET /api/v1/portal/audit/breakdown'', \<lambda>b. on_log (auditBreakdown pp au)),
          (''GET /api/v1/portal/dashboard'', \<lambda>b. on_log (dashboard cd (re_clock re 0) au)),
          (''GET /api/v1/portal/wellknown'', \<lambda>b. wellknown cfg)])"

definition portal_write_routes :: "('t, 'l) req_env \<Rightarrow> ('t, 'l) portal_api \<Rightarrow> ('t, 'l) api_route list" where
  "portal_write_routes re p =
     [(''POST /api/v1/portal/audit/events/{id}/replay'',
       \<lambda>b. auditReplay (re_parsers re) (re_codec re) (re_result_val re) (re_clock re) (re_uids re) p (path_value b ''id''))]"

definition admin_read_routes :: "('t, 'l) req_env \<Rightarrow> bool \<Rightarrow> ('t, 'l) api_route list" where
  "admin_read_routes re keys = [(''GET  /api/v1/admin/keys'', \<lambda>b. listKeys (re_codec re) keys (re_key_env re))]"

definition admin_write_routes :: "('t, 'l) req_env \<Rightarrow> bool \<Rightarrow> ('t, 'l) admin_api \<Rightarrow> ('t, 'l) api_route list" where
  "admin_write_routes re keys a =
     [(''POST /api/v1/admin/keys'', \<lambda>b. createKey (re_codec re) keys (re_key_env re) (re_create re)),
      (''DELETE /api/v1/admin/keys/{name}'', \<lambda>b. deleteKey keys (re_key_env re) (path_value b ''name'')),
      (''POST /api/v1/admin/tryit/{name}'',
       \<lambda>b. tryit (re_codec re) (re_result_val re) (re_clock re) (re_uids re 0) a (path_value b ''name'') (re_arguments re))]"

definition mount ::
  "(('t, 'l) api_state http_handler \<Rightarrow> ('w, 't, 'l, 'm, 'b) server_state http_handler) \<Rightarrow> ('t, 'l) api_route list \<Rightarrow>
   ('w, 't, 'l, 'm, 'b) server_state route list" where
  "mount mw rs = map (\<lambda>(pat, h). (parse_pattern pat, \<lambda>b. mw (h b))) rs"

definition mcpRootHandler :: "config \<Rightarrow> 'm http_handler \<Rightarrow> 'm http_handler" where
  "mcpRootHandler cfg streamable =
     (let rmURL = ProtectedResourceMetadataURL cfg;
          gated = MCPAuthGateway rmURL (ac_AllowAnonymous (cf_Auth cfg)) streamable
      in BrowserRedirect ''/portal/'' gated)"

definition base_routes :: "config \<Rightarrow> ('w, 't, 'l, 'm, 'b) server_state route list" where
  "base_routes cfg =
     [(parse_pattern ''GET /healthz'', \<lambda>b. HealthzHandler),
      (parse_pattern ''GET /readyz'', \<lambda>b. on_ready ReadyzHandler),
      (parse_pattern ''GET /.well-known/oauth-protected-resource'', \<lambda>b. ProtectedResourceMetadata cfg),
      (parse_pattern ''GET /.well-known/oauth-authorization-server'', \<lambda>b. AuthorizationServerStub cfg)]"

definition root_route :: "config \<Rightarrow> 'm http_handler \<Rightarrow> ('w, 't, 'l, 'm, 'b) server_state route" where
  "root_route cfg streamable = (parse_pattern ''/'', \<lambda>b. on_mcp (mcpRootHandler cfg streamable))"

definition buildMux :: "(string \<Rightarrow> http_response) \<Rightarrow> config \<Rightarrow> 'm http_handler \<Rightarrow> ('w, 't, 'l, 'm, 'b) server_state http_handler" where
  "buildMux redirect cfg streamable = CORS (ServeMux redirect (base_routes cfg @ [root_route cfg streamable]))"

record 'b browser_routes =
  br_login :: "'b http_handler"
  br_callback :: "'b http_handler"
  br_logout :: "'b http_handler"

definition browser_Mount :: "'b browser_routes \<Rightarrow> ('w, 't, 'l, 'm, 'b) server_state route list" where
  "browser_Mount b =
     [(parse_pattern ''GET /portal/auth/login'', \<lambda>_. on_browser (br_login b)),
      (parse_pattern ''GET /portal/auth/callback'', \<lambda>_. on_browser (br_callback b)),
      (parse_pattern ''POST /portal/auth/logout'', \<lambda>_. on_browser (br_logout b))]"

definition StripPrefix :: "string \<Rightarrow> 's middleware" where
  "StripPrefix pre handler c r s =
     (if has_prefix (rq_Path r) pre then handler c (r\<lparr>rq_Path := drop (length pre) (rq_Path r)\<rparr>) s
      else (text_error ''404 page not found'' 404, s))"

text \<open>The embedded files, if the app was built in; otherwise a placeholder page.\<close>

definition html_attr :: "string \<Rightarrow> string \<Rightarrow> string" where
  "html_attr name v = name @ ''='' @ [CHR 0x22] @ v @ [CHR 0x22]"

definition placeholder_link :: "string \<Rightarrow> string" where
  "placeholder_link path = ''<li><a '' @ html_attr ''href'' path @ ''>'' @ path @ ''</a></li>''"

definition placeholder :: string where
  "placeholder = join [CHR 0x0A]
     [''<!doctype html><html><body '' @ html_attr ''style'' ''font-family:system-ui;padding:2rem'' @ ''>'',
      ''<h1>mcp-test portal</h1>'',
      ''<p>The SPA hasn'' @ [CHR 0x27] @ ''t been built. Run <code>make ui</code> to populate <code>internal/ui/dist/</code> '' @
        ''before building the binary, or use the portal API directly:</p>'',
      ''<ul>'' @ placeholder_link ''/api/v1/portal/me'' @ placeholder_link ''/api/v1/portal/tools'' @
        placeholder_link ''/api/v1/portal/dashboard'' @ ''</ul>'',
      ''</body></html>'']"

definition spa_route ::
  "(string \<Rightarrow> string option) option \<Rightarrow> (http_request \<Rightarrow> http_response) \<Rightarrow> ('w, 't, 'l, 'm, 'b) server_state route" where
  "spa_route ui fileServer = (case ui of
     Some fs \<Rightarrow> (parse_pattern ''/portal/'', \<lambda>b. StripPrefix ''/portal'' (SPAHandler fs (\<lambda>c r s. (fileServer r, s))))
   | None \<Rightarrow> (parse_pattern ''GET /portal/'', \<lambda>b c r s.
       (set_headers [(''Content-Type'', ''text/html; charset=utf-8'')] (empty_response\<lparr>rs_Body := Raw placeholder\<rparr>), s)))"

record ('w, 't, 'l) portal_parts =
  pq_hmac :: hmac
  pq_session_json :: session_json
  pq_auth :: "'w portal_auth"
  pq_portal :: "('t, 'l) portal_api"
  pq_admin :: "('t, 'l) admin_api"
  pq_keys :: bool
  pq_registry :: registry

definition portal_mw ::
  "('t, 'l) req_env \<Rightarrow> ('w, 't, 'l) portal_parts \<Rightarrow> ('t, 'l) api_state http_handler \<Rightarrow> ('w, 't, 'l, 'm, 'b) server_state http_handler" where
  "portal_mw re pq h = on_portal (PortalAuth (pq_hmac pq) (pq_session_json pq) (re_clock re) (pq_auth pq) h)"

definition api_routes ::
  "('t, 'l) req_env \<Rightarrow> config \<Rightarrow> ('w, 't, 'l) portal_parts \<Rightarrow> ('w, 't, 'l, 'm, 'b) server_state route list" where
  "api_routes re cfg pq =
     mount (portal_mw re pq) (portal_read_routes re cfg (pq_registry pq) (pq_portal pq)) @
     mount (\<lambda>h. portal_mw re pq (requireCSRFHeader h)) (portal_write_routes re (pq_portal pq)) @
     mount (portal_mw re pq) (admin_read_routes re (pq_keys pq)) @
     mount (\<lambda>h. portal_mw re pq (requireCSRFHeader h)) (admin_write_routes re (pq_keys pq) (pq_admin pq))"

definition buildMuxWithPortal ::
  "(string \<Rightarrow> http_response) \<Rightarrow> ('t, 'l) req_env \<Rightarrow> config \<Rightarrow> 'm http_handler \<Rightarrow> 'b browser_routes option \<Rightarrow> ('w, 't, 'l) portal_parts \<Rightarrow>
   (string \<Rightarrow> string option) option \<Rightarrow> (http_request \<Rightarrow> http_response) \<Rightarrow> ('w, 't, 'l, 'm, 'b) server_state http_handler" where
  "buildMuxWithPortal redirect re cfg streamable browser pq ui fileServer =
     CORS (ServeMux redirect (base_routes cfg @ (case browser of None \<Rightarrow> [] | Some b \<Rightarrow> browser_Mount b) @
       api_routes re cfg pq @ [spa_route ui fileServer, root_route cfg streamable]))"

section \<open>The gates of the whole server\<close>

text \<open>What a response may have done to the state: \<open>who\<close> is the caller the portal recognises.\<close>

definition gated :: "bool \<Rightarrow> identity option \<Rightarrow> http_request \<Rightarrow> ('w, 't, 'l, 'm, 'b) server_state \<Rightarrow> ('w, 't, 'l, 'm, 'b) server_state \<Rightarrow> bool" where
  "gated anonymous who r s s' \<longleftrightarrow>
     (ps_handler (sv_portal s') = ps_handler (sv_portal s) \<or>
        (\<exists>i. who = Some i) \<and> (rq_Method r \<in> {''GET'', ''HEAD''} \<or> 0 < length (header_get (rq_Header r) ''X-Requested-With''))) \<and>
     (sv_mcp s' = sv_mcp s \<or> anonymous \<or> hasCredential r)"

lemma gated_same [simp]: "gated anonymous who r s s"
  by (simp add: gated_def)

lemma gated_mcp: "gated (ac_AllowAnonymous (cf_Auth cfg)) who r s (snd (on_mcp (mcpRootHandler cfg streamable) c r s))"
  by (simp add: gated_def on_mcp_def mcpRootHandler_def BrowserRedirect_def MCPAuthGateway_def Let_def split_beta)

lemma gated_browser: "gated anonymous who r s (snd (on_browser h c r s))"
  by (simp add: gated_def on_browser_def split_beta)

lemma gated_portal:
  assumes "rq_Method r \<in> {''GET'', ''HEAD''}"
  shows "gated anonymous (portal_caller (pq_hmac pq) (pq_session_json pq) (re_clock re) (pq_auth pq) c r (ps_world (sv_portal s))) r s
    (snd (portal_mw re pq h c r s))"
proof (cases "portal_caller (pq_hmac pq) (pq_session_json pq) (re_clock re) (pq_auth pq) c r (ps_world (sv_portal s))")
  case None
  from PortalAuth_refuses(2) [OF this] show ?thesis by (simp add: gated_def portal_mw_def on_portal_def split_beta)
next
  case (Some i)
  with assms show ?thesis by (simp add: gated_def portal_mw_def on_portal_def split_beta)
qed

lemma gated_portal_csrf:
  assumes "rq_Method r \<in> {''POST'', ''DELETE''}"
  shows "gated anonymous (portal_caller (pq_hmac pq) (pq_session_json pq) (re_clock re) (pq_auth pq) c r (ps_world (sv_portal s))) r s
    (snd (portal_mw re pq (requireCSRFHeader h) c r s))"
proof (cases "portal_caller (pq_hmac pq) (pq_session_json pq) (re_clock re) (pq_auth pq) c r (ps_world (sv_portal s))")
  case None
  from PortalAuth_refuses(2) [OF this] show ?thesis by (simp add: gated_def portal_mw_def on_portal_def split_beta)
next
  case (Some i)
  show ?thesis
  proof (cases "rq_Method r \<in> {''POST'', ''PUT'', ''PATCH'', ''DELETE''} \<and> header_get (rq_Header r) ''X-Requested-With'' = []")
    case True
    then have refuse: "requireCSRFHeader h c' r x = (text_error ''missing X-Requested-With header'' 403, x)" for c' x
      unfolding requireCSRFHeader_def by (rule if_P)
    from PortalAuth_serves [OF Some, of "requireCSRFHeader h"] show ?thesis
      by (auto simp: gated_def portal_mw_def on_portal_def split_beta refuse)
  next
    case False
    with assms have "0 < length (header_get (rq_Header r) ''X-Requested-With'')" by auto
    with Some show ?thesis by (simp add: gated_def portal_mw_def on_portal_def split_beta)
  qed
qed

lemma match_pattern_method: "match_pattern p method path = Some b \<Longrightarrow> pt_method p = Some m \<Longrightarrow> method = m \<or> m = ''GET'' \<and> method = ''HEAD''"
  by (auto simp: match_pattern_def match_method_def split: if_splits)

lemmas pattern_evals = parse_pattern_def cut_at_def Let_def

lemma read_route_methods:
  "(pat, h) \<in> set (portal_read_routes re cfg reg p) \<Longrightarrow> pt_method (parse_pattern pat) = Some ''GET''"
  "(pat, h) \<in> set (admin_read_routes re keys) \<Longrightarrow> pt_method (parse_pattern pat) = Some ''GET''"
  unfolding portal_read_routes_def admin_read_routes_def Let_def by (auto simp: pattern_evals)

lemma write_route_methods:
  "(pat, h) \<in> set (portal_write_routes re p) \<Longrightarrow> pt_method (parse_pattern pat) = Some ''POST''"
  "(pat, h) \<in> set (admin_write_routes re keys a) \<Longrightarrow> pt_method (parse_pattern pat) \<in> {Some ''POST'', Some ''DELETE''}"
  unfolding portal_write_routes_def admin_write_routes_def by (auto simp: pattern_evals)

lemma gated_api:
  assumes "(p, h) \<in> set (api_routes re cfg pq)" and "match_pattern p (rq_Method r) path = Some b"
  shows "gated anonymous (portal_caller (pq_hmac pq) (pq_session_json pq) (re_clock re) (pq_auth pq) c r (ps_world (sv_portal s))) r s
    (snd (h b c r s))"
proof -
  from assms(1) obtain pat k where p: "p = parse_pattern pat" and
    k: "(pat, k) \<in> set (portal_read_routes re cfg (pq_registry pq) (pq_portal pq)) \<union> set (admin_read_routes re (pq_keys pq)) \<and>
        h = (\<lambda>b. portal_mw re pq (k b)) \<or>
       (pat, k) \<in> set (portal_write_routes re (pq_portal pq)) \<union> set (admin_write_routes re (pq_keys pq) (pq_admin pq)) \<and>
        h = (\<lambda>b. portal_mw re pq (requireCSRFHeader (k b)))"
    by (auto simp: api_routes_def mount_def)
  from k show ?thesis
  proof
    assume r: "(pat, k) \<in> set (portal_read_routes re cfg (pq_registry pq) (pq_portal pq)) \<union> set (admin_read_routes re (pq_keys pq)) \<and>
        h = (\<lambda>b. portal_mw re pq (k b))"
    then have "pt_method p = Some ''GET''" using read_route_methods by (auto simp: p)
    with match_pattern_method [OF assms(2)] have "rq_Method r \<in> {''GET'', ''HEAD''}" by auto
    from gated_portal [OF this] r show ?thesis by simp
  next
    assume w: "(pat, k) \<in> set (portal_write_routes re (pq_portal pq)) \<union> set (admin_write_routes re (pq_keys pq) (pq_admin pq)) \<and>
        h = (\<lambda>b. portal_mw re pq (requireCSRFHeader (k b)))"
    then have "pt_method p \<in> {Some ''POST'', Some ''DELETE''}" using write_route_methods(1) [of pat k] write_route_methods(2) [of pat k] by (auto simp: p)
    with match_pattern_method [OF assms(2)] have "rq_Method r \<in> {''POST'', ''DELETE''}" by auto
    from gated_portal_csrf [OF this] w show ?thesis by simp
  qed
qed

lemma snd_CORS: "snd (CORS h c r s) = (if rq_Method r = ''OPTIONS'' then s else snd (h c r s))"
  by (simp add: CORS_def split: prod.split)

text \<open>The routes that reach neither the portal nor the MCP state.\<close>

lemma gated_base: "(p, h) \<in> set (base_routes cfg) \<Longrightarrow> gated anonymous who r s (snd (h b c r s))"
  by (auto simp: base_routes_def HealthzHandler_def on_ready_def ReadyzHandler_def ProtectedResourceMetadata_def
      AuthorizationServerStub_def Let_def gated_def split_beta)

lemma gated_spa: "(p, h) = spa_route ui fileServer \<Longrightarrow> gated anonymous who r s (snd (h b c r s))"
  by (auto simp: spa_route_def StripPrefix_def SPAHandler_def Let_def split: option.splits)

lemma gated_browser_routes: "(p, h) \<in> set (browser_Mount x) \<Longrightarrow> gated anonymous who r s (snd (h b c r s))"
  by (auto simp: browser_Mount_def gated_browser)

lemma buildMux_gated:
  "gated (ac_AllowAnonymous (cf_Auth cfg)) who r s (snd (buildMux redirect cfg streamable c r s))"
proof -
  have "gated (ac_AllowAnonymous (cf_Auth cfg)) who r s (snd (ServeMux redirect (base_routes cfg @ [root_route cfg streamable]) c r s))"
    by (rule ServeMux_cases [where P = "\<lambda>x. gated (ac_AllowAnonymous (cf_Auth cfg)) who r s (snd x)"])
       (auto simp: root_route_def gated_mcp intro: gated_base)
  then show ?thesis by (simp add: buildMux_def snd_CORS)
qed

lemma buildMuxWithPortal_gated:
  "gated (ac_AllowAnonymous (cf_Auth cfg))
     (portal_caller (pq_hmac pq) (pq_session_json pq) (re_clock re) (pq_auth pq) c r (ps_world (sv_portal s))) r s
     (snd (buildMuxWithPortal redirect re cfg streamable browser pq ui fileServer c r s))"
proof -
  let ?who = "portal_caller (pq_hmac pq) (pq_session_json pq) (re_clock re) (pq_auth pq) c r (ps_world (sv_portal s))"
  let ?g = "\<lambda>x. gated (ac_AllowAnonymous (cf_Auth cfg)) ?who r s (snd x)"
  have "?g (ServeMux redirect (base_routes cfg @ (case browser of None \<Rightarrow> [] | Some b \<Rightarrow> browser_Mount b) @
       api_routes re cfg pq @ [spa_route ui fileServer, root_route cfg streamable]) c r s)"
  proof (rule ServeMux_cases)
    fix p h b
    assume "(p, h) \<in> set (base_routes cfg @ (case browser of None \<Rightarrow> [] | Some b \<Rightarrow> browser_Mount b) @
       api_routes re cfg pq @ [spa_route ui fileServer, root_route cfg streamable])"
      and m: "match_pattern p (rq_Method r) (rq_Path r) = Some b"
    then consider "(p, h) \<in> set (base_routes cfg)" | x where "(p, h) \<in> set (browser_Mount x)" | "(p, h) \<in> set (api_routes re cfg pq)"
      | "(p, h) = spa_route ui fileServer" | "(p, h) = root_route cfg streamable"
      by (auto split: option.splits)
    then show "?g (h b c r s)"
      using gated_base gated_browser_routes gated_api [OF _ m] gated_spa gated_mcp by cases (auto simp: root_route_def)
  qed simp
  then show ?thesis by (simp add: buildMuxWithPortal_def snd_CORS)
qed

end
