(* ===== verification/Server_Lifecycle.thy ===== *)
theory Server_Lifecycle
  imports Server
begin

text \<open>
  The life of the process: opening the database (\<open>pkg/database/pg.go\<close>), building the application
  with and without a database, \<open>Run\<close> and \<open>Close\<close> (\<open>internal/server/server.go\<close>), and the command
  (\<open>cmd/mcp-test/main.go\<close>). What goes wrong outside (migrations, the pool, the listener, signals) is
  an argument; the acquisition and release of the pool, the drain and the log lines are a trace of
  actions.
\<close>

section \<open>Actions\<close>

datatype action =
    Migrated
  | PoolOpened
  | PoolClosed
  | AsyncStarted
  | AsyncClosed
  | Listening
  | SetReadiness bool
  | Slept duration
  | ShutdownWithin duration

section \<open>The database pool\<close>

record pool_config =
  pc_MaxConns :: int
  pc_MinConns :: int
  pc_MaxConnLifetime :: duration

record pgx =
  px_ParseConfig :: "string \<Rightarrow> pool_config result"
  px_New :: "pool_config \<Rightarrow> goerr option"
  px_Ping :: "goerr option"

definition tune_pool :: "database_config \<Rightarrow> pool_config \<Rightarrow> pool_config" where
  "tune_pool cfg p =
     (let p = (if db_MaxOpenConns cfg > 0 then p\<lparr>pc_MaxConns := db_MaxOpenConns cfg\<rparr> else p);
          p = (if db_MaxIdleConns cfg > 0 then p\<lparr>pc_MinConns := db_MaxIdleConns cfg\<rparr> else p)
      in if db_ConnMaxLifetime cfg > 0 then p\<lparr>pc_MaxConnLifetime := db_ConnMaxLifetime cfg\<rparr> else p)"

definition database_Open :: "pgx \<Rightarrow> database_config \<Rightarrow> pool_config result \<times> action list" where
  "database_Open px cfg = (case px_ParseConfig px (db_URL cfg) of
     Inl e \<Rightarrow> (Inl (ErrMsg (''parse database url: '' @ err_text e)), [])
   | Inr pcfg \<Rightarrow>
       (let pcfg = tune_pool cfg pcfg
        in case px_New px pcfg of
             Some e \<Rightarrow> (Inl (ErrMsg (''connect: '' @ err_text e)), [])
           | None \<Rightarrow>
               (case px_Ping px of
                  Some e \<Rightarrow> (Inl (ErrMsg (''ping: '' @ err_text e)), [PoolOpened, PoolClosed])
                | None \<Rightarrow> (Inr pcfg, [PoolOpened]))))"

section \<open>Migrations\<close>

text \<open>golang-migrate as the code uses it: loading the embedded files, opening an instance on a URL, and
  the two operations on it; having nothing to do is an error of its own.\<close>

datatype migrate_error = ErrNoChange | MigrateError goerr

record migrator =
  mi_load :: "goerr option"
  mi_init :: "string \<Rightarrow> goerr option"
  mi_Up :: "string \<Rightarrow> migrate_error option"
  mi_Down :: "string \<Rightarrow> migrate_error option"

definition toMigrateURL :: "string \<Rightarrow> string" where
  "toMigrateURL dsn =
     (if has_prefix dsn ''postgres://'' then ''pgx5://'' @ trim_prefix ''postgres://'' dsn
      else if has_prefix dsn ''postgresql://'' then ''pgx5://'' @ trim_prefix ''postgresql://'' dsn
      else dsn)"

definition runMigration :: "migrator \<Rightarrow> string \<Rightarrow> (string \<Rightarrow> migrate_error option) \<Rightarrow> goerr option" where
  "runMigration mi databaseURL op = (case mi_load mi of
     Some e \<Rightarrow> Some (ErrMsg (''load migrations: '' @ err_text e))
   | None \<Rightarrow>
       (let url = toMigrateURL databaseURL
        in case mi_init mi url of
             Some e \<Rightarrow> Some (ErrMsg (''init migrate: '' @ err_text e))
           | None \<Rightarrow>
               (case op url of
                  Some (MigrateError e) \<Rightarrow> Some (ErrMsg (''apply migrations: '' @ err_text e))
                | _ \<Rightarrow> None)))"

definition migrate_Up :: "migrator \<Rightarrow> string \<Rightarrow> goerr option" where
  "migrate_Up mi databaseURL = runMigration mi databaseURL (mi_Up mi)"

definition migrate_Down :: "migrator \<Rightarrow> string \<Rightarrow> goerr option" where
  "migrate_Down mi databaseURL = runMigration mi databaseURL (mi_Down mi)"

section \<open>Building\<close>

record build_env =
  be_migrate :: migrator
  be_pgx :: pgx
  be_oidc_json :: oidc_json
  be_net :: net
  be_now :: gotime
  be_crypto :: crypto
  be_endpoints :: "string \<Rightarrow> (string \<times> string) result"

text \<open>The parts of an application; \<open>ap_portal\<close> says which of the two muxes it serves.\<close>

record application =
  ap_cfg :: config
  ap_tools :: "mcp_tool list"
  ap_pool :: bool
  ap_async :: "async_logger option"
  ap_registry :: registry
  ap_options :: audit_options
  ap_dbKeys :: bool
  ap_oidc :: "oidc_state option"
  ap_sessions :: "session_store option"
  ap_browser :: "browser_auth option"
  ap_readiness :: readiness
  ap_portal :: bool

definition registered_tools :: "registry \<Rightarrow> mcp_tool list" where
  "registered_tools r = concat (map tk_RegisterTools (Registry_Toolkits r))"

definition buildFromDeps :: "config \<Rightarrow> application" where
  "buildFromDeps cfg = \<lparr>ap_cfg = cfg, ap_tools = registered_tools (buildRegistry cfg), ap_pool = False, ap_async = None, ap_registry = buildRegistry cfg,
     ap_options = applied_options (auditOptions (cf_Audit cfg)), ap_dbKeys = False, ap_oidc = None, ap_sessions = None,
     ap_browser = None, ap_readiness = NewReadiness, ap_portal = False\<rparr>"

definition wrapped :: "string \<Rightarrow> goerr \<Rightarrow> goerr" where
  "wrapped msg e = ErrMsg (msg @ '': '' @ err_text e)"

text \<open>The tail of \<open>Build\<close> once the pool is open: every early return closes it.\<close>

definition build_portal :: "build_env \<Rightarrow> application \<Rightarrow> application result" where
  "build_portal be app =
     (let cfg = ap_cfg app
      in if \<not> po_Enabled (cf_Portal cfg) then Inr app
         else case NewSessionStore (po_CookieName (cf_Portal cfg)) (po_CookieSecret (cf_Portal cfg)) (po_CookieSecure (cf_Portal cfg)) (12 * hour) of
           Inl e \<Rightarrow> Inl (wrapped ''session store'' e)
         | Inr sessions \<Rightarrow>
             (let app = app\<lparr>ap_sessions := Some sessions\<rparr>
              in case ap_oidc app of
                   None \<Rightarrow> Inr (app\<lparr>ap_portal := True\<rparr>)
                 | Some _ \<Rightarrow>
                     (case NewBrowserAuth (be_crypto be) (be_endpoints be) (be_net be) cfg True sessions of
                        Inl e \<Rightarrow> Inl (wrapped ''browser auth'' e)
                      | Inr ba \<Rightarrow> Inr (app\<lparr>ap_browser := Some ba, ap_portal := True\<rparr>))))"

definition build_with_pool :: "build_env \<Rightarrow> config \<Rightarrow> application result" where
  "build_with_pool be cfg =
     (let async = (if au_Enabled (cf_Audit cfg) then Some (NewAsyncLogger 4096 (5 * second)) else None);
          oidc = (if oc_Enabled (cf_OIDC cfg)
                  then (case NewOIDC (cf_OIDC cfg) (be_oidc_json be) (be_net be) (be_now be) of
                          Inl e \<Rightarrow> Inl (wrapped ''oidc'' e) | Inr v \<Rightarrow> Inr (Some v))
                  else Inr None)
      in rbind oidc (\<lambda>oidc. build_portal be ((buildFromDeps cfg)
           \<lparr>ap_pool := True, ap_dbKeys := ak_DBEnabled (cf_APIKeys cfg), ap_oidc := oidc, ap_async := async\<rparr>)))"

definition Build :: "build_env \<Rightarrow> config \<Rightarrow> application result \<times> action list" where
  "Build be cfg = (case migrate_Up (be_migrate be) (db_URL (cf_Database cfg)) of
     Some e \<Rightarrow> (Inl (wrapped ''migrations'' e), [])
   | None \<Rightarrow>
       (case database_Open (be_pgx be) (cf_Database cfg) of
          (Inl e, acts) \<Rightarrow> (Inl (wrapped ''database'' e), Migrated # acts)
        | (Inr _, acts) \<Rightarrow>
            (let acts = Migrated # acts @ (if au_Enabled (cf_Audit cfg) then [AsyncStarted] else [])
             in case build_with_pool be cfg of
                  Inl e \<Rightarrow> (Inl e, acts @ [PoolClosed])
                | Inr app \<Rightarrow> (Inr app, acts))))"

text \<open>The error of a short secret is dropped: the sessions are nil then.\<close>

definition BuildWithDeps :: "config \<Rightarrow> application" where
  "BuildWithDeps cfg =
     (let app = buildFromDeps cfg
      in if \<not> po_Enabled (cf_Portal cfg) then app
         else let sessions = (if po_CookieSecret (cf_Portal cfg) = [] then None
                   else case NewSessionStore (po_CookieName (cf_Portal cfg)) (po_CookieSecret (cf_Portal cfg)) False hour of
                          Inl _ \<Rightarrow> None | Inr st \<Rightarrow> Some st)
              in app\<lparr>ap_sessions := sessions, ap_portal := True\<rparr>)"

text \<open>The chain of \<open>Build\<close>: the stores act on the key table and the OIDC state.\<close>

definition build_chain ::
  "config \<Rightarrow> (string \<Rightarrow> db_key list \<Rightarrow> identity result \<times> db_key list) \<Rightarrow> (string \<Rightarrow> oidc_state \<Rightarrow> identity result \<times> oidc_state) \<Rightarrow>
   (db_key list \<times> oidc_state) chain" where
  "build_chain cfg dbAuth validate =
     (let fileStore = (\<lambda>key s. (file_Authenticate (NewFileAPIKeyStore (ak_File (cf_APIKeys cfg))) key, s));
          dbStore = (\<lambda>key (t, o'). case dbAuth key t of (r, t') \<Rightarrow> (r, (t', o')));
          keyStore = (if ak_DBEnabled (cf_APIKeys cfg) then CombineKeyStores (Some fileStore) (Some dbStore) else Some fileStore);
          oidc = (if oc_Enabled (cf_OIDC cfg) then Some (\<lambda>tok (t, o'). case validate tok o' of (r, o'') \<Rightarrow> (r, (t, o''))) else None)
      in NewChain (ac_AllowAnonymous (cf_Auth cfg)) keyStore oidc)"

text \<open>What \<open>Build\<close> hands to the portal: the registry, the audit logger and the redaction keys of the
  middleware, the sessions of the application and its chain.\<close>

definition app_parts ::
  "hmac \<Rightarrow> session_json \<Rightarrow> 'w chain \<Rightarrow> 'l audit_api \<Rightarrow> 't mcp_client \<Rightarrow> application \<Rightarrow> ('w, 't, 'l) portal_parts" where
  "app_parts hmac sj ch auditLog mcpServer app =
     (let redactKeys = au_RedactKeys (cf_Audit (ap_cfg app))
      in \<lparr>pq_hmac = hmac, pq_session_json = sj, pq_auth = \<lparr>pa_sessions = ap_sessions app, pa_chain = Some ch\<rparr>,
          pq_portal = NewPortalAPI (Some (ap_registry app)) auditLog (Some mcpServer) redactKeys,
          pq_admin = NewAdminAPI (Some mcpServer) (Some auditLog) (Some (ap_registry app)) redactKeys,
          pq_keys = ap_dbKeys app, pq_registry = ap_registry app\<rparr>)"

text \<open>The mux of an application; \<open>browser\<close> are the handlers of its browser login.\<close>

definition Handler ::
  "(string \<Rightarrow> http_response) \<Rightarrow> ('t, 'l) req_env \<Rightarrow> 'm http_handler \<Rightarrow> (browser_auth \<Rightarrow> 'b browser_routes) \<Rightarrow> ('w, 't, 'l) portal_parts \<Rightarrow>
   (string \<Rightarrow> string option) option \<Rightarrow> (http_request \<Rightarrow> http_response) \<Rightarrow> application \<Rightarrow> ('w, 't, 'l, 'm, 'b) server_state http_handler" where
  "Handler redirect re streamable browser parts ui fileServer app =
     (if ap_portal app
      then buildMuxWithPortal redirect re (ap_cfg app) streamable (map_option browser (ap_browser app)) parts ui fileServer
      else buildMux redirect (ap_cfg app) streamable)"

section \<open>Closing and running\<close>

definition Close :: "application \<Rightarrow> action list" where
  "Close app = (if ap_async app \<noteq> None then [AsyncClosed] else []) @ (if ap_pool app then [PoolClosed] else [])"

text \<open>What the first select of \<open>Run\<close> picks: a listener that ended (with its error; none when the
  channel was closed), or the context.\<close>

datatype wake = ListenerEnded "goerr option" | ContextDone

text \<open>\<open>rn_ctxDoneAt\<close> is when the context ended, \<open>rn_drainAt\<close> when the second select is reached,
  \<open>rn_listenerAt\<close> when the listener ends during the drain, if it does.\<close>

record run_env =
  rn_wake :: wake
  rn_ctxDoneAt :: gotime
  rn_drainAt :: gotime
  rn_listenerAt :: "gotime option"
  rn_shutdownErr :: "goerr option"

text \<open>How long a select waits: until the first of its cases is ready. A channel that was ready before
  counts as ready at once.\<close>

definition select_wait :: "gotime \<Rightarrow> gotime list \<Rightarrow> duration" where
  "select_wait now ready = (case ready of [] \<Rightarrow> 0 | t # ts \<Rightarrow> max 0 (fold min ts t - now))"

definition pre_shutdown_wait :: "duration \<Rightarrow> run_env \<Rightarrow> duration" where
  "pre_shutdown_wait d rn = select_wait (rn_drainAt rn)
     ([rn_drainAt rn + d] @ (case rn_listenerAt rn of None \<Rightarrow> [] | Some t \<Rightarrow> [t]) @ [rn_ctxDoneAt rn])"

definition Run :: "run_env \<Rightarrow> application \<Rightarrow> goerr option \<times> action list \<times> application" where
  "Run rn app = (case rn_wake rn of
     ListenerEnded e \<Rightarrow> (e, [Listening], app)
   | ContextDone \<Rightarrow>
       (let app = app\<lparr>ap_readiness := SetReady False (ap_readiness app)\<rparr>;
            sh = sc_Shutdown (cf_Server (ap_cfg app));
            d = sh_PreShutdownDelay sh;
            acts = [Listening, SetReadiness False] @ (if d > 0 then [Slept (pre_shutdown_wait d rn)] else []) @
                   [ShutdownWithin (sh_GracePeriod sh)]
        in case rn_shutdownErr rn of
             Some e \<Rightarrow> (Some (wrapped ''shutdown'' e), acts, app)
           | None \<Rightarrow> (None, acts, app)))"

definition Version :: "build_info \<Rightarrow> string" where
  "Version b = join '' '' [bi_Version b, bi_Commit b, bi_Date b]"

section \<open>The command\<close>

record flags =
  fl_config :: string
  fl_address :: string
  fl_version :: bool
  fl_healthcheck :: bool

definition runHealthcheck :: "(string \<Rightarrow> string option) \<Rightarrow> net \<Rightarrow> goerr option" where
  "runHealthcheck env net =
     (let url = (case env ''MCPTEST_HEALTHCHECK_URL'' of None \<Rightarrow> [] | Some v \<Rightarrow> v);
          url = (if url = [] then ''http://127.0.0.1:8080/healthz'' else url)
      in case net url of
           Inl e \<Rightarrow> Some (wrapped ''healthcheck'' e)
         | Inr (status, _) \<Rightarrow>
             if status \<noteq> 200 then Some (ErrMsg (''healthcheck: status '' @ show_int status)) else None)"

datatype log_level = LevelDebug | LevelInfo | LevelWarn | LevelError

definition newLogger :: "(string \<Rightarrow> string option) \<Rightarrow> log_level" where
  "newLogger env =
     (let v = (case env ''LOG_LEVEL'' of None \<Rightarrow> [] | Some v \<Rightarrow> v)
      in if v = ''debug'' \<or> v = ''DEBUG'' then LevelDebug
         else if v = ''warn'' \<or> v = ''WARN'' then LevelWarn
         else if v = ''error'' \<or> v = ''ERROR'' then LevelError
         else LevelInfo)"

text \<open>\<open>run\<close>: the line printed, the error and the actions; \<open>defer app.Close()\<close> runs on every way out.\<close>

definition run_command ::
  "(string \<Rightarrow> string option) \<Rightarrow> net \<Rightarrow> build_info \<Rightarrow> (string \<Rightarrow> string result) \<Rightarrow> (string \<Rightarrow> config result) \<Rightarrow> build_env \<Rightarrow> run_env \<Rightarrow> flags \<Rightarrow>
   string \<times> goerr option \<times> action list" where
  "run_command env net b files yaml be rn fl =
     (if fl_version fl then (Version b, None, [])
      else if fl_healthcheck fl then ([], runHealthcheck env net, [])
      else case Load (files (fl_config fl)) yaml env (fl_config fl) of
        Inl e \<Rightarrow> ([], Some e, [])
      | Inr cfg \<Rightarrow>
          (let cfg = (if fl_address fl \<noteq> [] then cfg\<lparr>cf_Server := (cf_Server cfg)\<lparr>sc_Address := fl_address fl\<rparr>\<rparr> else cfg)
           in case Build be cfg of
                (Inl e, acts) \<Rightarrow> ([], Some e, acts)
              | (Inr app, acts) \<Rightarrow>
                  (case Run rn app of (err, acts', app') \<Rightarrow> ([], err, acts @ acts' @ Close app'))))"

section \<open>Wiring\<close>

definition registry_of :: "string list \<Rightarrow> bool \<Rightarrow> bool \<Rightarrow> bool \<Rightarrow> bool \<Rightarrow> registry" where
  "registry_of ks i d f t =
     (let r = NewRegistry;
          r = (if i then Registry_Add (identity_toolkit ks) r else r);
          r = (if d then Registry_Add data_toolkit r else r);
          r = (if f then Registry_Add failure_toolkit r else r);
          r = (if t then Registry_Add streaming_toolkit r else r)
      in r)"

definition coherent :: "bool \<Rightarrow> bool \<Rightarrow> bool \<Rightarrow> bool \<Rightarrow> registry \<Rightarrow> bool" where
  "coherent i d f t r \<longleftrightarrow>
     distinct (map tm_Name (Registry_All r)) \<and>
     list_all (\<lambda>m. map_of (Registry_Groups r) (tm_Name m) = Some (tm_Group m)) (Registry_All r) \<and>
     set (map fst (Registry_Groups r)) = set (map tm_Name (Registry_All r)) \<and>
     map (\<lambda>g. length (filter (\<lambda>m. tm_Group m = g) (Registry_All r))) [''identity'', ''data'', ''failure'', ''streaming''] =
       [if i then 3 else 0, if d then 3 else 0, if f then 3 else 0, if t then 3 else 0] \<and>
     map mt_Name (registered_tools r) = map tm_Name (Registry_All r)"

lemma registry_of_coherent: "\<forall>i d f t. coherent i d f t (registry_of ks i d f t)"
  by code_simp

text \<open>The tool registry built from a configuration is coherent: tool names are unique; the group map
  names exactly the tools of the catalogue and gives each the group its own entry has, so an audit row's
  group agrees with the portal's catalogue; each of the four groups is present with its three tools
  exactly if the configuration enables it; and the tools registered with the MCP server are exactly those
  of the catalogue, in its order, so what the portal lists (and lets be replayed) can be called.\<close>

theorem registry_coherent:
  "coherent (to_Identity (cf_Tools cfg)) (to_Data (cf_Tools cfg)) (to_Failure (cf_Tools cfg)) (to_Streaming (cf_Tools cfg)) (buildRegistry cfg)"
  using registry_of_coherent by (simp add: buildRegistry_def registry_of_def)

text \<open>The middleware captures what the configuration says. Payload capture is on exactly if it
  is not switched off; headers are captured exactly if neither switch is off; and with capture on, the
  byte and notification limits are the configured ones when positive and the defaults otherwise.\<close>

theorem audit_options_faithful:
  "let o' = applied_options (auditOptions cfg)
   in ao_capturePayloads o' = CapturePayloadsEnabled cfg \<and>
      ao_captureHeaders o' = (CapturePayloadsEnabled cfg \<and> CaptureHeadersEnabled cfg) \<and>
      ao_maxPayloadBytes o' = (if CapturePayloadsEnabled cfg \<and> 0 < au_MaxPayloadBytes cfg then au_MaxPayloadBytes cfg else 65536) \<and>
      ao_maxNotifications o' = (if CapturePayloadsEnabled cfg \<and> 0 < au_MaxNotifications cfg then au_MaxNotifications cfg else 100)"
  by (simp add: applied_options_def auditOptions_def defaultAuditOptions_def WithPayloadCapture_def WithHeaderCapture_def
      WithMaxNotifications_def Let_def)

section \<open>Gates\<close>


section \<open>Resources\<close>

lemma build_portal_keeps:
  "build_portal be app = Inr app' \<Longrightarrow> ap_pool app' = ap_pool app \<and> ap_async app' = ap_async app \<and> ap_cfg app' = ap_cfg app \<and>
     ap_registry app' = ap_registry app \<and> ap_options app' = ap_options app \<and> ap_oidc app' = ap_oidc app"
  by (auto simp: build_portal_def Let_def split: if_splits sum.splits option.splits)

lemma Build_Inr:
  assumes "Build be cfg = (Inr app, acts)"
  shows "ap_pool app \<and> ap_cfg app = cfg \<and> (ap_async app \<noteq> None) = au_Enabled (cf_Audit cfg) \<and>
    acts = [Migrated, PoolOpened] @ (if au_Enabled (cf_Audit cfg) then [AsyncStarted] else [])"
  using assms
  by (auto simp: Build_def database_Open_def build_with_pool_def buildFromDeps_def rbind_Inr Let_def
      dest!: build_portal_keeps split: option.splits sum.splits prod.splits if_splits)

lemma Build_Inl:
  assumes "Build be cfg = (Inl e, acts)"
  shows "count_list acts PoolOpened = count_list acts PoolClosed \<and> count_list acts PoolOpened \<le> 1"
  using assms
  by (auto simp: Build_def database_Open_def Let_def split: option.splits sum.splits prod.splits if_splits)

text \<open>When \<open>Build\<close> fails after the audit queue was started, its worker is not stopped.\<close>

lemma build_error_leaves_worker:
  assumes "Build be cfg = (Inl e, acts)"
  shows "AsyncClosed \<notin> set acts"
  using assms
  by (auto simp: Build_def database_Open_def Let_def split: option.splits sum.splits prod.splits if_splits)

text \<open>A trace in which the pool is opened at most once, closed as often as opened, and never before the
  audit queue has been drained.\<close>

definition orderly :: "action list \<Rightarrow> bool" where
  "orderly acts \<longleftrightarrow> count_list acts PoolOpened = count_list acts PoolClosed \<and> count_list acts PoolOpened \<le> 1 \<and>
     (if AsyncClosed \<in> set acts then PoolClosed \<notin> set (takeWhile (\<lambda>a. a \<noteq> AsyncClosed) acts) else True)"

text \<open>C40: The command releases the database on every way out. Whatever fails (the configuration, the
  migrations, the connection, the identity provider, the session store, the listener, the shutdown),
  a pool that was opened is closed exactly once before the command returns, and none is closed that
  was not opened; and when the audit queue is drained, the pool is still open.\<close>

theorem command_releases_pool:
  "case run_command env net b files yaml be rn fl of (out, err, acts) \<Rightarrow> orderly acts"
proof -
  let ?ok = "\<lambda>x :: string \<times> goerr option \<times> action list. case x of (out, err, acts) \<Rightarrow> orderly acts"
  have "?ok (case Build be cfg of
                (Inl e, acts) \<Rightarrow> ([], Some e, acts)
              | (Inr app, acts) \<Rightarrow> (case Run rn app of (err, acts', app') \<Rightarrow> ([], err, acts @ acts' @ Close app')))" for cfg
  proof (cases "Build be cfg")
    case (Pair res acts)
    show ?thesis
    proof (cases res)
      case (Inl e)
      from Build_Inl [OF Pair [unfolded Inl]] build_error_leaves_worker [OF Pair [unfolded Inl]] show ?thesis
        by (simp add: Pair Inl orderly_def)
    next
      case (Inr app)
      from Build_Inr [OF Pair [unfolded Inr]] show ?thesis
        by (auto simp: Pair Inr Run_def Close_def Let_def orderly_def split: wake.split option.split)
    qed
  qed
  then show ?thesis
    unfolding run_command_def Let_def by (simp only: split: if_split sum.split) (simp add: orderly_def)
qed

text \<open>A drain is orderly. When the context ends, readiness is withdrawn before the listener is
  shut down with the configured grace period, and \<open>Run\<close> fails only with the error of the
  shutdown; when the listener ends first, its error is returned and the application stays as it was.\<close>

theorem run_drains:
  "case Run rn app of (err, acts, app') \<Rightarrow>
     (case rn_wake rn of
        ListenerEnded e \<Rightarrow> err = e \<and> acts = [Listening] \<and> app' = app
      | ContextDone \<Rightarrow>
          \<not> rd_ready (ap_readiness app') \<and> rs_Status (fst (ReadyzHandler c r (ap_readiness app'))) = 503 \<and>
          (\<exists>wait. acts = [Listening, SetReadiness False] @ wait @ [ShutdownWithin (sh_GracePeriod (sc_Shutdown (cf_Server (ap_cfg app))))]) \<and>
          (err = None) = (rn_shutdownErr rn = None))"
  by (auto simp: Run_def SetReady_def ReadyzHandler_def Let_def split: wake.split option.split)

text \<open>The context that started the drain has already ended when the delay begins, and it is one of
  the cases of the delay's select: the delay never waits.\<close>

lemma pre_shutdown_delay_skipped:
  assumes "rn_ctxDoneAt rn \<le> rn_drainAt rn"
  shows "pre_shutdown_wait d rn = 0"
  using assms by (simp add: pre_shutdown_wait_def select_wait_def split: option.split)

end
