(* ===== verification/Portal_Quota.thy ===== *)
theory Portal_Quota
  imports Server
begin

text \<open>
  The replay quota of the whole portal: \<open>auditReplay\<close> of \<open>pkg/httpsrv/portal_api.go\<close> together
  with the limiter of \<open>pkg/httpsrv/ratelimit.go\<close>, over histories of requests to the portal and admin
  APIs by any number of callers. To count the calls, the tools' state is paired with a list of
  the rate-limit keys under which the replay client was called; no code reads it.
\<close>

section \<open>Counting replays\<close>

text \<open>The client of replays notes the key of the identity on its context; that of Try-It does not.\<close>

definition counted :: "'t mcp_client \<Rightarrow> ('t \<times> string list) mcp_client" where
  "counted mc = \<lparr>mc_serverConnect = mc_serverConnect mc, mc_clientConnect = mc_clientConnect mc,
     mc_CallTool = (\<lambda>c name args (t, keys). case mc_CallTool mc c name args t of
       (res, t') \<Rightarrow> (res, (t', keys @ [identityKey (GetIdentity c)])))\<rparr>"

definition uncounted :: "'t mcp_client \<Rightarrow> ('t \<times> string list) mcp_client" where
  "uncounted mc = \<lparr>mc_serverConnect = mc_serverConnect mc, mc_clientConnect = mc_clientConnect mc,
     mc_CallTool = (\<lambda>c name args (t, keys). case mc_CallTool mc c name args t of (res, t') \<Rightarrow> (res, (t', keys)))\<rparr>"

abbreviation replays :: "('t \<times> string list, 'l) api_state \<Rightarrow> string list" where
  "replays s \<equiv> snd (as_tools s)"

text \<open>A request: a replay with its clock, uuids, path value, context and request, or a request to another route.\<close>

datatype ('t, 'l) portal_op =
    Replay "nat \<Rightarrow> gotime" "nat \<Rightarrow> string" string ctx http_request
  | Other "('t, 'l) api_state http_handler" ctx http_request

fun op_step :: "portal_parsers \<Rightarrow> codec \<Rightarrow> (call_tool_result \<Rightarrow> goval) \<Rightarrow> ('t, 'l) portal_api \<Rightarrow> ('t, 'l) portal_op \<Rightarrow>
   ('t, 'l) api_state \<Rightarrow> ('t, 'l) api_state" where
  "op_step pp cd rv p (Replay clock uids rawID c r) s = snd (auditReplay pp cd rv clock uids p rawID c r s)"
| "op_step pp cd rv p (Other h c r) s = snd (h c r s)"

definition portal_run :: "portal_parsers \<Rightarrow> codec \<Rightarrow> (call_tool_result \<Rightarrow> goval) \<Rightarrow> ('t, 'l) portal_api \<Rightarrow> ('t, 'l) portal_op list \<Rightarrow>
   ('t, 'l) api_state \<Rightarrow> ('t, 'l) api_state" where
  "portal_run pp cd rv p ops s = fold (op_step pp cd rv p) ops s"

fun replay_times :: "('t, 'l) portal_op list \<Rightarrow> gotime list" where
  "replay_times [] = []"
| "replay_times (Replay clock uids rawID c r # ops) = clock 0 # replay_times ops"
| "replay_times (Other h c r # ops) = replay_times ops"

lemma replay_times_append [simp]: "replay_times (xs @ ys) = replay_times xs @ replay_times ys"
  by (induction xs rule: replay_times.induct) simp_all

text \<open>A handler that leaves the limiter and the count alone.\<close>

definition quota_neutral :: "('t \<times> string list, 'l) api_state http_handler \<Rightarrow> bool" where
  "quota_neutral h \<longleftrightarrow> (\<forall>c r s. as_limiter (snd (h c r s)) = as_limiter s \<and> replays (snd (h c r s)) = replays s)"

fun neutral_op :: "('t \<times> string list, 'l) portal_op \<Rightarrow> bool" where
  "neutral_op (Replay clock uids rawID c r) = True"
| "neutral_op (Other h c r) = quota_neutral h"

section \<open>The other routes\<close>

lemma neutral_on_log: "quota_neutral (on_log h)"
  by (simp add: quota_neutral_def on_log_def split: prod.split)

lemma neutral_static:
  "quota_neutral me" "quota_neutral (server b render cfg)" "quota_neutral (instructions cfg)" "quota_neutral (portal_tools reg)"
  "quota_neutral (toolDetail reg name)" "quota_neutral (wellknown cfg)" "quota_neutral (listKeys cd en ke)"
  by (simp_all add: quota_neutral_def me_def server_def instructions_def portal_tools_def toolDetail_def wellknown_def listKeys_def
      split: option.split sum.split)

lemma neutral_read: "(pat, h) \<in> set (portal_read_routes re cfg reg p) \<Longrightarrow> quota_neutral (h b)"
  unfolding portal_read_routes_def Let_def by (auto simp: neutral_on_log neutral_static)

lemma neutral_list: "(pat, h) \<in> set (admin_read_routes re keys) \<Longrightarrow> quota_neutral (h b)"
  by (simp add: admin_read_routes_def neutral_static)

lemma neutral_keys: "quota_neutral (createKey cd en ke req)" "quota_neutral (deleteKey en ke name)"
  by (auto simp: quota_neutral_def createKey_def deleteKey_def Let_def split: sum.split prod.split option.split)

lemma neutral_tryit:
  assumes "ad_mcp a = map_option uncounted mc"
  shows "quota_neutral (tryit cd rv clock uid a name body)"
  using assms
  by (auto simp: quota_neutral_def tryit_def uncounted_def Let_def split_beta split: option.split sum.split)

lemma neutral_write:
  assumes "(pat, h) \<in> set (admin_write_routes re keys a)" and "ad_mcp a = map_option uncounted mc"
  shows "quota_neutral (h b)"
  using assms neutral_keys neutral_tryit [OF assms(2)] by (auto simp: admin_write_routes_def)

text \<open>A request to a mounted route, in whatever environment.\<close>

fun mounted_op :: "config \<Rightarrow> registry \<Rightarrow> ('t, 'l) portal_api \<Rightarrow> bool \<Rightarrow> ('t, 'l) admin_api \<Rightarrow> ('t, 'l) portal_op \<Rightarrow> bool" where
  "mounted_op cfg reg p keys a (Replay clock uids rawID c r) \<longleftrightarrow> True"
| "mounted_op cfg reg p keys a (Other h c r) \<longleftrightarrow> (\<exists>re pat k b. h = k b \<and>
     (pat, k) \<in> set (portal_read_routes re cfg reg p @ admin_read_routes re keys @ admin_write_routes re keys a))"

lemma mounted_neutral:
  assumes "mounted_op cfg reg p keys a opn" and "ad_mcp a = map_option uncounted mc"
  shows "neutral_op opn"
  using assms neutral_write [OF _ assms(2)] by (cases opn) (auto simp: neutral_read neutral_list)

section \<open>The quota\<close>

abbreviation replay_limiter :: "('t, 'l) api_state \<Rightarrow> limiter" where
  "replay_limiter s \<equiv> limiterForReplay (as_limiter s)"

lemma replay_call_effect:
  fixes s :: "('t \<times> string list, 'l) api_state"
  assumes "replay_call cd rv clock uids p (counted mc) eventID i original params c r s = (resp, s')"
  shows "as_limiter s' = as_limiter s \<and> (replays s' = replays s \<or> replays s' = replays s @ [identityKey (Some i)])"
  using assms
  by (auto simp: replay_call_def counted_def Let_def split_beta split: option.splits)

text \<open>One request: the limiter is used as far as the count grows.\<close>

lemma op_step_cases:
  fixes s :: "('t \<times> string list, 'l) api_state"
  assumes "pt_mcp p = Some (counted mc)" and "neutral_op opn"
  obtains (same) "as_limiter (op_step pp cd rv p opn s) = as_limiter s" "replays (op_step pp cd rv p opn s) = replays s"
  | (used) clock uids rawID c r k where "opn = Replay clock uids rawID c r" "k \<noteq> []"
      "as_limiter (op_step pp cd rv p opn s) = Some (snd (Allow (clock 0) k (replay_limiter s)))"
      "replays (op_step pp cd rv p opn s) = replays s \<or>
       fst (Allow (clock 0) k (replay_limiter s)) \<and> replays (op_step pp cd rv p opn s) = replays s @ [k]"
proof (cases opn)
  case (Other h c r)
  then show thesis using assms(2) same by (simp add: quota_neutral_def)
next
  case (Replay clock uids rawID c r)
  obtain resp s' where run: "auditReplay pp cd rv clock uids p rawID c r s = (resp, s')" by fastforce
  from auditReplay_cases [OF run] consider "s' = s" | mc' eventID i original params ok l where
      "replayable pp p rawID c (as_log s) mc' eventID i original params"
      "Allow (clock 0) (identityKey (Some i)) (replay_limiter s) = (ok, l)"
      "(resp, s') = (if ok then replay_call cd rv clock uids p mc' eventID i original (Some params) c r (s\<lparr>as_limiter := Some l\<rparr>)
                     else (rate_limited (identityKey (Some i)) l, s\<lparr>as_limiter := Some l\<rparr>))" by blast
  then show thesis
  proof cases
    case 1
    then show thesis using same Replay run by simp
  next
    case 2
    from 2(1) assms(1) have mc: "mc' = counted mc" "identityKey (Some i) \<noteq> []" by (auto simp: replayable_def)
    show thesis
    proof (cases ok)
      case True
      with 2(3) have "replay_call cd rv clock uids p (counted mc) eventID i original (Some params) c r (s\<lparr>as_limiter := Some l\<rparr>) = (resp, s')"
        by (simp add: mc)
      from replay_call_effect [OF this] 2(2) True mc(2) show thesis
        by (intro used [OF Replay mc(2)]) (auto simp: Replay run)
    next
      case False
      with 2 mc(2) show thesis by (intro used [OF Replay mc(2)]) (auto simp: Replay run)
    qed
  qed
qed

definition quota_ok :: "gotime \<Rightarrow> ('t, 'l) api_state \<Rightarrow> bool" where
  "quota_ok t s \<longleftrightarrow> limiter_ok t (replay_limiter s) \<and> rl_burst (replay_limiter s) = replayBurst \<and>
     rl_refill (replay_limiter s) = replayRefill"

lemma quota_ok_start: "as_limiter s = None \<Longrightarrow> quota_ok t s"
  by (simp add: quota_ok_def limiterForReplay_def new_limiter_ok) (simp add: newIdentityRateLimiter_def)

lemma quota_ok_cong: "as_limiter s' = as_limiter s \<Longrightarrow> quota_ok t s' = quota_ok t s"
  by (simp add: quota_ok_def)

text \<open>A request spends at most the credit it uses up; time gives back one call per refill.\<close>

lemma op_step_quota:
  fixes s s' :: "('t \<times> string list, 'l) api_state"
  assumes mc: "pt_mcp p = Some (counted mc)" and n: "neutral_op opn" and ok: "quota_ok t0 s" and t: "\<forall>t \<in> set (replay_times [opn]). t0 \<le> t"
    and t1_def: "t1 = (case replay_times [opn] of [] \<Rightarrow> t0 | t # _ \<Rightarrow> t)" and s'_def: "s' = op_step pp cd rv p opn s"
  shows "quota_ok t1 s' \<and> of_nat (count_list (replays s') key) + credit key t1 (replay_limiter s') \<le>
    of_nat (count_list (replays s) key) + credit key t0 (replay_limiter s) + of_int (t1 - t0) / of_int replayRefill"
proof (cases rule: op_step_cases [OF mc n, where pp = pp and cd = cd and rv = rv and s = s])
  case 1
  have t1: "t0 \<le> t1" using t by (cases opn) (simp_all add: t1_def)
  have "quota_ok t1 s" using ok t1 limiter_ok_later by (auto simp: quota_ok_def)
  moreover have "credit key t1 (replay_limiter s) \<le> credit key t0 (replay_limiter s) + of_int (t1 - t0) / of_int replayRefill"
    using ok credit_grows [OF _ t1, of t0 "replay_limiter s" key] by (simp add: quota_ok_def)
  ultimately show ?thesis
    using 1 quota_ok_cong by (auto simp: s'_def)
next
  case (2 clock uids rawID c r k)
  have t1: "t1 = clock 0" "t0 \<le> t1" using t 2(1) by (simp_all add: t1_def)
  have l: "limiter_ok t0 (replay_limiter s)" "rl_refill (replay_limiter s) = replayRefill" "rl_burst (replay_limiter s) = replayBurst"
    using ok by (simp_all add: quota_ok_def)
  note a = Allow_step [OF l(1) t1(2) 2(2)]
  have s': "replay_limiter s' = snd (Allow t1 k (replay_limiter s))" using 2(3) by (simp add: s'_def t1(1) limiterForReplay_def)
  have "credit key t1 (replay_limiter s') \<le> credit key t1 (replay_limiter s) - (if key = k \<and> fst (Allow t1 k (replay_limiter s)) then 1 else 0)"
    using a(3) [OF order_refl, of key] by (auto simp: s')
  moreover have "count_list (replays s') key \<le> count_list (replays s) key + (if key = k \<and> fst (Allow t1 k (replay_limiter s)) then 1 else 0)"
    using 2(4) by (auto simp: s'_def t1(1))
  then have "(of_nat (count_list (replays s') key) :: rat) \<le>
      of_nat (count_list (replays s) key) + (if key = k \<and> fst (Allow t1 k (replay_limiter s)) then 1 else 0)"
    by (simp split: if_splits) linarith
  moreover have "credit key t1 (replay_limiter s) \<le> credit key t0 (replay_limiter s) + of_int (t1 - t0) / of_int replayRefill"
    using credit_grows [OF l(1) t1(2), of key] by (simp add: l(2))
  moreover have "quota_ok t1 s'" using a(2) l by (simp add: quota_ok_def s')
  ultimately show ?thesis
    by linarith
qed

lemma portal_run_quota:
  fixes s :: "('t \<times> string list, 'l) api_state"
  assumes "pt_mcp p = Some (counted mc)" and "\<forall>opn \<in> set ops. neutral_op opn" and "quota_ok t0 s"
    and "sorted (t0 # replay_times ops)" and "\<forall>t \<in> set (replay_times ops). t \<le> T" and "t0 \<le> T"
  shows "quota_ok T (portal_run pp cd rv p ops s) \<and>
    of_nat (count_list (replays (portal_run pp cd rv p ops s)) key) \<le>
      of_nat (count_list (replays s) key) + credit key t0 (replay_limiter s) + of_int (T - t0) / of_int replayRefill"
  using assms
proof (induction ops arbitrary: t0 s)
  case Nil
  then have l: "limiter_ok t0 (replay_limiter s)" by (simp add: quota_ok_def)
  have "0 \<le> (of_int (T - t0) :: rat) / of_int replayRefill" using Nil.prems(6) by simp
  then show ?case using Nil.prems l limiter_ok_later credit_bounds(1) [OF l order_refl, of key]
    by (auto simp: portal_run_def quota_ok_def)
next
  case (Cons opn ops)
  define t1 where "t1 = (case replay_times [opn] of [] \<Rightarrow> t0 | t # _ \<Rightarrow> t)"
  define s' where "s' = op_step pp cd rv p opn s"
  have t: "\<forall>t \<in> set (replay_times [opn]). t0 \<le> t" "sorted (t1 # replay_times ops)" "\<forall>t \<in> set (replay_times ops). t \<le> T" "t1 \<le> T"
    using Cons.prems(4-6) by (cases opn; auto simp: t1_def)+
  from Cons.prems(2) have n: "neutral_op opn" by simp
  note step = op_step_quota [OF Cons.prems(1) n Cons.prems(3) t(1) t1_def s'_def, of key]
  have "quota_ok T (portal_run pp cd rv p ops s') \<and>
    of_nat (count_list (replays (portal_run pp cd rv p ops s')) key) \<le>
      of_nat (count_list (replays s') key) + credit key t1 (replay_limiter s') + of_int (T - t1) / of_int replayRefill"
    using Cons.prems step t by (intro Cons.IH) auto
  moreover have "(of_int (T - t0) :: rat) / of_int replayRefill = of_int (t1 - t0) / of_int replayRefill + of_int (T - t1) / of_int replayRefill"
    by (simp add: diff_divide_distrib)
  moreover have run: "portal_run pp cd rv p (opn # ops) s = portal_run pp cd rv p ops s'" by (simp add: portal_run_def s'_def)
  ultimately show ?case unfolding run using step by (intro conjI) linarith+
qed

text \<open>C22: The portal's replay quota. Over any history of requests to the portal and admin APIs since the server
  started, by any number of callers, with listings, exports, key changes and Try-It calls in between: in any
  stretch of it, the number of times a tool is called by replay for one identity is at most five
  plus one per twelve seconds of the stretch.\<close>

theorem replay_quota:
  fixes s0 :: "('t \<times> string list, 'l) api_state"
  assumes "pt_mcp p = Some (counted mc)" and "ad_mcp a = map_option uncounted mc'" and "as_limiter s0 = None"
    and mounted: "\<forall>opn \<in> set (before @ ops). mounted_op cfg reg p keys a opn"
    and times: "sorted (replay_times (before @ ops))" "\<forall>t \<in> set (replay_times before). t \<le> t1"
      "\<forall>t \<in> set (replay_times ops). t1 \<le> t \<and> t \<le> T" "t1 \<le> T"
    and s1: "s1 = portal_run pp cd rv p before s0" and s2: "s2 = portal_run pp cd rv p ops s1"
  shows "(of_nat (count_list (replays s2) key) :: rat) \<le>
    of_nat (count_list (replays s1) key) + 5 + of_int (T - t1) / of_int (12 * second)"
proof -
  define t0 where "t0 = (case replay_times before of [] \<Rightarrow> t1 | t # _ \<Rightarrow> t)"
  have n: "neutral_op opn" if "opn \<in> set (before @ ops)" for opn using mounted that mounted_neutral assms(2) by blast
  have "sorted (replay_times before)" using times(1) by (simp add: sorted_append)
  then have b: "sorted (t0 # replay_times before)" "t0 \<le> t1"
    using times(2) unfolding t0_def by (cases "replay_times before"; simp)+
  have "quota_ok t1 s1"
    unfolding s1
    by (rule portal_run_quota [OF assms(1) _ quota_ok_start [OF assms(3)] b(1) times(2) b(2), THEN conjunct1]) (use n in simp)
  moreover from this have "credit key t1 (replay_limiter s1) \<le> 5"
    using credit_bounds(2) [of t1 "replay_limiter s1" t1 key] by (simp add: quota_ok_def)
  moreover have "sorted (t1 # replay_times ops)" using times by (simp add: sorted_append)
  moreover have "\<forall>opn \<in> set ops. neutral_op opn" "\<forall>t \<in> set (replay_times ops). t \<le> T" using n times(3) by auto
  ultimately have "of_nat (count_list (replays s2) key) \<le>
      of_nat (count_list (replays s1) key) + credit key t1 (replay_limiter s1) + of_int (T - t1) / of_int replayRefill"
    using portal_run_quota [OF assms(1), of ops t1 s1 T pp cd rv key] times(4) s2 by blast
  with \<open>credit key t1 (replay_limiter s1) \<le> 5\<close> show ?thesis by linarith
qed

text \<open>Nine clicks on the same row at once.\<close>

definition toy_quota_portal :: "(nat \<times> string list, memory_logger) portal_api" where
  "toy_quota_portal = \<lparr>pt_registry = pt_registry toy_portal, pt_audit = pt_audit toy_portal,
     pt_mcp = map_option counted (pt_mcp toy_portal), pt_redactKeys = []\<rparr>"

definition toy_quota_state :: "(nat \<times> string list, memory_logger) api_state" where
  "toy_quota_state = \<lparr>as_tools = (0, []), as_log = as_log toy_api_state, as_limiter = None, as_keys = []\<rparr>"

theorem replay_quota_witness:
  "(of_nat (count_list (replays (portal_run toy_parsers toy_codec (\<lambda>_. VNil) toy_quota_portal
      (replicate 9 (Replay (\<lambda>_. 7) (\<lambda>_. ''e2'') ''e1'' toy_ctx (get_request []))) toy_quota_state)) ''anonymous:anonymous'') :: rat) \<le> 5"
proof -
  let ?ops = "replicate 9 (Replay (\<lambda>_. 7) (\<lambda>_. ''e2'') ''e1'' toy_ctx (get_request []) :: (nat \<times> string list, memory_logger) portal_op)"
  have "pt_mcp toy_quota_portal = Some (counted (the (pt_mcp toy_portal)))" "as_limiter toy_quota_state = None" "replays toy_quota_state = []"
    by (simp_all add: toy_quota_portal_def toy_portal_def toy_quota_state_def)
  moreover have "replay_times ?ops = replicate 9 7" by (simp add: numeral_eq_Suc)
  moreover have "portal_run toy_parsers toy_codec (\<lambda>_. VNil) toy_quota_portal [] toy_quota_state = toy_quota_state" by (simp add: portal_run_def)
  ultimately show ?thesis
    using replay_quota [of toy_quota_portal "the (pt_mcp toy_portal)" "NewAdminAPI None None None []" None toy_quota_state "[]" ?ops
      _ _ _ 7 7 toy_quota_state toy_parsers toy_codec "\<lambda>_. VNil"
      "portal_run toy_parsers toy_codec (\<lambda>_. VNil) toy_quota_portal ?ops toy_quota_state" "''anonymous:anonymous''"]
    by (simp add: NewAdminAPI_def)
qed

end
