(* ===== verification/Login_Flow.thy ===== *)
theory Login_Flow
  imports Http_BrowserAuth Http_Gates
begin

text \<open>
  The login as a whole: \<open>handleLogin\<close> and \<open>handleCallback\<close> of \<open>pkg/httpsrv/browserauth.go\<close>, the session cookie
  of \<open>pkg/httpsrv/session.go\<close> and the portal's authentication of \<open>pkg/httpsrv/portalauth.go\<close>, with
  a browser that keeps the cookies it is given and an identity provider that honours PKCE.
\<close>

section \<open>The first leg\<close>

lemma handleLogin_redirects:
  assumes "rnd 0 = Inr s0" and "rnd 1 = Inr v0" and "rnd 2 = Inr n0"
    and "sj_marshal sj (pkce_payload (b64_encode s0) (b64_encode v0) (b64_encode n0) (sanitizeReturnPath (query_get r ''return''))) = Inr body"
  shows "\<exists>ck. handleLogin cy sj rnd b r = \<lparr>wr_Status = 302, wr_Cookies = [ck],
      wr_Location = login_location b (b64_encode s0) (pkceChallenge cy (b64_encode v0)), wr_Body = []\<rparr> \<and>
    ck_Name ck = ss_cookieName (ba_pkceCookie b) \<and> ck_HttpOnly ck \<and> 0 \<le> ck_MaxAge ck \<and>
    ss_encode (cy_hmac cy) sj (ba_pkceCookie b) (pkce_payload (b64_encode s0) (b64_encode v0) (b64_encode n0)
      (sanitizeReturnPath (query_get r ''return''))) = Inr (ck_Value ck)"
  using assms
  by (simp add: handleLogin_def randomString_def ss_encode_def Let_def del: b64_encode.simps)

section \<open>The second leg\<close>

lemma handleCallback_honest:
  assumes "map_of (rq_Cookies r) (ss_cookieName (ba_pkceCookie b)) = Some v"
    and "ss_decode (cy_hmac (ce_crypto env)) (ce_session_json env) (ba_pkceCookie b) v = Inr (pkce_payload state verifier nonce ret)"
    and "query_get r ''state'' = state" and "state \<noteq> []" and "nonce \<noteq> []" and "map_of (bs_usedNonces st) nonce = None"
    and "query_get r ''code'' \<noteq> []"
  shows "handleCallback env clock b r st = Some (finish_login env clock b (query_get r ''code'') verifier ret
    (st\<lparr>bs_usedNonces := snd (consumeNonce (clock 0) nonce (bs_usedNonces st))\<rparr>))"
proof -
  have "fst (consumeNonce (clock 0) nonce (bs_usedNonces st))"
    using assms(5,6) by (auto simp: consumeNonce_def Let_def map_of_eq_None_iff)
  then obtain used where "consumeNonce (clock 0) nonce (bs_usedNonces st) = (True, used)"
    by (cases "consumeNonce (clock 0) nonce (bs_usedNonces st)") auto
  with assms show ?thesis
    by (simp add: handleCallback_def pkce_payload_def)
qed

lemma b64_encode_empty [simp]: "b64_encode s = [] \<longleftrightarrow> s = []"
  using b64_encode_inject [of s "[]"] by simp

lemma finish_login_honest:
  assumes "exchangeCode (ce_post env) (ce_token_json env) b code verifier = Inr idToken"
    and "fst (ValidateBearer (ba_cfg b) (ce_oidc_json env) (ce_jwt env) (ce_net env) (\<lambda>n. clock (n + 1)) idToken (bs_oidc st)) = Inr i"
    and "session_Issue (cy_hmac (ce_crypto env)) (ce_session_json env) (clock 4) (ba_sessions b) (Some i) = Inr ck"
  shows "\<exists>st'. finish_login env clock b code verifier ret st =
    (\<lparr>wr_Status = 302, wr_Cookies = [clear_pkce (ba_pkceCookie b), ck],
      wr_Location = (if ret = [] then ''/portal/'' else ret), wr_Body = []\<rparr>, st')"
  using assms by (auto simp: finish_login_def split: prod.splits)

section \<open>The session\<close>

lemma issued_session_read:
  assumes "\<And>pl body. sj_marshal sj pl = Inr body \<Longrightarrow> sj_unmarshal sj body = Inr pl"
    and "session_Issue hmac sj t s (Some i) = Inr ck" and "map_of (rq_Cookies r) (ss_cookieName s) = Some (ck_Value ck)"
    and "now \<le> t + ss_maxAge s"
  shows "session_Read hmac sj now s r = Some i"
proof -
  let ?pl = "\<lparr>sp_Identity = Some i, sp_Expires = t + ss_maxAge s\<rparr>"
  from assms(2) have e: "ss_encode hmac sj s ?pl = Inr (ck_Value ck)" by (auto simp: session_Issue_def rbind_Inr Let_def)
  then have "ss_decode hmac sj s (ck_Value ck) = Inr ?pl" "ck_Value ck \<noteq> []"
    using decode_encode [OF e] assms(1) [of ?pl] by (auto simp: ss_encode_def rbind_Inr)
  with assms(3,4) show ?thesis by (simp add: session_Read_def)
qed

text \<open>A provider that honours PKCE: the token endpoint answers for the code when the form's verifier has the
  challenge that came with the login.\<close>

definition honours_pkce :: "crypto \<Rightarrow> token_endpoint \<Rightarrow> string \<Rightarrow> string \<Rightarrow> string \<Rightarrow> string \<Rightarrow> bool" where
  "honours_pkce cy post url code challenge tok \<longleftrightarrow>
     (\<forall>form basic v. map_of form ''code'' = Some code \<and> map_of form ''code_verifier'' = Some v \<and> pkceChallenge cy v = challenge \<longrightarrow>
        post url form basic = Inr (200, tok))"

text \<open>A browser that keeps the cookies it is told to keep.\<close>

definition keeps_cookies :: "cookie list \<Rightarrow> http_request \<Rightarrow> bool" where
  "keeps_cookies cks r \<longleftrightarrow> (\<forall>ck \<in> set cks. 0 \<le> ck_MaxAge ck \<longrightarrow> map_of (rq_Cookies r) (ck_Name ck) = Some (ck_Value ck))"

lemma session_recognised:
  assumes "\<And>pl body. sj_marshal sj pl = Inr body \<Longrightarrow> sj_unmarshal sj body = Inr pl"
    and "session_Issue hmac sj t s (Some i) = Inr ck" and "keeps_cookies [ck', ck] r" and "pa_sessions p = Some s"
    and "clock 0 \<le> t + ss_maxAge s"
  shows "portal_caller hmac sj clock p c r w = Some i"
proof -
  have "ck_Name ck = ss_cookieName s" "0 \<le> ck_MaxAge ck" using assms(2) by (auto simp: session_Issue_def rbind_Inr Let_def)
  with assms(3) have "map_of (rq_Cookies r) (ss_cookieName s) = Some (ck_Value ck)" by (simp add: keeps_cookies_def)
  from issued_session_read [OF assms(1,2) this assms(5)] assms(4) show ?thesis by (simp add: portal_caller_def)
qed


section \<open>A concrete login flow\<close>

definition flow_pkce :: session_payload where
  "flow_pkce = pkce_payload (b64_encode ''s'') (b64_encode ''v'') (b64_encode ''n'') []"

definition flow_session :: session_payload where
  "flow_session = \<lparr>sp_Identity = Some (claims_identity (Some toy_claims)), sp_Expires = 12 * hour\<rparr>"

definition flow_json :: session_json where
  "flow_json = \<lparr>sj_marshal = (\<lambda>pl. if pl = flow_pkce then Inr ''a'' else if pl = flow_session then Inr ''b'' else Inl (ErrMsg ''json'')),
     sj_unmarshal = (\<lambda>body. if body = ''a'' then Inr flow_pkce else Inr flow_session)\<rparr>"

definition flow_env :: callback_env where
  "flow_env = toy_callback_env\<lparr>ce_session_json := flow_json\<rparr>"

definition flow_rnd :: "nat \<Rightarrow> string result" where
  "flow_rnd n = Inr (if n = 0 then ''s'' else if n = 1 then ''v'' else ''n'')"

definition flow_request :: "(string \<times> string list) list \<Rightarrow> cookie list \<Rightarrow> http_request" where
  "flow_request q cks = \<lparr>rq_Method = ''GET'', rq_Path = ''/'', rq_Header = [], rq_Query = q,
     rq_Cookies = map (\<lambda>ck. (ck_Name ck, ck_Value ck)) cks, rq_RemoteAddr = []\<rparr>"

lemma flow_request_fields [simp]:
  "rq_Query (flow_request q cks) = q" "rq_Cookies (flow_request q cks) = map (\<lambda>ck. (ck_Name ck, ck_Value ck)) cks"
  by (simp_all add: flow_request_def)

lemma flow_distinct: "flow_session \<noteq> flow_pkce"
  by (simp add: flow_session_def flow_pkce_def pkce_payload_def del: b64_encode.simps)

lemma flow_json_roundtrip: "sj_marshal flow_json pl = Inr body \<Longrightarrow> sj_unmarshal flow_json body = Inr pl"
  by (auto simp: flow_json_def split: if_splits)


end
