(* ===== verification/Inprocess.thy ===== *)
theory Inprocess
  imports Http_Admin
begin

text \<open>
  Calls from the portal through the server's own middleware: Try-It (\<open>pkg/httpsrv/admin_api.go\<close>) and
  replay (\<open>pkg/httpsrv/portal_api.go\<close>) connect an in-process client to the MCP server, whose
  receiving middleware is \<open>Audit\<close> of \<open>pkg/mcpmw/audit.go\<close>. Such a request carries no HTTP header. The
  SDK's encoding of the call is the argument \<open>mk\<close>, the errors of its two connects are \<open>e1\<close> and \<open>e2\<close>.
\<close>

section \<open>The in-process client\<close>

definition inprocess_request :: "(string \<Rightarrow> gomap \<Rightarrow> call_params) \<Rightarrow> string \<Rightarrow> gomap \<Rightarrow> mcp_request" where
  "inprocess_request mk name args = \<lparr>mq_header = None, mq_params = mk name args, mq_session = None\<rparr>"

definition call_result :: "mcp_result \<Rightarrow> call_tool_result option" where
  "call_result res = (case res of CallResult r \<Rightarrow> r | _ \<Rightarrow> None)"

definition inprocess_client ::
  "goerr option \<Rightarrow> goerr option \<Rightarrow> (string \<Rightarrow> gomap \<Rightarrow> call_params) \<Rightarrow>
   (ctx \<Rightarrow> string \<Rightarrow> mcp_request \<Rightarrow> ('s, 'l, 'h) mw_state \<Rightarrow> (mcp_result \<times> goerr option) \<times> ('s, 'l, 'h) mw_state) \<Rightarrow>
   ('s, 'l, 'h) mw_state mcp_client" where
  "inprocess_client e1 e2 mk receive = \<lparr>mc_serverConnect = e1, mc_clientConnect = e2,
     mc_CallTool = (\<lambda>c name args st. case receive c ''tools/call'' (inprocess_request mk name args) st of
       ((res, err), st') \<Rightarrow> ((call_result res, err), st'))\<rparr>"

text \<open>The context a tool sees in such a call.\<close>

definition inprocess_ctx :: "ctx \<Rightarrow> ctx" where
  "inprocess_ctx c = (if GetIdentity c = None then WithIdentity c (Some Anonymous) else c)"

lemma inprocess_call:
  "mc_CallTool (inprocess_client e1 e2 mk (Audit cd ch logf ks groups opts nxt clock uid)) c name args st =
     (let ((res, err), sends, h) = nxt (inprocess_ctx c) None ''tools/call'' (inprocess_request mk name args) (ms_handler st)
      in ((call_result res, err), st\<lparr>ms_handler := h\<rparr>))"
  by (simp add: inprocess_client_def Audit_def inprocess_request_def inprocess_ctx_def Let_def split_beta)

lemma inprocess_call_log:
  assumes "mc_CallTool (inprocess_client e1 e2 mk (Audit cd ch logf ks groups opts nxt clock uid)) c name args st = (res, st')"
  shows "ms_log st' = ms_log st" "ms_world st' = ms_world st"
    "ms_handler st' = snd (snd (nxt (inprocess_ctx c) None ''tools/call'' (inprocess_request mk name args) (ms_handler st)))"
  using assms by (auto simp: inprocess_call Let_def split_beta)

section \<open>One row per portal call\<close>

text \<open>A replay goes the same way: the middleware stays silent, and the tool runs at most once, as the
  caller of the portal.\<close>

lemma replay_call_tools:
  "as_tools (snd (replay_call cd rv clk uids p mc eventID i original params c r t)) \<in>
     {as_tools t, snd (mc_CallTool mc (WithIdentity c (Some i)) (ev_ToolName original) params (as_tools t))}"
  by (simp add: replay_call_def Let_def split: option.split prod.split)

lemma replay_tools:
  assumes "auditReplay pp cd rv clk uids p rawID c r s = (resp, s')" and "pt_mcp p = Some mc"
  shows "as_tools s' = as_tools s \<or> (\<exists>i (original :: event) params. GetIdentity c = Some i \<and>
    as_tools s' = snd (mc_CallTool mc (WithIdentity c (Some i)) (ev_ToolName original) (Some params) (as_tools s)))"
  using auditReplay_cases [OF assms(1)]
proof (elim disjE exE conjE)
  fix mc' eventID i original params ok l
  assume rp: "replayable pp p rawID c (as_log s) mc' eventID i original params"
    and run: "(resp, s') = (if ok then replay_call cd rv clk uids p mc' eventID i original (Some params) c r (s\<lparr>as_limiter := Some l\<rparr>)
                     else (rate_limited (identityKey (Some i)) l, s\<lparr>as_limiter := Some l\<rparr>))"
  from rp assms(2) have i: "GetIdentity c = Some i" "mc' = mc" by (simp_all add: replayable_def)
  from arg_cong [OF run, of snd] have "s' = (if ok
      then snd (replay_call cd rv clk uids p mc' eventID i original (Some params) c r (s\<lparr>as_limiter := Some l\<rparr>)) else s\<lparr>as_limiter := Some l\<rparr>)"
    by (simp split: if_splits)
  with replay_call_tools [of cd rv clk uids p mc' eventID i original "Some params" c r "s\<lparr>as_limiter := Some l\<rparr>"] i(2)
  have "as_tools s' \<in> {as_tools s, snd (mc_CallTool mc (WithIdentity c (Some i)) (ev_ToolName original) (Some params) (as_tools s))}"
    by (auto split: if_splits)
  with i(1) show ?thesis by blast
qed simp

lemma replay_middleware_silent:
  assumes "auditReplay pp cd rv clk uids p rawID c r s = (resp, s')"
    and "pt_mcp p = Some (inprocess_client e1 e2 mk (Audit cd' ch logf ks groups opts nxt clock uid))"
  shows "ms_log (as_tools s') = ms_log (as_tools s) \<and> ms_world (as_tools s') = ms_world (as_tools s) \<and>
    (as_tools s' = as_tools s \<or>
     (\<exists>i name args. GetIdentity c = Some i \<and> ms_handler (as_tools s') =
        snd (snd (nxt (WithIdentity c (Some i)) None ''tools/call'' (inprocess_request mk name args) (ms_handler (as_tools s))))))"
  using replay_tools [OF assms]
proof (elim disjE exE conjE)
  fix i params and original :: event
  let ?mc = "inprocess_client e1 e2 mk (Audit cd' ch logf ks groups opts nxt clock uid)"
  assume i: "GetIdentity c = Some i"
    and t: "as_tools s' = snd (mc_CallTool ?mc (WithIdentity c (Some i)) (ev_ToolName original) (Some params) (as_tools s))"
  from t have "mc_CallTool ?mc (WithIdentity c (Some i)) (ev_ToolName original) (Some params) (as_tools s) =
    (fst (mc_CallTool ?mc (WithIdentity c (Some i)) (ev_ToolName original) (Some params) (as_tools s)), as_tools s')" by simp
  from inprocess_call_log [OF this] i show ?thesis by (auto simp: inprocess_ctx_def)
qed simp

text \<open>C32: A Try-It call is audited exactly once, as the portal's caller. With the MCP server's own audit
  middleware behind the in-process client: the middleware writes no row and consults no key store or
  token validator; and either the request is refused with tools and log untouched, or the tool's handler ran once, in a context
  whose identity is the portal's caller (anonymous if there is none), and the portal wrote exactly one row,
  of source \<open>portal-tryit\<close>, for that tool and caller, with redacted arguments.\<close>

theorem tryit_audited_once:
  "case tryit cd rv clk uid' (a\<lparr>ad_mcp := Some (inprocess_client e1 e2 mk (Audit cd ch logf ks groups opts nxt clock uid))\<rparr>)
      name body c r s of (resp, s') \<Rightarrow>
     ms_log (as_tools s') = ms_log (as_tools s) \<and> ms_world (as_tools s') = ms_world (as_tools s) \<and>
     (s' = s \<and> rs_Status resp \<in> {400, 500, 503} \<or>
      (\<exists>args e. ms_handler (as_tools s') =
          snd (snd (nxt (inprocess_ctx c) None ''tools/call'' (inprocess_request mk name args) (ms_handler (as_tools s)))) \<and>
        GetIdentity (inprocess_ctx c) = Some (case GetIdentity c of None \<Rightarrow> Anonymous | Some i \<Rightarrow> i) \<and>
        as_log s' = (case ad_audit a of None \<Rightarrow> as_log s | Some au \<Rightarrow> snd (aa_Log au e (as_log s))) \<and>
        ev_Source e = ''portal-tryit'' \<and> ev_ToolName e = name \<and>
        ev_UserSubject e = (case GetIdentity c of None \<Rightarrow> [] | Some i \<Rightarrow> id_Subject i) \<and>
        ev_Parameters e = SanitizeParameters (box_map args) (ad_redactKeys a)))"
proof -
  let ?mc = "inprocess_client e1 e2 mk (Audit cd ch logf ks groups opts nxt clock uid)"
  obtain resp s' where run: "tryit cd rv clk uid' (a\<lparr>ad_mcp := Some ?mc\<rparr>) name body c r s = (resp, s')" by fastforce
  have i: "GetIdentity (inprocess_ctx c) = Some (case GetIdentity c of None \<Rightarrow> Anonymous | Some i \<Rightarrow> i)"
    by (simp add: inprocess_ctx_def split: option.split)
  from tryit_one_row [where cd = cd and rv = rv and clock = clk and uid = uid' and a = "a\<lparr>ad_mcp := Some ?mc\<rparr>" and name = name
      and body = body and c = c and r = r and s = s, unfolded run prod.case]
  consider "s' = s" "rs_Status resp \<in> {400, 500, 503}" | args res callErr e where
      "mc_CallTool ?mc c name args (as_tools s) = ((res, callErr), as_tools s')"
      "as_log s' = (case ad_audit a of None \<Rightarrow> as_log s | Some au \<Rightarrow> snd (aa_Log au e (as_log s)))"
      "ev_Source e = ''portal-tryit''" "ev_ToolName e = name"
      "ev_UserSubject e = (case GetIdentity c of None \<Rightarrow> [] | Some i \<Rightarrow> id_Subject i)"
      "ev_Parameters e = SanitizeParameters (box_map args) (ad_redactKeys a)"
    by auto
  then show ?thesis
  proof cases
    case 1
    then show ?thesis by (simp add: run)
  next
    case 2
    from inprocess_call_log [OF 2(1)] 2(2-6) i show ?thesis unfolding run prod.case by blast
  qed
qed

end
