(* ===== verification/Spec2Isabelle.thy ===== *)
theory Spec2Isabelle
  imports Production Server_Lifecycle Portal_Quota Login_Flow Inprocess
begin

text \<open>
  A verification development of \<open>mcp-test\<close>, a test server for the Model Context Protocol written in
  Go. MCP clients reach its tools over HTTP; every call is authenticated and recorded in an audit
  log; a portal shows the log, exports it, follows it live and replays calls from it; an admin API manages
  keys and tries tools out. File names below are relative to \<open>src/\<close>.

  \<^bold>\<open>How the parts interact.\<close> A request enters the route table of \<open>internal/server/server.go\<close>. On the MCP
  endpoint it passes the credential gateway (\<open>pkg/httpsrv/authgate.go\<close>) and the SDK, which calls the audit
  middleware (\<open>pkg/mcpmw/audit.go\<close>): it builds the context (\<open>pkg/auth/context.go\<close>), asks the
  authentication chain (\<open>pkg/auth/chain.go\<close>, over the key stores and the OIDC validator), runs the tool
  (\<open>pkg/tools\<close>) and gives one event to the audit logger. In production that is the asynchronous queue
  (\<open>pkg/audit/async.go\<close>) over the Postgres store (\<open>pkg/audit/postgres/store.go\<close>), with auditing disabled the
  no-op logger, and in an application built from its parts any logger, such as the in-memory one (\<open>pkg/audit/memory.go\<close>). The portal and admin APIs (\<open>pkg/httpsrv/portal_api.go\<close>,
  \<open>admin_api.go\<close>) sit behind the portal's authentication, which accepts the chain's credentials or the session cookie
  issued at the end of the browser login (\<open>browserauth.go\<close>, \<open>session.go\<close>), and, where they change
  something, behind a CSRF header; replay and Try-It call the tools through an in-process MCP client.

  \<^bold>\<open>The theories.\<close>
  \<^item> Prelude. \<open>Go_Base\<close> (errors, time, strings, numerals, 64-bit arithmetic, the collections \<open>go_str\<close> and
    \<open>go_time\<close>), \<open>Go_Value\<close> (\<open>any\<close> values and \<open>float64\<close>), \<open>Go_Base64\<close>, \<open>Go_Http\<close>, \<open>Go_Mux\<close> (what the code uses
    of Go and its library) and \<open>Go_Ledger\<close> (the locale \<open>ledger\<close> of recent keys with lazy eviction,
    interpreted on the failure log's limiter and on the login nonces).
  \<^item> Requests. \<open>Auth_Context\<close> (\<open>pkg/auth/context.go\<close>, \<open>identity.go\<close>): the context as a record, header redaction.
  \<^item> Audit data. \<open>Audit_Event\<close> (\<open>pkg/audit/event.go\<close>): events, builders and \<open>SanitizeParameters\<close>;
    \<open>Audit_Filter\<close> (\<open>jsonfilter.go\<close>, types of \<open>logger.go\<close>): filters; \<open>Audit_Logger\<close> (\<open>logger.go\<close>): the contract
    \<open>audit_backend\<close> and the canonical order as a \<open>linorder\<close> instance.
  \<^item> Audit backends. \<open>Audit_Subscribe\<close> (subscribers of both loggers, locale \<open>subscriber_ops\<close>, channels on a heap of
    addresses), \<open>Audit_Memory\<close> (\<open>memory.go\<close>, with the locale \<open>grouping\<close> for its aggregates), \<open>Audit_Async\<close> (\<open>async.go\<close>,
    as a step relation), \<open>Audit_Sql\<close> (\<open>buildSelect\<close> as a compiler to SQL text and arguments), \<open>Audit_Postgres\<close> (every method of
    \<open>Store\<close> on two tables), \<open>Audit_Backends\<close> (the two stores compared), \<open>Audit_Pipeline\<close> (the queue over the store), \<open>Production\<close> (that pair as the portal's backend).
  \<^item> Credentials. \<open>Auth_Keys\<close> (\<open>pkg/auth/apikey.go\<close>, \<open>dbkeys.go\<close>, \<open>pkg/apikeys\<close>; locale \<open>api_key_store\<close>),
    \<open>Auth_Oidc\<close> (\<open>oidc.go\<close>: discovery, JWKS cache with stale period, claims), \<open>Auth_Chain\<close> (\<open>chain.go\<close>), \<open>Config\<close>
    (\<open>pkg/config/config.go\<close>).
  \<^item> The MCP side. \<open>Tools\<close> (\<open>pkg/tools\<close>: registry, four toolkits, twelve handlers) and \<open>Mcp_Audit\<close>
    (\<open>pkg/mcpmw\<close>: middleware, payload capture, notification recorder).
  \<^item> The HTTP side, all of \<open>pkg/httpsrv\<close>. \<open>Http_RateLimit\<close>, \<open>Http_Session\<close>, \<open>Http_BrowserAuth\<close>, \<open>Http_Gates\<close> (the
    middlewares and small handlers), \<open>Http_Portal\<close> (the reading handlers; locale \<open>streaming_backend\<close>, interpreted on the
    in-memory, Postgres and asynchronous streams), \<open>Http_Replay\<close>, \<open>Http_Admin\<close>.
  \<^item> Assembly. \<open>Server\<close> (\<open>internal/server/server.go\<close>: options and route tables), \<open>Server_Lifecycle\<close> (\<open>Build\<close>, \<open>Run\<close>,
    \<open>Close\<close>, \<open>pkg/database\<close>, \<open>cmd/mcp-test/main.go\<close>), and three theories on parts working together:
    \<open>Portal_Quota\<close> (replay and limiter over request histories), \<open>Login_Flow\<close> (login, cookie and portal gate),
    \<open>Inprocess\<close> (Try-It and replay through the server's own middleware). This theory follows a call from the
    MCP endpoint to the portal's detail and replay pages, with the in-memory and with the production logger.

  \<^bold>\<open>Correspondence.\<close> A struct is a record with the source's field names behind a prefix, a function or method
  a definition of the same name; a prefix tells apart methods of the same name (\<open>mem_Query\<close>, \<open>pg_Query\<close>,
  \<open>async_Query\<close>). A nil pointer is \<open>None\<close>, an error return a value of \<open>goerr\<close>, a panic the result \<open>None\<close> of the operation
  or the worker state \<open>Panicked\<close>. Methods that hold a mutex throughout are one atomic step. Handlers take and
  return the state they share. A long method is split where the definition says so.

  \<^bold>\<open>What is shown.\<close>
  \<^item> Secrets. Redaction is non-interfering and exact about positions; credential headers never reach the
    context; no secret argument reaches an audit row; the portal's view of the configuration shows no secret, and the
    failure log no JWT; SQL text is independent of user values; a call with a redacted argument is never replayed.
  \<^item> Access. Over the whole route table no protected handler runs without its gate; the chain grants only what a
    store grants; a validated bearer token was signed by a key the provider published within the cache and
    stale periods and satisfies the claim checks; a session was signed by the server and comes from a completed login, each
    login cookie gives at most one session in its lifetime, and an honest login does end in a session.
  \<^item> The log. Every audited call writes exactly one row, which the portal shows once the worker has written it; the queue is a bounded FIFO that accounts for every
    event under all interleavings; queue and store together refine synchronous logging, and shutdown
    loses no accepted event; a write is atomic and is read back; the two stores select the same events; paging and the
    export are exact; the live tail shows only what was persisted; payloads are bounded.
  \<^item> Replay and Try-It. The guards of a replay, one row per call, nothing spent on a refused request, and the
    quota of every identity over arbitrary request histories; the limiter refines ideal buckets.
  \<^item> Assembly. Configurations that load are complete and not insecure by accident; the command releases the
    pool on every way out; an outage of the identity provider is ridden out for exactly the grace period.

  \<^bold>\<open>Arguments of the model.\<close> Code outside the repository is an argument: JSON encoding and decoding (\<open>codec\<close>), uuids,
  random bytes, clocks, time and uuid parsers, bcrypt, HMAC, SHA-256, the JWT library, the generator of
  \<open>math/rand/v2\<close>, the YAML decoder, the identity provider, the SDK's session layer, \<open>http.FileServer\<close>, pgx and
  golang-migrate. Theorems that need something of them say so in a hypothesis (for instance \<open>jwt_sound\<close>,
  \<open>honours_pkce\<close>) and have a witness with concrete functions. Which database call fails, which
  ready case a \<open>select\<close> takes and how goroutines interleave is quantified over.

  \<^bold>\<open>Idealisations.\<close> A finite \<open>float64\<close> is a rational, without rounding, in JSON values, averages and token buckets; case
  mapping is that of ASCII; paths have no percent escapes; a refresh that concurrent callers share
  is one refresh; a commit whose acknowledgement is lost is a commit that failed; Postgres rows keep the
  JSON text they were given, and a \<open>null\<close> content array is an empty one.

  \<^bold>\<open>Termination.\<close> All definitions are total except \<open>stream_pages\<close>, the paging loop of \<open>Store.Stream\<close>, which is a
  \<open>partial_function\<close> in the option monad; that it returns on a stable table is proved
  in \<open>Audit_Postgres\<close>. Runs of the worker are lists of choices; \<open>drain_steps\<close> is the length that is enough after
  \<open>Close\<close>: for each queued event the steps to receive it, write it and send it to every subscriber. Nothing else uses fuel.

  \<^bold>\<open>Not modelled.\<close> \<open>internal/ui\<close> (an embedded file system and a test for its presence), the SQL of the
  migrations (its tables and constraints appear in \<open>Audit_Postgres\<close> and \<open>Auth_Keys\<close>), the TypeScript front end under \<open>ui/\<close>,
  the text of \<open>slog\<close> lines other than the failure log, accessor methods that return one field, and the printing of the final
  error by \<open>main\<close>. What is left of the Go files beside these is declarations of input and output structs of tools,
  whose fields are the arguments and results of the handlers, and interface types.
\<close>

section \<open>A native call in the in-memory log\<close>

lemma native_row_id:
  "ev_ID (base_event cd groups now c req i) = []"
  "ev_ID (auth_event cd ks opts c m req e ms ev) = ev_ID ev"
  "ev_ID (result_event cd ks opts c m req res err rcd ms ev) = ev_ID ev"
proof -
  show "ev_ID (base_event cd groups now c req i) = []"
    by (simp add: base_event_def Let_def event_builder_defs WithUser_def NewEvent_def zero_event_def split: option.splits)
  show "ev_ID (auth_event cd ks opts c m req e ms ev) = ev_ID ev" by (simp add: auth_event_def Let_def event_builder_defs)
  show "ev_ID (result_event cd ks opts c m req res err rcd ms ev) = ev_ID ev"
    by (auto simp: result_event_def Let_def event_builder_defs split: mcp_result.splits option.splits prod.splits)
qed

lemma buildPayload_params:
  "pl_RequestParams (buildPayload cd c m ps ks cr e cat opts ns) \<in> {None, SanitizeParameters (box_map ps) ks}"
proof -
  obtain n ok kept truncated where
    "jsonSizeWithin cd (box_map (SanitizeParameters (box_map ps) ks)) (ao_maxPayloadBytes opts) = (n, ok)"
    "fitNotifications cd ns (ao_maxPayloadBytes opts) = (kept, truncated)" by (metis surj_pair)
  from buildPayload_fields(1) [OF this] show ?thesis by simp
qed

lemma native_row_params:
  "params_of (base_event cd groups now c req i) = None"
  "params_of ev = None \<Longrightarrow>
     params_of (auth_event cd ks opts c m req e ms ev) \<in> {None, SanitizeParameters (box_map (snd (extractCallParams cd req))) ks}"
  "params_of ev = None \<Longrightarrow>
     params_of (result_event cd ks opts c m req res err rcd ms ev) \<in> {None, SanitizeParameters (box_map (snd (extractCallParams cd req))) ks}"
proof -
  show "params_of (base_event cd groups now c req i) = None"
    by (simp add: params_of_def base_event_def Let_def event_builder_defs NewEvent_def zero_event_def split: option.splits)
  show "params_of (auth_event cd ks opts c m req e ms ev) \<in> {None, SanitizeParameters (box_map (snd (extractCallParams cd req))) ks}"
    if "params_of ev = None"
    using that buildPayload_params by (simp add: params_of_def auth_event_def Let_def event_builder_defs)
  show "params_of (result_event cd ks opts c m req res err rcd ms ev) \<in> {None, SanitizeParameters (box_map (snd (extractCallParams cd req))) ks}"
    if "params_of ev = None"
    using that buildPayload_params
    by (auto simp: params_of_def result_event_def Let_def event_builder_defs split: mcp_result.splits option.splits prod.splits)
qed

text \<open>The row an audited call writes, before the backend gives it an id.\<close>

lemma audited_row:
  assumes "mq_header req = Some hdr"
  shows "\<exists>ev. ms_log (snd (Audit cd chain logf ks groups opts nxt clock uid c ''tools/call'' req st)) = logf ev (ms_log st) \<and>
    ev_ID ev = [] \<and> ev_ToolName ev = fst (extractCallParams cd req) \<and> ev_Source ev = ''mcp'' \<and>
    params_of ev \<in> {None, SanitizeParameters (box_map (snd (extractCallParams cd req))) ks}"
proof -
  let ?c = "enrichContext uid c req"
  obtain auth w where a: "chain_Authenticate chain (\<lambda>n. clock (n + 1)) ?c (ms_world st) = (auth, w)" by fastforce
  show ?thesis
  proof (cases auth)
    case (Inl e)
    show ?thesis unfolding Audit_denied [OF refl assms a [unfolded Inl]]
      by (intro exI conjI, simp, simp_all add: native_row_id auth_event_fields base_event_fields del: insert_iff)
         (rule native_row_params(2) [OF native_row_params(1)])
  next
    case (Inr i)
    obtain res err sends h where
      n: "nxt (WithIdentity ?c (Some i)) (call_recorder opts ks) ''tools/call'' req (ms_handler st) = ((res, err), sends, h)"
      by (metis surj_pair)
    show ?thesis unfolding Audit_granted [where nxt = nxt, OF refl assms a [unfolded Inr] n]
      by (intro exI conjI, simp, simp_all add: native_row_id result_event_fields base_event_fields del: insert_iff)
         (rule native_row_params(3) [OF native_row_params(1)])
  qed
qed

section \<open>From the endpoint to the portal\<close>

text \<open>The audited calls write through \<open>aa_Log\<close> of the backend the portal reads.\<close>

abbreviation log_to :: "'l audit_api \<Rightarrow> event \<Rightarrow> 'l \<Rightarrow> 'l" where
  "log_to au ev l \<equiv> snd (aa_Log au ev l)"

lemma memory_log:
  assumes "mem_reachable m" and "ev_ID ev = []" and "uid \<noteq> []" and "uid \<notin> ev_ID ` set (ml_events m)"
  shows "aa_Query (memory_api pf marshal uid x) (log_to (memory_api pf marshal uid x) ev m) (zero_filter\<lparr>qf_EventID := uid, qf_Limit := 1\<rparr>)
      = Inr [ev\<lparr>ev_ID := uid\<rparr>]"
    and "\<exists>g. aa_GetPayload (memory_api pf marshal uid x) = Some g \<and> g (log_to (memory_api pf marshal uid x) ev m) uid = Inr (ev_Payload ev)"
proof -
  obtain m' where m': "mem_Log uid ev m = Some m'" using mem_Log_total mem_reachable_ok [OF assms(1)] by blast
  have "assigned uid ev = ev\<lparr>ev_ID := uid\<rparr>" using assms(2) by (simp add: assigned_def)
  with mem_log_lookup [OF m'] assms(3,4)
  show "aa_Query (memory_api pf marshal uid x) (log_to (memory_api pf marshal uid x) ev m) (zero_filter\<lparr>qf_EventID := uid, qf_Limit := 1\<rparr>)
      = Inr [ev\<lparr>ev_ID := uid\<rparr>]"
    and "\<exists>g. aa_GetPayload (memory_api pf marshal uid x) = Some g \<and> g (log_to (memory_api pf marshal uid x) ev m) uid = Inr (ev_Payload ev)"
    by (simp_all add: memory_api_def m')
qed

text \<open>A concrete call: an API key accepted by a chain that accepts everything, an empty log, and one
  argument named token.\<close>

definition toy_backend :: "memory_logger audit_api" where
  "toy_backend = memory_api (\<lambda>_. None) (\<lambda>_. None) ''e2'' (\<lambda>_. None)"

definition toy_mw_state :: "(unit, memory_logger, unit) mw_state" where
  "toy_mw_state = \<lparr>ms_world = \<lparr>wd_stores = (), wd_lastLog = [], wd_log = []\<rparr>, ms_log = NewMemoryLogger, ms_handler = ()\<rparr>"

definition toy_logged :: memory_logger where
  "toy_logged = ms_log (snd (Audit toy_codec (NewChain True (Some (\<lambda>_ s. (Inr Anonymous, s))) None) (log_to toy_backend) [''token''] []
     (WithPayloadCapture 0 defaultAuditOptions) (\<lambda>c r m q h. ((NilResult, None), [], h)) (\<lambda>_. 0) ''u'' background_ctx
     ''tools/call'' (toy_request ''k1'' ''s1'') toy_mw_state))"

text \<open>What an MCP client does shows up in the portal. An audited \<open>tools/call\<close> over HTTP, granted or
  denied, with the in-memory logger: the event detail endpoint, asked for the fresh id the
  row was given, answers 200 with exactly one event, of source mcp and for the called tool, with its payload,
  and that event is the one the middleware logged.\<close>

theorem call_reaches_portal:
  assumes "mq_header req = Some hdr" and "mem_reachable (ms_log st)"
    and "uid \<noteq> []" and "uid \<notin> ev_ID ` set (ml_events (ms_log st))" and "pp_uuid pp uid = Some uid"
  shows "\<exists>ev. ms_log (snd (Audit cd chain (log_to (memory_api pf marshal uid x)) ks groups opts nxt clock rid c ''tools/call'' req st)) =
      log_to (memory_api pf marshal uid x) ev (ms_log st) \<and>
    ev_Source ev = ''mcp'' \<and> ev_ToolName ev = fst (extractCallParams cd req) \<and>
    fst (auditEventDetail pp cd (memory_api pf marshal uid x) uid c' r
      (ms_log (snd (Audit cd chain (log_to (memory_api pf marshal uid x)) ks groups opts nxt clock rid c ''tools/call'' req st)))) =
      json_response 200 (event_val cd (ev\<lparr>ev_ID := uid\<rparr>))"
proof -
  let ?au = "memory_api pf marshal uid x"
  from audited_row [OF assms(1), of cd chain "log_to ?au" ks groups opts nxt clock rid c st] obtain ev where
    ev: "ms_log (snd (Audit cd chain (log_to ?au) ks groups opts nxt clock rid c ''tools/call'' req st)) = log_to ?au ev (ms_log st)"
      "ev_ID ev = []" "ev_ToolName ev = fst (extractCallParams cd req)" "ev_Source ev = ''mcp''" by blast
  obtain g where g: "aa_GetPayload ?au = Some g" "g (log_to ?au ev (ms_log st)) uid = Inr (ev_Payload ev)"
    using memory_log(2) [OF assms(2) ev(2) assms(3,4)] by blast
  have "fst (auditEventDetail pp cd ?au uid c' r (log_to ?au ev (ms_log st))) = json_response 200 (event_val cd (ev\<lparr>ev_ID := uid\<rparr>))"
    using memory_log(1) [OF assms(2) ev(2) assms(3,4), of pf marshal x] assms(3,5) g
    by (simp add: auditEventDetail_def Let_def)
  with ev show ?thesis by (intro exI [of _ ev]) simp
qed

theorem call_reaches_portal_witness:
  "\<exists>ev. toy_logged = log_to toy_backend ev NewMemoryLogger \<and> ev_ToolName ev = ''echo'' \<and>
     fst (auditEventDetail toy_parsers toy_codec toy_backend ''e2'' toy_ctx (get_request []) toy_logged) =
       json_response 200 (event_val toy_codec (ev\<lparr>ev_ID := ''e2''\<rparr>))"
proof -
  have "mem_reachable (ms_log toy_mw_state)" "''e2'' \<notin> ev_ID ` set (ml_events (ms_log toy_mw_state))"
    by (simp_all add: toy_mw_state_def NewMemoryLogger_def mem_reachable.start [unfolded NewMemoryLogger_def])
  moreover have "mq_header (toy_request ''k1'' ''s1'') = Some [(''X-Api-Key'', [''k1''])]" "pp_uuid toy_parsers ''e2'' = Some ''e2''"
    "extractCallParams toy_codec (toy_request ''k1'' ''s1'') = (''echo'', Some [(''token'', VStr ''s1'')])"
    by (simp_all add: toy_request_def toy_parsers_def extractCallParams_def)
  moreover have "ms_log toy_mw_state = NewMemoryLogger" by (simp add: toy_mw_state_def)
  ultimately show ?thesis
    using call_reaches_portal [where uid = "''e2''" and pf = "\<lambda>_. None" and marshal = "\<lambda>_. None" and x = "\<lambda>_. None"
        and req = "toy_request ''k1'' ''s1''" and st = toy_mw_state and pp = toy_parsers and cd = toy_codec
        and chain = "NewChain True (Some (\<lambda>_ s. (Inr Anonymous, s))) None" and ks = "[''token'']" and groups = "[]"
        and opts = "WithPayloadCapture 0 defaultAuditOptions" and nxt = "\<lambda>c r m q h. ((NilResult, None), [], h)"
        and clock = "\<lambda>_. 0" and rid = "''u''" and c = background_ctx and c' = toy_ctx and r = "get_request []"]
    unfolding toy_logged_def toy_backend_def by auto
qed

section \<open>Redacted calls are not replayed\<close>

lemma sanitized_has_redacted:
  assumes "(k, v) \<in> set m" and "matchesRedactKey k ks"
  shows "\<exists>m'. SanitizeParameters (VMap m) ks = Some m' \<and> hasRedactedParam m'"
proof -
  have "ks \<noteq> []" using assms(2) by auto
  then have "SanitizeParameters (VMap m) ks = Some (map (\<lambda>(k, x). (k, if matchesRedactKey k ks then VStr redacted else sanitizeVal ks x)) m)"
    by (simp add: SanitizeParameters_def)
  moreover have "(k, VStr redacted) \<in> set (map (\<lambda>(k, x). (k, if matchesRedactKey k ks then VStr redacted else sanitizeVal ks x)) m)"
    using imageI [OF assms(1), of "\<lambda>(k, x). (k, if matchesRedactKey k ks then VStr redacted else sanitizeVal ks x)"] assms(2) by simp
  then have "hasRedactedParam (map (\<lambda>(k, x). (k, if matchesRedactKey k ks then VStr redacted else sanitizeVal ks x)) m)"
    unfolding hasRedactedParam_def list_ex_iff by (rule bexI [rotated]) simp
  ultimately show ?thesis by blast
qed

lemma replay_needs_clean_params:
  assumes "pt_mcp p = Some mc" and "pp_uuid pp rawID = Some eid" and "GetIdentity c = Some i" and "identityKey (Some i) \<noteq> []"
    and "aa_Query (pt_audit p) (as_log s) (zero_filter\<lparr>qf_EventID := eid, qf_Limit := 1\<rparr>) = Inr (original # rest)"
    and "aa_GetPayload (pt_audit p) = Some g" and "g (as_log s) eid = Inr payload"
    and "case Option.bind payload pl_RequestParams of None \<Rightarrow> True | Some ps \<Rightarrow> hasRedactedParam ps"
  shows "snd (auditReplay pp cd rv clock uids p rawID c r s) = s \<and> rs_Status (fst (auditReplay pp cd rv clock uids p rawID c r s)) = 400"
proof -
  obtain x xs where "identityKey (Some i) = x # xs" using assms(4) by (cases "identityKey (Some i)") auto
  then show ?thesis
    using assms unfolding auditReplay_def
    by (cases "Option.bind payload pl_RequestParams") (simp_all add: writeError_def json_response_def)
qed

text \<open>A call with a secret argument is never replayed. If an audited call over HTTP had an argument
  whose name matches a redaction key, then, whatever the capture options and however the call went, replaying
  its row, asked for by any authenticated caller, is refused with 400 and changes nothing: no tool is called, no
  row written and no quota spent.\<close>

theorem secret_call_not_replayed:
  assumes "mq_header req = Some hdr" and "snd (extractCallParams cd req) = Some m" and "(k, v) \<in> set m" and "matchesRedactKey k ks"
    and "mem_reachable (ms_log st)" and "uid \<noteq> []" and "uid \<notin> ev_ID ` set (ml_events (ms_log st))" and "pp_uuid pp uid = Some uid"
    and "as_log s = ms_log (snd (Audit cd chain (log_to (memory_api pf marshal uid x)) ks groups opts nxt clock rid c ''tools/call'' req st))"
    and "pt_mcp p = Some mc" and "pt_audit p = memory_api pf marshal uid x" and "GetIdentity c' = Some i" and "identityKey (Some i) \<noteq> []"
  shows "snd (auditReplay pp cd rv clock' uids p uid c' r s) = s \<and> rs_Status (fst (auditReplay pp cd rv clock' uids p uid c' r s)) = 400"
proof -
  let ?au = "memory_api pf marshal uid x"
  from audited_row [OF assms(1), of cd chain "log_to ?au" ks groups opts nxt clock rid c st] obtain ev where
    ev: "ms_log (snd (Audit cd chain (log_to ?au) ks groups opts nxt clock rid c ''tools/call'' req st)) = log_to ?au ev (ms_log st)"
      "ev_ID ev = []" "params_of ev \<in> {None, SanitizeParameters (VMap m) ks}"
    using assms(2) by auto
  have s: "as_log s = log_to ?au ev (ms_log st)" using assms(9) ev(1) by simp
  obtain g where g: "aa_GetPayload ?au = Some g" "g (log_to ?au ev (ms_log st)) uid = Inr (ev_Payload ev)"
    using memory_log(2) [OF assms(5) ev(2) assms(6,7)] by blast
  have "case params_of ev of None \<Rightarrow> True | Some ps \<Rightarrow> hasRedactedParam ps"
    using ev(3) sanitized_has_redacted [OF assms(3,4)] by auto
  then show ?thesis
    using memory_log(1) [OF assms(5) ev(2) assms(6,7), of pf marshal x] g assms(8,10-13)
    by (intro replay_needs_clean_params [where g = g and original = "ev\<lparr>ev_ID := uid\<rparr>" and payload = "ev_Payload ev"])
       (simp_all add: s params_of_def)
qed

theorem secret_call_not_replayed_witness:
  "rs_Status (fst (auditReplay toy_parsers toy_codec (\<lambda>_. VNil) (\<lambda>_. 7) (\<lambda>_. ''e3'') (toy_portal\<lparr>pt_audit := toy_backend\<rparr>) ''e2'' toy_ctx
     (get_request []) (toy_api_state\<lparr>as_log := toy_logged\<rparr>))) = 400"
proof -
  have "mem_reachable (ms_log toy_mw_state)" "''e2'' \<notin> ev_ID ` set (ml_events (ms_log toy_mw_state))"
    by (simp_all add: toy_mw_state_def NewMemoryLogger_def mem_reachable.start [unfolded NewMemoryLogger_def])
  moreover have "mq_header (toy_request ''k1'' ''s1'') = Some [(''X-Api-Key'', [''k1''])]" "pp_uuid toy_parsers ''e2'' = Some ''e2''"
    "snd (extractCallParams toy_codec (toy_request ''k1'' ''s1'')) = Some [(''token'', VStr ''s1'')]"
    by (simp_all add: toy_request_def toy_parsers_def extractCallParams_def)
  moreover have "matchesRedactKey ''token'' [''token'']" by code_simp
  moreover have "identityKey (Some Anonymous) \<noteq> []" "GetIdentity toy_ctx = Some Anonymous" by (simp_all add: identityKey_def Anonymous_def)
  moreover have "pt_mcp (toy_portal\<lparr>pt_audit := toy_backend\<rparr>) =
      Some \<lparr>mc_serverConnect = None, mc_clientConnect = None, mc_CallTool = (\<lambda>_ _ _ n. ((None, None), n + 1))\<rparr>" by (simp add: toy_portal_def)
  ultimately show ?thesis
    using secret_call_not_replayed [where uid = "''e2''" and pf = "\<lambda>_. None" and marshal = "\<lambda>_. None" and x = "\<lambda>_. None"
        and req = "toy_request ''k1'' ''s1''" and st = toy_mw_state and pp = toy_parsers and cd = toy_codec and k = "''token''"
        and chain = "NewChain True (Some (\<lambda>_ s. (Inr Anonymous, s))) None" and ks = "[''token'']" and groups = "[]"
        and opts = "WithPayloadCapture 0 defaultAuditOptions" and nxt = "\<lambda>c r m q h. ((NilResult, None), [], h)"
        and clock = "\<lambda>_. 0" and rid = "''u''" and c = background_ctx and c' = toy_ctx and r = "get_request []"
        and p = "toy_portal\<lparr>pt_audit := toy_backend\<rparr>" and s = "toy_api_state\<lparr>as_log := toy_logged\<rparr>"]
    unfolding toy_logged_def toy_backend_def by auto
qed

section \<open>The production log\<close>

lemma norm_gomap_Some: "norm_gomap (Some m) = (if m = [] then None else Some (norm_entries m))" "norm_gomap None = None"
  by (simp_all add: norm_gomap_def split: list.split)

text \<open>An event the queue has room for is written by the time the worker has drained it, if no write failed.\<close>

lemma logged_written:
  assumes "pipe_reachable cd db0 p" and "al_pc (pi_async p) \<noteq> Done" and "length (al_ch (pi_async p)) < al_cap (pi_async p)"
    and "p1 = log_to (pipe_api pf cd io) ev p" and "drain_steps (pi_async p1) \<le> length cs"
    and "pi_failed (pipe_run cd cs p1) = pi_failed p"
  shows "al_accepted (pi_async p1) = al_accepted (pi_async p) @ [ev]" "pi_db p1 = pi_db p"
    "pipe_reachable cd db0 (pipe_run cd cs p1)" "\<exists>uid. written_as (pipe_run cd cs p1) uid ev"
proof -
  let ?a = "pi_async p1" and ?p' = "pipe_run cd cs p1"
  have p1: "p1 = p\<lparr>pi_async := fst (async_Log ev (pi_async p))\<rparr>" using assms(4) by (simp add: pipe_api_def)
  have a: "al_accepted ?a = al_accepted (pi_async p) @ [ev]" "al_ch ?a = al_ch (pi_async p) @ [ev]" "al_pc ?a = al_pc (pi_async p)"
    using assms(3) by (simp_all add: p1 async_Log_def)
  show "al_accepted ?a = al_accepted (pi_async p) @ [ev]" "pi_db p1 = pi_db p" by (simp_all add: a(1), simp add: p1)
  have r1: "pipe_reachable cd db0 p1"
    using a(3) unfolding p1 by (intro pipe_reachable.step [OF assms(1)] pipe_step.client async_step.log) simp
  show r: "pipe_reachable cd db0 ?p'" by (rule pipe_run_reachable [OF r1])
  have ok: "queue_ok ?a" "tail_ok ?a" using async_reachable_ok [OF pipe_async_reachable [OF r1]] by simp_all
  obtain cs' where run: "length cs' = length cs" "pi_async ?p' = worker_run cs' ?a" using pipe_run_async by blast
  have fin: "al_processed (pi_async ?p') = al_accepted (pi_async p) @ [ev]"
    using worker_run_done [OF ok, of cs'] assms(2,5) a run by simp
  have "pi_failed ?p' = pi_failed p1" using assms(6) by (simp add: p1)
  from pipe_run_written [OF this] obtain d where d: "al_processed (pi_async ?p') = al_processed ?a @ d"
    "al_written (pi_async ?p') = al_written ?a @ d" by blast
  have "ev \<in> set d" using fin d(1) ok(1) a by (auto simp: queue_ok_def)
  then have "ev \<in> set (al_written (pi_async ?p'))" using d(2) by simp
  moreover have "length (pi_ids ?p') = length (al_written (pi_async ?p'))" using pipe_refines [OF r] by (simp add: refines_sync_def)
  ultimately show "\<exists>uid. written_as ?p' uid ev"
    unfolding written_as_def by (metis in_set_conv_nth in_set_zip fst_conv snd_conv)
qed

text \<open>A concrete run: the same call with an empty queue and empty tables, and a codec for the one text it needs.\<close>

definition tok_codec :: codec where
  "tok_codec = \<lparr>cd_marshal = (\<lambda>_. Some ''x''), cd_unmarshal = (\<lambda>_. Some (VMap [(''token'', VStr redacted)])),
     cd_jsonb = (\<lambda>_. Some (VMap [(''token'', VStr redacted)])), cd_showtime = (\<lambda>_. []), cd_parsetime = (\<lambda>_. Some 0)\<rparr>"

definition tok_backend :: "pipe audit_api" where
  "tok_backend = pipe_api (\<lambda>_. None) tok_codec None"

definition tok_state :: "(unit, pipe, unit) mw_state" where
  "tok_state = \<lparr>ms_world = \<lparr>wd_stores = (), wd_lastLog = [], wd_log = []\<rparr>, ms_log = NewPipe 2 1 empty_db, ms_handler = ()\<rparr>"

definition tok_queued :: pipe where
  "tok_queued = ms_log (snd (Audit tok_codec (NewChain True (Some (\<lambda>_ s. (Inr Anonymous, s))) None) (log_to tok_backend) [''token''] []
     defaultAuditOptions (\<lambda>c r m q h. ((NilResult, None), [], h)) (\<lambda>_. 0) ''u'' background_ctx
     ''tools/call'' (toy_request ''k1'' ''s1'') tok_state))"

definition tok_written :: pipe where
  "tok_written = pipe_run tok_codec (replicate 9 toy_choice) tok_queued"

lemma tok_run:
  "map (\<lambda>ev. (ev_ID ev, ev_ToolName ev, ev_Parameters ev, ev_Payload ev)) (al_accepted (pi_async tok_queued)) =
     [([], ''echo'', Some [(''token'', VStr redacted)], None)]"
  "drain_steps (pi_async tok_queued) \<le> 9" "pi_failed tok_written = 0" "pi_ids tok_written = [''u1'']"
  "al_written (pi_async tok_written) = al_accepted (pi_async tok_queued)"
  by code_simp+

lemma tok_reachable: "pipe_reachable tok_codec empty_db tok_written"
proof -
  have "mq_header (toy_request ''k1'' ''s1'') = Some [(''X-Api-Key'', [''k1''])]" by (simp add: toy_request_def)
  from audited_row [OF this, of tok_codec "NewChain True (Some (\<lambda>_ s. (Inr Anonymous, s))) None" "log_to tok_backend" "[''token'']" "[]"
      defaultAuditOptions "\<lambda>c r m q h. ((NilResult, None), [], h)" "\<lambda>_. 0" "''u''" background_ctx tok_state, folded tok_queued_def]
  obtain ev where "tok_queued = log_to (pipe_api (\<lambda>_. None) tok_codec None) ev (NewPipe 2 1 empty_db)"
    by (auto simp: tok_state_def tok_backend_def)
  from logged_written(3) [OF pipe_reachable.new _ _ this, of "replicate 9 toy_choice"] tok_run(2,3)
  show ?thesis by (simp add: tok_written_def NewPipe_def NewAsyncLogger_def)
qed

text \<open>C10: What an MCP client does shows up in the portal of the production server. Take an audited \<open>tools/call\<close> over HTTP,
  granted or denied, with the queue over Postgres in any reachable state with room in its buffer and a worker that has not
  ended. The call itself only queues one event, of source mcp and for the called tool, and waits for no
  database. After at most \<open>drain_steps\<close> steps of the worker, unless one of its writes failed, the event has been written
  under an id, and the event detail endpoint, asked for that id, answers 200 with exactly this event and its
  payload, as JSON and Postgres keep them.\<close>

theorem production_call_visible:
  assumes "mq_header req = Some hdr" and "pipe_reachable cd db0 (ms_log st)" and "db_ok db0"
    and "al_pc (pi_async (ms_log st)) \<noteq> Done" and "length (al_ch (pi_async (ms_log st))) < al_cap (pi_async (ms_log st))"
    and "p1 = ms_log (snd (Audit cd chain (log_to (pipe_api pf cd None)) ks groups opts nxt clock rid c ''tools/call'' req st))"
    and "drain_steps (pi_async p1) \<le> length cs" and "pi_failed (pipe_run cd cs p1) = pi_failed (ms_log st)"
  shows "\<exists>ev uid. al_accepted (pi_async p1) = al_accepted (pi_async (ms_log st)) @ [ev] \<and> pi_db p1 = pi_db (ms_log st) \<and>
    ev_Source ev = ''mcp'' \<and> ev_ToolName ev = fst (extractCallParams cd req) \<and>
    written_as (pipe_run cd cs p1) uid ev \<and>
    (uid \<noteq> [] \<and> pp_uuid pp uid = Some uid \<and> storable cd ev \<longrightarrow>
      fst (auditEventDetail pp cd (pipe_api pf cd None) uid c' r (pipe_run cd cs p1)) =
        json_response 200 (event_val cd (read_back (ev\<lparr>ev_ID := uid\<rparr>))))"
proof -
  let ?au = "pipe_api pf cd None"
  from audited_row [OF assms(1), of cd chain "log_to ?au" ks groups opts nxt clock rid c st, folded assms(6)] obtain ev where
    ev: "p1 = log_to ?au ev (ms_log st)" "ev_ID ev = []" "ev_ToolName ev = fst (extractCallParams cd req)" "ev_Source ev = ''mcp''" by blast
  note w = logged_written [OF assms(2,4,5) ev(1) assms(7,8)]
  from w(4) obtain uid where uid: "written_as (pipe_run cd cs p1) uid ev" by blast
  show ?thesis
    using ev(3,4) w(1,2) uid written_detail [OF w(3) assms(3) uid ev(2)] by (intro exI [of _ ev] exI [of _ uid]) simp
qed

theorem production_call_visible_witness:
  "\<exists>ev. al_accepted (pi_async tok_queued) = [ev] \<and> ev_ToolName ev = ''echo'' \<and>
     fst (auditEventDetail toy_parsers tok_codec tok_backend ''u1'' toy_ctx (get_request []) tok_written) =
       json_response 200 (event_val tok_codec (read_back (ev\<lparr>ev_ID := ''u1''\<rparr>)))"
proof -
  have "mq_header (toy_request ''k1'' ''s1'') = Some [(''X-Api-Key'', [''k1''])]" by (simp add: toy_request_def)
  moreover have "pipe_reachable tok_codec empty_db (ms_log tok_state)" by (simp add: tok_state_def pipe_reachable.new)
  moreover have "al_pc (pi_async (ms_log tok_state)) \<noteq> Done" "pi_failed (pipe_run tok_codec (replicate 9 toy_choice) tok_queued) = pi_failed (ms_log tok_state)"
    "length (al_ch (pi_async (ms_log tok_state))) < al_cap (pi_async (ms_log tok_state))" "al_accepted (pi_async (ms_log tok_state)) = []"
    using tok_run(3) by (simp_all add: tok_state_def NewPipe_def NewAsyncLogger_def tok_written_def)
  moreover have "drain_steps (pi_async tok_queued) \<le> length (replicate 9 toy_choice)" using tok_run(2) by simp
  ultimately obtain ev uid where ev: "al_accepted (pi_async tok_queued) = [ev]" "written_as tok_written uid ev"
    and shown: "uid \<noteq> [] \<and> pp_uuid toy_parsers uid = Some uid \<and> storable tok_codec ev \<longrightarrow>
      fst (auditEventDetail toy_parsers tok_codec tok_backend uid toy_ctx (get_request []) tok_written) =
        json_response 200 (event_val tok_codec (read_back (ev\<lparr>ev_ID := uid\<rparr>)))"
    using production_call_visible [where req = "toy_request ''k1'' ''s1''" and st = tok_state and ?db0.0 = empty_db and cd = tok_codec
        and ?p1.0 = tok_queued and cs = "replicate 9 toy_choice" and pf = "\<lambda>_. None" and pp = toy_parsers and c' = toy_ctx and r = "get_request []",
        OF _ _ empty_db_ok _ _ tok_queued_def [unfolded tok_backend_def]]
    unfolding tok_written_def tok_backend_def by auto
  from tok_run(1) ev(1) have "ev_ToolName ev = ''echo''" "storable tok_codec ev"
    by (simp_all add: storable_def json_roundtrips_def tok_codec_def)
  moreover have "uid = ''u1''" using ev(2) tok_run(4) by (auto simp: written_as_def dest: set_zip_leftD)
  ultimately show ?thesis using ev(1) shown by (simp add: toy_parsers_def)
qed

text \<open>C7: A call with a secret argument is never replayed. If an audited call over HTTP had an argument
  whose name matches a redaction key, then, whatever the capture options and however the call went, at every moment
  of the production log at which its row exists, under whatever id, replaying it, asked for by any authenticated
  caller, is refused with 400 and changes nothing: no tool is called, no row queued and no quota spent.\<close>

theorem secret_call_never_replayed:
  assumes "mq_header req = Some hdr" and "snd (extractCallParams cd req) = Some m" and "(k, v) \<in> set m" and "matchesRedactKey k ks"
    and "SanitizeParameters (VMap m) ks = Some m'" and "json_roundtrips cd (VMap m')"
  shows "\<exists>ev. ms_log (snd (Audit cd chain (log_to (pipe_api pf cd None)) ks groups opts nxt clock rid c ''tools/call'' req st)) =
      log_to (pipe_api pf cd None) ev (ms_log st) \<and>
    (\<forall>db0 uid (p :: ('t, pipe) portal_api) s mc c' i r clock' uids. pipe_reachable cd db0 (as_log s) \<and> db_ok db0 \<and> written_as (as_log s) uid ev \<and>
       uid \<noteq> [] \<and> pp_uuid pp uid = Some uid \<and> pt_mcp p = Some mc \<and> pt_audit p = pipe_api pf cd None \<and>
       GetIdentity c' = Some i \<and> identityKey (Some i) \<noteq> [] \<longrightarrow>
       snd (auditReplay pp cd' rv clock' uids p uid c' r s) = s \<and> rs_Status (fst (auditReplay pp cd' rv clock' uids p uid c' r s)) = 400)"
proof -
  let ?au = "pipe_api pf cd None"
  from audited_row [OF assms(1), of cd chain "log_to ?au" ks groups opts nxt clock rid c st] obtain ev where
    ev: "ms_log (snd (Audit cd chain (log_to ?au) ks groups opts nxt clock rid c ''tools/call'' req st)) = log_to ?au ev (ms_log st)"
      "ev_ID ev = []" "params_of ev \<in> {None, Some m'}"
    using assms(2,5) by auto
  have red: "hasRedactedParam m'" using sanitized_has_redacted [OF assms(3,4)] assms(5) by simp
  show ?thesis
  proof (intro exI [of _ ev] conjI allI impI; (elim conjE)?)
    fix db0 uid mc c' i r clock' uids and p :: "('t, pipe) portal_api" and s :: "('t, pipe) api_state"
    assume h: "pipe_reachable cd db0 (as_log s)" "db_ok db0" "written_as (as_log s) uid ev" "uid \<noteq> []" "pp_uuid pp uid = Some uid"
      "pt_mcp p = Some mc" "pt_audit p = pipe_api pf cd None" "GetIdentity c' = Some i" "identityKey (Some i) \<noteq> []"
    have a: "ev_ID (assigned uid ev) = uid" using ev(2) by (simp add: assigned_def)
    obtain original where q: "pg_Query pf cd None (pi_db (as_log s)) (zero_filter\<lparr>qf_EventID := uid, qf_Limit := 1\<rparr>) = Inr [original]"
      using stored_query [OF written_stored [OF h(1-3)], of pf] h(4) a by metis
    obtain payload where pl: "pg_GetPayload cd None (pi_db (as_log s)) uid = Inr payload"
      "Option.bind payload pl_RequestParams = norm_gomap (params_of ev)"
      using written_params [OF h(1-3) ev(2) h(4)] ev(3) assms(6) by auto
    have "case norm_gomap (params_of ev) of None \<Rightarrow> True | Some ps \<Rightarrow> hasRedactedParam ps"
      using ev(3) red by (auto simp: norm_gomap_Some)
    then have "snd (auditReplay pp cd' rv clock' uids p uid c' r s) = s \<and> rs_Status (fst (auditReplay pp cd' rv clock' uids p uid c' r s)) = 400"
      using h(4-9) q pl
      by (intro replay_needs_clean_params [where eid = uid and mc = mc and i = i and original = original and rest = "[]" and payload = payload
            and g = "\<lambda>p. async_GetPayload (Some (pg_GetPayload cd None (pi_db p)))"])
         (simp_all add: pipe_api_def async_Query_def async_GetPayload_def)
    then show "snd (auditReplay pp cd' rv clock' uids p uid c' r s) = s" "rs_Status (fst (auditReplay pp cd' rv clock' uids p uid c' r s)) = 400"
      by simp_all
  qed (rule ev(1))
qed


theorem secret_call_never_replayed_witness:
  "rs_Status (fst (auditReplay toy_parsers tok_codec (\<lambda>_. VNil) (\<lambda>_. 7) (\<lambda>_. ''e3'')
     \<lparr>pt_registry = None, pt_audit = tok_backend, pt_mcp = pt_mcp toy_portal, pt_redactKeys = []\<rparr> ''u1'' toy_ctx (get_request [])
     \<lparr>as_tools = 0, as_log = tok_written, as_limiter = None, as_keys = []\<rparr>)) = 400"
proof -
  have args: "SanitizeParameters (VMap [(''token'', VStr ''s1'')]) [''token''] = Some [(''token'', VStr redacted)]"
    "matchesRedactKey ''token'' [''token'']" "(''token'', VStr ''s1'') \<in> set [(''token'', VStr ''s1'')]" by code_simp+
  have js: "json_roundtrips tok_codec (VMap [(''token'', VStr redacted)])" by (simp add: json_roundtrips_def tok_codec_def)
  have req: "mq_header (toy_request ''k1'' ''s1'') = Some [(''X-Api-Key'', [''k1''])]"
    "snd (extractCallParams tok_codec (toy_request ''k1'' ''s1'')) = Some [(''token'', VStr ''s1'')]"
    by (simp_all add: toy_request_def extractCallParams_def)
  have caller: "identityKey (Some Anonymous) \<noteq> []" "GetIdentity toy_ctx = Some Anonymous" by (simp_all add: identityKey_def Anonymous_def)
  show ?thesis
    using secret_call_never_replayed [OF req args(3,2,1) js, where st = tok_state and pf = "\<lambda>_. None" and pp = toy_parsers and cd' = tok_codec
      and rv = "\<lambda>_. VNil" and chain = "NewChain True (Some (\<lambda>_ s. (Inr Anonymous, s))) None" and groups = "[]" and opts = defaultAuditOptions
      and nxt = "\<lambda>c r m q h. ((NilResult, None), [], h)" and clock = "\<lambda>_. 0" and rid = "''u''" and c = background_ctx and ?'t = nat,
      folded tok_backend_def, folded tok_queued_def]
  proof (elim exE conjE, goal_cases)
    case (1 ev)
    have "al_accepted (pi_async tok_queued) = [ev]"
      unfolding 1(1) by (simp add: tok_state_def tok_backend_def pipe_api_def NewPipe_def NewAsyncLogger_def async_Log_def)
    then have "written_as tok_written ''u1'' ev" using tok_run(4,5) by (simp add: written_as_def)
    with tok_reachable caller show ?case
      by (intro conjunct2 [OF 1(2) [THEN spec [of _ empty_db], rule_format, of _ _ _ "the (pt_mcp toy_portal)" _ Anonymous]])
         (simp add: toy_parsers_def toy_portal_def)
  qed
qed

end
